theory Spec2Isabelle
  imports Main "HOL-Library.Sublist" "HOL-Library.AList"
begin

section \<open>JavaScript strings\<close>

text \<open>
  Strings are lists of characters. The helpers below follow the \<^verbatim>\<open>String.prototype\<close>
  methods the installers call. Characters stand for ASCII code units, and \<^verbatim>\<open>toUpperCase\<close> is
  modelled on the letters a-z only.
\<close>

definition startsWith :: "string \<Rightarrow> string \<Rightarrow> bool" where
  "startsWith s p = prefix p s"

definition endsWith :: "string \<Rightarrow> string \<Rightarrow> bool" where
  "endsWith s p = suffix p s"

fun str_includes :: "string \<Rightarrow> string \<Rightarrow> bool" where
  "str_includes [] p = (p = [])"
| "str_includes (c # s) p = (prefix p (c # s) \<or> str_includes s p)"

text \<open>
  A replacement string is not inserted as it stands: \<^verbatim>\<open>GetSubstitution\<close> expands the
  patterns that begin with a dollar sign. With a string pattern there are no captures, so a
  doubled dollar sign gives one dollar sign, dollar-ampersand the matched text,
  dollar-backtick the text before the match, dollar-apostrophe the text after it, and every
  other character stands for itself, a dollar sign before a digit or before \<^verbatim>\<open><\<close> included.
\<close>

fun getSubstitution :: "string \<Rightarrow> string \<Rightarrow> string \<Rightarrow> string \<Rightarrow> string" where
  "getSubstitution matched passed rest [] = []"
| "getSubstitution matched passed rest [c] = [c]"
| "getSubstitution matched passed rest (c # d # r) =
     (if c \<noteq> CHR ''$'' then c # getSubstitution matched passed rest (d # r)
      else if d = CHR ''$'' then CHR ''$'' # getSubstitution matched passed rest r
      else if d = CHR ''&'' then matched @ getSubstitution matched passed rest r
      else if d = CHR 0x60 then passed @ getSubstitution matched passed rest r
      else if d = CHR 0x27 then rest @ getSubstitution matched passed rest r
      else c # getSubstitution matched passed rest (d # r))"

text \<open>\<^verbatim>\<open>s.replace(pat, rep)\<close> with a string pattern: only the first occurrence is replaced.
  \<open>passed\<close> is the text already gone through.\<close>

fun replaceFrom :: "string \<Rightarrow> string \<Rightarrow> string \<Rightarrow> string \<Rightarrow> string" where
  "replaceFrom pat rep passed [] = (if pat = [] then getSubstitution pat passed [] rep else [])"
| "replaceFrom pat rep passed (c # s) =
     (if prefix pat (c # s)
      then getSubstitution pat passed (drop (length pat) (c # s)) rep @ drop (length pat) (c # s)
      else c # replaceFrom pat rep (passed @ [c]) s)"

definition replace_first :: "string \<Rightarrow> string \<Rightarrow> string \<Rightarrow> string" where
  "replace_first pat rep s = replaceFrom pat rep [] s"

fun join_with :: "string \<Rightarrow> string list \<Rightarrow> string" where
  "join_with sep [] = []"
| "join_with sep [x] = x"
| "join_with sep (x # y # ys) = x @ sep @ join_with sep (y # ys)"

text \<open>\<^verbatim>\<open>s.split(c)\<close> for a one-character separator; the result is never empty.\<close>

fun split_on :: "char \<Rightarrow> string \<Rightarrow> string list" where
  "split_on c [] = [[]]"
| "split_on c (x # xs) =
     (if x = c then [] # split_on c xs
      else (case split_on c xs of
              [] \<Rightarrow> [[x]]
            | w # ws \<Rightarrow> (x # w) # ws))"

definition dquote :: char where
  "dquote = CHR 0x22"

section \<open>The file system\<close>

text \<open>
  The installers work through \<^verbatim>\<open>fs-extra\<close>. A file system is an association list from
  path strings to nodes, in listing order. \<^verbatim>\<open>path.join\<close> joins its non-empty arguments
  with a slash; its normalisation step (\<^verbatim>\<open>.\<close>, \<^verbatim>\<open>..\<close>, doubled slashes) is not modelled,
  so directory arguments are taken to be normalised paths and the other arguments plain
  names.
\<close>

datatype node = File string | Directory

type_synonym filesystem = "(string \<times> node) list"

datatype fs_error = ENOENT | ENOTDIR | EISDIR | EEXIST

definition bindE :: "'e + 'a \<Rightarrow> ('a \<Rightarrow> 'e + 'b) \<Rightarrow> 'e + 'b" where
  "bindE m f = (case m of Inl e \<Rightarrow> Inl e | Inr x \<Rightarrow> f x)"

definition path_join :: "string list \<Rightarrow> string" where
  "path_join segs =
     (let ne = filter (\<lambda>s. s \<noteq> []) segs
      in if ne = [] then ''.'' else join_with ''/'' ne)"

definition pathExists :: "filesystem \<Rightarrow> string \<Rightarrow> bool" where
  "pathExists fs p = (map_of fs p \<noteq> None)"

text \<open>\<open>under p q\<close>: the path \<open>q\<close> is \<open>p\<close> itself or lies below the directory \<open>p\<close>.\<close>

definition under :: "string \<Rightarrow> string \<Rightarrow> bool" where
  "under p q = (q = p \<or> prefix (p @ ''/'') q)"

definition child_name :: "string \<Rightarrow> string \<Rightarrow> string option" where
  "child_name d q =
     (let n = drop (Suc (length d)) q
      in if prefix (d @ ''/'') q \<and> n \<noteq> [] \<and> CHR ''/'' \<notin> set n then Some n else None)"

definition children :: "filesystem \<Rightarrow> string \<Rightarrow> (string \<times> node) list" where
  "children fs d =
     List.map_filter (\<lambda>(q, nd). map_option (\<lambda>n. (n, nd)) (child_name d q)) fs"

text \<open>\<^verbatim>\<open>fs.readdir(d, { withFileTypes: true })\<close> and the plain \<^verbatim>\<open>fs.readdir(d)\<close>.\<close>

definition readdirTypes :: "filesystem \<Rightarrow> string \<Rightarrow> fs_error + (string \<times> node) list" where
  "readdirTypes fs d =
     (case map_of fs d of
        None \<Rightarrow> Inl ENOENT
      | Some (File c) \<Rightarrow> Inl ENOTDIR
      | Some Directory \<Rightarrow> Inr (children fs d))"

definition readdir :: "filesystem \<Rightarrow> string \<Rightarrow> fs_error + string list" where
  "readdir fs d = bindE (readdirTypes fs d) (\<lambda>es. Inr (map fst es))"

definition readFile :: "filesystem \<Rightarrow> string \<Rightarrow> fs_error + string" where
  "readFile fs p =
     (case map_of fs p of
        None \<Rightarrow> Inl ENOENT
      | Some Directory \<Rightarrow> Inl EISDIR
      | Some (File c) \<Rightarrow> Inr c)"

section \<open>Collecting agents and tasks (shared/beat-artifacts.js)\<close>

record agent_info =
  agent_path :: string
  agent_name :: string
  agent_module :: string

text \<open>The body of the \<^verbatim>\<open>for (const file of files)\<close> loop of \<^verbatim>\<open>getAgentsFromDir\<close>.\<close>

fun scanAgentFiles :: "filesystem \<Rightarrow> string \<Rightarrow> string \<Rightarrow> string list \<Rightarrow> fs_error + agent_info list" where
  "scanAgentFiles fs dirPath moduleName [] = Inr []"
| "scanAgentFiles fs dirPath moduleName (file # files) =
     (if \<not> endsWith file ''.md'' then scanAgentFiles fs dirPath moduleName files
      else if str_includes file ''.customize.'' then scanAgentFiles fs dirPath moduleName files
      else (case readFile fs (path_join [dirPath, file]) of
              Inl e \<Rightarrow> Inl e
            | Inr content \<Rightarrow>
                if str_includes content (''localskip='' @ [dquote] @ ''true'' @ [dquote])
                then scanAgentFiles fs dirPath moduleName files
                else (case scanAgentFiles fs dirPath moduleName files of
                        Inl e \<Rightarrow> Inl e
                      | Inr rest \<Rightarrow>
                          Inr (\<lparr>agent_path = path_join [dirPath, file],
                                agent_name = replace_first ''.md'' [] file,
                                agent_module = moduleName\<rparr> # rest))))"

definition getAgentsFromDir :: "filesystem \<Rightarrow> string \<Rightarrow> string \<Rightarrow> fs_error + agent_info list" where
  "getAgentsFromDir fs dirPath moduleName =
     (if \<not> pathExists fs dirPath then Inr []
      else bindE (readdir fs dirPath) (scanAgentFiles fs dirPath moduleName))"

fun scanTaskFiles :: "string \<Rightarrow> string \<Rightarrow> string list \<Rightarrow> agent_info list" where
  "scanTaskFiles dirPath moduleName [] = []"
| "scanTaskFiles dirPath moduleName (file # files) =
     (if \<not> endsWith file ''.md'' then scanTaskFiles dirPath moduleName files
      else \<lparr>agent_path = path_join [dirPath, file],
            agent_name = replace_first ''.md'' [] file,
            agent_module = moduleName\<rparr> # scanTaskFiles dirPath moduleName files)"

definition getTasksFromDir :: "filesystem \<Rightarrow> string \<Rightarrow> string \<Rightarrow> fs_error + agent_info list" where
  "getTasksFromDir fs dirPath moduleName =
     (if \<not> pathExists fs dirPath then Inr []
      else bindE (readdir fs dirPath) (\<lambda>files. Inr (scanTaskFiles dirPath moduleName files)))"

text \<open>The loop over \<^verbatim>\<open>selectedModules\<close>, for a per-directory collector \<open>get\<close> and a kind
  directory name.\<close>

fun collectModules ::
  "(filesystem \<Rightarrow> string \<Rightarrow> string \<Rightarrow> fs_error + agent_info list) \<Rightarrow> string \<Rightarrow>
   filesystem \<Rightarrow> string \<Rightarrow> string list \<Rightarrow> fs_error + agent_info list" where
  "collectModules get kind fs beatDir [] = Inr []"
| "collectModules get kind fs beatDir (moduleName # ms) =
     (if pathExists fs (path_join [beatDir, moduleName, kind])
      then (case get fs (path_join [beatDir, moduleName, kind]) moduleName of
              Inl e \<Rightarrow> Inl e
            | Inr found \<Rightarrow>
                (case collectModules get kind fs beatDir ms of
                   Inl e \<Rightarrow> Inl e
                 | Inr rest \<Rightarrow> Inr (found @ rest)))
      else collectModules get kind fs beatDir ms)"

text \<open>The loop over the directories of the standalone area \<^verbatim>\<open>{beatDir}/agents\<close>; its inner
  loop over files is, line for line, the loop of \<^verbatim>\<open>getAgentsFromDir\<close> with the module
  name \<^verbatim>\<open>standalone\<close>.\<close>

fun scanStandaloneDirs :: "filesystem \<Rightarrow> string \<Rightarrow> (string \<times> node) list \<Rightarrow> fs_error + agent_info list" where
  "scanStandaloneDirs fs standaloneAgentsDir [] = Inr []"
| "scanStandaloneDirs fs standaloneAgentsDir ((dname, nd) # ds) =
     (if nd \<noteq> Directory then scanStandaloneDirs fs standaloneAgentsDir ds
      else (case readdir fs (path_join [standaloneAgentsDir, dname]) of
              Inl e \<Rightarrow> Inl e
            | Inr agentFiles \<Rightarrow>
                (case scanAgentFiles fs (path_join [standaloneAgentsDir, dname]) ''standalone'' agentFiles of
                   Inl e \<Rightarrow> Inl e
                 | Inr found \<Rightarrow>
                     (case scanStandaloneDirs fs standaloneAgentsDir ds of
                        Inl e \<Rightarrow> Inl e
                      | Inr rest \<Rightarrow> Inr (found @ rest)))))"

text \<open>The last block of \<^verbatim>\<open>getAgentsFromBeat\<close>: the standalone agents of \<^verbatim>\<open>{beatDir}/agents\<close>.\<close>

definition getStandaloneAgents :: "filesystem \<Rightarrow> string \<Rightarrow> fs_error + agent_info list" where
  "getStandaloneAgents fs beatDir =
     (if pathExists fs (path_join [beatDir, ''agents''])
      then bindE (readdirTypes fs (path_join [beatDir, ''agents'']))
             (scanStandaloneDirs fs (path_join [beatDir, ''agents'']))
      else Inr [])"

definition getAgentsFromBeat :: "filesystem \<Rightarrow> string \<Rightarrow> string list \<Rightarrow> fs_error + agent_info list" where
  "getAgentsFromBeat fs beatDir selectedModules =
     bindE (if pathExists fs (path_join [beatDir, ''core'', ''agents''])
            then getAgentsFromDir fs (path_join [beatDir, ''core'', ''agents'']) ''core''
            else Inr [])
       (\<lambda>coreAgents.
     bindE (collectModules getAgentsFromDir ''agents'' fs beatDir selectedModules)
       (\<lambda>moduleAgents.
     bindE (getStandaloneAgents fs beatDir)
       (\<lambda>standalone. Inr (coreAgents @ moduleAgents @ standalone))))"

definition getTasksFromBeat :: "filesystem \<Rightarrow> string \<Rightarrow> string list \<Rightarrow> fs_error + agent_info list" where
  "getTasksFromBeat fs beatDir selectedModules =
     bindE (if pathExists fs (path_join [beatDir, ''core'', ''tasks''])
            then getTasksFromDir fs (path_join [beatDir, ''core'', ''tasks'']) ''core''
            else Inr [])
       (\<lambda>coreTasks.
     bindE (collectModules getTasksFromDir ''tasks'' fs beatDir selectedModules)
       (\<lambda>moduleTasks. Inr (coreTasks @ moduleTasks)))"

section \<open>Effects: the world, actions, and the mutating file operations\<close>

text \<open>
  An installer run changes the file system and may throw. An action takes the world and
  returns a result or an error together with the world it leaves behind, so that what was
  deleted or written before an exception stays deleted or written. The world also records
  the order of the mutating calls, and the points at which a collection has returned.
\<close>

datatype event = Collected string | Removed string | Wrote string | MadeDir string

record world =
  disk :: filesystem
  events :: "event list"

type_synonym 'a action = "world \<Rightarrow> (fs_error + 'a) \<times> world"

definition returnA :: "'a \<Rightarrow> 'a action" where
  "returnA x = (\<lambda>w. (Inr x, w))"

definition bindA :: "'a action \<Rightarrow> ('a \<Rightarrow> 'b action) \<Rightarrow> 'b action" where
  "bindA m f = (\<lambda>w. case m w of (Inl e, w') \<Rightarrow> (Inl e, w') | (Inr x, w') \<Rightarrow> f x w')"

text \<open>A read of the file system as an action: the world is left as it is.\<close>

definition readA :: "(filesystem \<Rightarrow> fs_error + 'a) \<Rightarrow> 'a action" where
  "readA r = (\<lambda>w. (r (disk w), w))"

text \<open>A \<^verbatim>\<open>for (const x of xs) { await f(x) }\<close> loop.\<close>

fun forEachA :: "('a \<Rightarrow> unit action) \<Rightarrow> 'a list \<Rightarrow> unit action" where
  "forEachA f [] = returnA ()"
| "forEachA f (x # xs) = bindA (f x) (\<lambda>u. forEachA f xs)"

text \<open>\<^verbatim>\<open>fs.remove(p)\<close>: removes a file, or a directory with everything below it; a missing
  path is not an error.\<close>

definition fs_remove :: "string \<Rightarrow> unit action" where
  "fs_remove p = (\<lambda>w. (Inr (),
     w\<lparr>disk := filter (\<lambda>(q, nd). \<not> under p q) (disk w), events := events w @ [Removed p]\<rparr>))"

definition parent_of :: "string \<Rightarrow> string" where
  "parent_of p = rev (tl (dropWhile (\<lambda>c. c \<noteq> CHR ''/'') (rev p)))"

text \<open>\<^verbatim>\<open>fs.writeFile(p, content)\<close>: the parent directory must exist (the empty path stands
  for the root) and \<open>p\<close> must not be a directory.\<close>

definition writeFile :: "filesystem \<Rightarrow> string \<Rightarrow> string \<Rightarrow> fs_error + filesystem" where
  "writeFile fs p content =
     (case map_of fs p of
        Some Directory \<Rightarrow> Inl EISDIR
      | _ \<Rightarrow>
         (if parent_of p = [] then Inr (AList.update p (File content) fs)
          else (case map_of fs (parent_of p) of
                  None \<Rightarrow> Inl ENOENT
                | Some (File c) \<Rightarrow> Inl ENOTDIR
                | Some Directory \<Rightarrow> Inr (AList.update p (File content) fs))))"

definition fs_writeFile :: "string \<Rightarrow> string \<Rightarrow> unit action" where
  "fs_writeFile p content = (\<lambda>w.
     case writeFile (disk w) p content of
       Inl e \<Rightarrow> (Inl e, w)
     | Inr fs' \<Rightarrow> (Inr (), w\<lparr>disk := fs', events := events w @ [Wrote p]\<rparr>))"

text \<open>\<^verbatim>\<open>fs.ensureDir(p)\<close>: creates \<open>p\<close> and its missing ancestors.\<close>

fun mkdirs :: "string list \<Rightarrow> filesystem \<Rightarrow> fs_error + filesystem" where
  "mkdirs [] fs = Inr fs"
| "mkdirs (d # ds) fs =
     (if d = [] then mkdirs ds fs
      else (case map_of fs d of
              None \<Rightarrow> mkdirs ds (fs @ [(d, Directory)])
            | Some Directory \<Rightarrow> mkdirs ds fs
            | Some (File c) \<Rightarrow> Inl (if ds = [] then EEXIST else ENOTDIR)))"

definition dir_chain :: "string \<Rightarrow> string list" where
  "dir_chain p = map (join_with ''/'') (tl (prefixes (split_on CHR ''/'' p)))"

definition ensureDir :: "filesystem \<Rightarrow> string \<Rightarrow> fs_error + filesystem" where
  "ensureDir fs p = mkdirs (dir_chain p) fs"

definition fs_ensureDir :: "string \<Rightarrow> unit action" where
  "fs_ensureDir p = (\<lambda>w.
     case ensureDir (disk w) p of
       Inl e \<Rightarrow> (Inl e, w)
     | Inr fs' \<Rightarrow> (Inr (), w\<lparr>disk := fs', events := events w @ [MadeDir p]\<rparr>))"

text \<open>\<^verbatim>\<open>fs.stat(p)\<close>, as far as the installers look at it: file or directory.\<close>

definition stat :: "filesystem \<Rightarrow> string \<Rightarrow> fs_error + node" where
  "stat fs p = (case map_of fs p of None \<Rightarrow> Inl ENOENT | Some nd \<Rightarrow> Inr nd)"

section \<open>Cleanup, adapter by adapter\<close>

text \<open>\<^verbatim>\<open>TraeSetup.cleanup\<close> (trae.js): entries of \<^verbatim>\<open>.trae/rules\<close> named \<^verbatim>\<open>beat-*.md\<close>.\<close>

definition trae_cleanup :: "string \<Rightarrow> unit action" where
  "trae_cleanup projectDir =
     (let rulesPath = path_join [projectDir, ''.trae'', ''rules'']
      in bindA (readA (\<lambda>fs. Inr (pathExists fs rulesPath))) (\<lambda>ex.
           if ex then
             bindA (readA (\<lambda>fs. readdir fs rulesPath)) (\<lambda>dirFiles.
               forEachA (\<lambda>file.
                  if startsWith file ''beat-'' \<and> endsWith file ''.md''
                  then fs_remove (path_join [rulesPath, file])
                  else returnA ()) dirFiles)
           else returnA ()))"

text \<open>\<^verbatim>\<open>OpenCodeSetup.cleanup\<close>: the same rule in the agent folder, then in the command
  folder.\<close>

definition opencode_cleanup :: "string \<Rightarrow> unit action" where
  "opencode_cleanup projectDir =
     (let agentsDir = path_join [projectDir, ''.opencode'', ''agent''];
          commandsDir = path_join [projectDir, ''.opencode'', ''command'']
      in bindA
           (bindA (readA (\<lambda>fs. Inr (pathExists fs agentsDir))) (\<lambda>ex.
              if ex then
                bindA (readA (\<lambda>fs. readdir fs agentsDir)) (\<lambda>dirFiles.
                  forEachA (\<lambda>file.
                     if startsWith file ''beat-'' \<and> endsWith file ''.md''
                     then fs_remove (path_join [agentsDir, file])
                     else returnA ()) dirFiles)
              else returnA ()))
           (\<lambda>u.
            bindA (readA (\<lambda>fs. Inr (pathExists fs commandsDir))) (\<lambda>ex.
              if ex then
                bindA (readA (\<lambda>fs. readdir fs commandsDir)) (\<lambda>dirFiles.
                  forEachA (\<lambda>file.
                     if startsWith file ''beat-'' \<and> endsWith file ''.md''
                     then fs_remove (path_join [commandsDir, file])
                     else returnA ()) dirFiles)
              else returnA ())))"

text \<open>\<^verbatim>\<open>clearOldBeatFiles\<close> of \<^verbatim>\<open>CodexSetup\<close> and \<^verbatim>\<open>ClineSetup\<close> (the two bodies are the
  same): every entry of \<^verbatim>\<open>destDir\<close> whose name starts with \<^verbatim>\<open>beat-\<close>, file or directory.\<close>

definition clearOldBeatFiles :: "string \<Rightarrow> unit action" where
  "clearOldBeatFiles destDir =
     bindA (readA (\<lambda>fs. Inr (pathExists fs destDir))) (\<lambda>ex.
       if \<not> ex then returnA ()
       else
         bindA (readA (\<lambda>fs. readdir fs destDir)) (\<lambda>entries.
           forEachA (\<lambda>entry.
              if \<not> startsWith entry ''beat-'' then returnA ()
              else
                bindA (readA (\<lambda>fs. stat fs (path_join [destDir, entry]))) (\<lambda>st.
                  case st of
                    File c \<Rightarrow> fs_remove (path_join [destDir, entry])
                  | Directory \<Rightarrow> fs_remove (path_join [destDir, entry]))) entries))"

text \<open>The adapters that own a \<^verbatim>\<open>beat\<close> subdirectory remove it whole: \<^verbatim>\<open>CursorSetup.cleanup\<close>,
  \<^verbatim>\<open>WindsurfSetup.cleanup\<close>, \<^verbatim>\<open>AuggieSetup.cleanup\<close>, \<^verbatim>\<open>IFlowSetup.cleanup\<close>.\<close>

definition cursor_cleanup :: "string \<Rightarrow> unit action" where
  "cursor_cleanup projectDir =
     (let beatRulesDir = path_join [projectDir, ''.cursor'', ''rules'', ''beat'']
      in bindA (readA (\<lambda>fs. Inr (pathExists fs beatRulesDir))) (\<lambda>ex.
           if ex then fs_remove beatRulesDir else returnA ()))"

definition windsurf_cleanup :: "string \<Rightarrow> unit action" where
  "windsurf_cleanup projectDir =
     (let beatPath = path_join [projectDir, ''.windsurf'', ''workflows'', ''beat'']
      in bindA (readA (\<lambda>fs. Inr (pathExists fs beatPath))) (\<lambda>ex.
           if ex then fs_remove beatPath else returnA ()))"

definition auggie_cleanup :: "string \<Rightarrow> unit action" where
  "auggie_cleanup projectDir =
     (let location = path_join [projectDir, ''.augment'', ''commands''];
          beatDir = path_join [location, ''beat'']
      in bindA (readA (\<lambda>fs. Inr (pathExists fs beatDir))) (\<lambda>ex.
           if ex then fs_remove beatDir else returnA ()))"

definition iflow_cleanup :: "string \<Rightarrow> unit action" where
  "iflow_cleanup projectDir =
     (let beatCommandsDir = path_join [projectDir, ''.iflow'', ''commands'', ''beat'']
      in bindA (readA (\<lambda>fs. Inr (pathExists fs beatCommandsDir))) (\<lambda>ex.
           if ex then fs_remove beatCommandsDir else returnA ()))"

text \<open>\<^verbatim>\<open>QwenSetup.cleanup\<close> and \<^verbatim>\<open>QwenSetup.cleanupOldConfig\<close> (qwen.js): fixed directory
  names under \<^verbatim>\<open>.qwen\<close>.\<close>

definition qwen_cleanup :: "string \<Rightarrow> unit action" where
  "qwen_cleanup projectDir =
     (let beatCommandsDir = path_join [projectDir, ''.qwen'', ''commands'', ''beat''];
          oldBeatMethodDir = path_join [projectDir, ''.qwen'', ''beat-method''];
          oldBeatDir = path_join [projectDir, ''.qwen'', ''Beat'']
      in bindA
           (bindA (readA (\<lambda>fs. Inr (pathExists fs beatCommandsDir))) (\<lambda>ex.
              if ex then fs_remove beatCommandsDir else returnA ()))
           (\<lambda>u. bindA
              (bindA (readA (\<lambda>fs. Inr (pathExists fs oldBeatMethodDir))) (\<lambda>ex.
                 if ex then fs_remove oldBeatMethodDir else returnA ()))
              (\<lambda>u. bindA (readA (\<lambda>fs. Inr (pathExists fs oldBeatDir))) (\<lambda>ex.
                 if ex then fs_remove oldBeatDir else returnA ()))))"

definition qwen_cleanupOldConfig :: "string \<Rightarrow> unit action" where
  "qwen_cleanupOldConfig qwenDir =
     (let agentsDir = path_join [qwenDir, ''agents''];
          beatMethodDir = path_join [qwenDir, ''beat-method''];
          beatDir = path_join [qwenDir, ''beatDir'']
      in bindA
           (bindA (readA (\<lambda>fs. Inr (pathExists fs agentsDir))) (\<lambda>ex.
              if ex then fs_remove agentsDir else returnA ()))
           (\<lambda>u. bindA
              (bindA (readA (\<lambda>fs. Inr (pathExists fs beatMethodDir))) (\<lambda>ex.
                 if ex then fs_remove beatMethodDir else returnA ()))
              (\<lambda>u. bindA (readA (\<lambda>fs. Inr (pathExists fs beatDir))) (\<lambda>ex.
                 if ex then fs_remove beatDir else returnA ()))))"

section \<open>Specification vocabulary\<close>

text \<open>
  \<open>scoped P m\<close>: whatever the action \<open>m\<close> returns, it adds and changes nothing on disk,
  and every path it deletes satisfies \<open>P\<close>.
\<close>

definition scoped :: "(string \<Rightarrow> bool) \<Rightarrow> 'a action \<Rightarrow> bool" where
  "scoped P m \<longleftrightarrow>
     (\<forall>w. set (disk (snd (m w))) \<subseteq> set (disk w) \<and>
          (\<forall>(q, nd) \<in> set (disk w). (q, nd) \<in> set (disk (snd (m w))) \<or> P q))"

section \<open>Rendering: titles, envelopes and destination names\<close>

text \<open>
  The regular expressions of the adapters, each modelled by the function that finds its
  leftmost match. \<^verbatim>\<open>/key\s*"([^"]+)"/\<close> matches where the key stands, followed by white
  space (only when the expression has \<^verbatim>\<open>\s*\<close>), a double quote, at least one character that
  is not a double quote, and a double quote; the greedy repetitions leave nothing to
  backtracking, since a shorter run is followed by a character of the run.
\<close>

definition isSpace :: "char \<Rightarrow> bool" where
  "isSpace c \<longleftrightarrow> c \<in> set [CHR '' '', CHR 0x09, CHR 0x0A, CHR 0x0B, CHR 0x0C, CHR 0x0D]"

definition quoted_at :: "string \<Rightarrow> string option" where
  "quoted_at s =
     (case s of
        [] \<Rightarrow> None
      | c # r \<Rightarrow>
          if c \<noteq> dquote then None
          else (let cap = takeWhile (\<lambda>x. x \<noteq> dquote) r
                in if cap \<noteq> [] \<and> drop (length cap) r \<noteq> [] then Some cap else None))"

fun match_attr :: "string \<Rightarrow> bool \<Rightarrow> string \<Rightarrow> string option" where
  "match_attr key ws [] = None"
| "match_attr key ws (c # s) =
     (if prefix key (c # s)
      then (case quoted_at ((if ws then dropWhile isSpace else id) (drop (length key) (c # s))) of
              Some cap \<Rightarrow> Some cap
            | None \<Rightarrow> match_attr key ws s)
      else match_attr key ws s)"

text \<open>
  \<^verbatim>\<open>/^---\s*\n[\s\S]*?\n---\s*\n/\<close>, the frontmatter block at the start of a text.
  \<open>ws_newline r\<close> lists what can follow a match of \<^verbatim>\<open>\s*\n\<close> at the start of \<open>r\<close>, the
  longest white space first (greedy); \<open>frontmatter_close\<close> looks for the first place
  (lazy) where \<^verbatim>\<open>\n---\s*\n\<close> matches. \<open>strip_frontmatter\<close> is
  \<^verbatim>\<open>text.replace(frontmatterRegex, '')\<close>.
\<close>

fun ws_newline :: "string \<Rightarrow> string list" where
  "ws_newline [] = []"
| "ws_newline (c # r) =
     (if isSpace c then ws_newline r else []) @ (if c = CHR 0x0A then [r] else [])"

fun frontmatter_close :: "string \<Rightarrow> string option" where
  "frontmatter_close [] = None"
| "frontmatter_close (c # s) =
     (if prefix [CHR 0x0A, CHR ''-'', CHR ''-'', CHR ''-''] (c # s)
      then (case ws_newline (drop 4 (c # s)) of
              rest # others \<Rightarrow> Some rest
            | [] \<Rightarrow> frontmatter_close s)
      else frontmatter_close s)"

definition strip_frontmatter :: "string \<Rightarrow> string" where
  "strip_frontmatter s =
     (if prefix ''---'' s
      then (case List.map_filter frontmatter_close (ws_newline (drop 3 s)) of
              rest # others \<Rightarrow> rest
            | [] \<Rightarrow> s)
      else s)"

definition trim :: "string \<Rightarrow> string" where
  "trim s = rev (dropWhile isSpace (rev (dropWhile isSpace s)))"

text \<open>\<^verbatim>\<open>toUpperCase\<close> on ASCII: a letter from a (97) to z (122) loses the bit of value 32.\<close>

definition toUpperChar :: "char \<Rightarrow> char" where
  "toUpperChar c =
     (if (97::nat) \<le> of_char c \<and> of_char c \<le> (122::nat)
      then (case c of Char b0 b1 b2 b3 b4 b5 b6 b7 \<Rightarrow> Char b0 b1 b2 b3 b4 False b6 b7)
      else c)"

definition toUpperCase :: "string \<Rightarrow> string" where
  "toUpperCase s = map toUpperChar s"

definition unlines :: "string list \<Rightarrow> string" where
  "unlines ls = concat (map (\<lambda>l. l @ [CHR 0x0A]) ls)"

text \<open>\<^verbatim>\<open>formatTitle\<close> (trae.js, and the same text in qwen.js).\<close>

definition capitalize :: "string \<Rightarrow> string" where
  "capitalize word = (case word of [] \<Rightarrow> [] | c # r \<Rightarrow> toUpperChar c # r)"

definition formatTitle :: "string \<Rightarrow> string" where
  "formatTitle name = join_with '' '' (map capitalize (split_on CHR ''-'' name))"

text \<open>An artifact of \<^verbatim>\<open>AgentCommandGenerator.collectAgentArtifacts\<close>, and the metadata
  object the adapters pass to \<^verbatim>\<open>processContent\<close>.\<close>

record artifact =
  art_type :: string
  art_module :: string
  art_name :: string
  art_relativePath :: string
  art_content :: string
  art_sourcePath :: string

record metadata =
  md_module :: string
  md_name :: string

subsection \<open>Trae (trae.js)\<close>

text \<open>The title lines of \<^verbatim>\<open>createAgentRule\<close>, \<^verbatim>\<open>createTaskRule\<close> and \<^verbatim>\<open>createToolRule\<close>.\<close>

definition trae_agentTitle :: "artifact \<Rightarrow> string" where
  "trae_agentTitle a =
     (case match_attr ''description:'' True (art_content a) of
        Some t \<Rightarrow> t
      | None \<Rightarrow> formatTitle (art_name a))"

definition trae_taskName :: "agent_info \<Rightarrow> string \<Rightarrow> string" where
  "trae_taskName task content =
     (case match_attr ''name='' False content of
        Some t \<Rightarrow> t
      | None \<Rightarrow> formatTitle (agent_name task))"

text \<open>\<^verbatim>\<open>createAgentRule\<close>; \<open>relativePath\<close> is what \<^verbatim>\<open>path.relative(projectDir, sourcePath)\<close>
  returns, with backslashes turned into slashes.\<close>

definition trae_createAgentRule :: "artifact \<Rightarrow> string \<Rightarrow> string" where
  "trae_createAgentRule a relativePath =
     unlines
       [''# '' @ trae_agentTitle a @ '' Agent Rule'',
        '''',
        ''This rule is triggered when the user types `@'' @ art_name a @
          ''` and activates the '' @ trae_agentTitle a @ '' agent persona.'',
        '''',
        ''## Agent Activation'',
        '''',
        trim (strip_frontmatter (art_content a)),
        '''',
        ''## File Reference'',
        '''',
        ''The full agent definition is located at: `'' @ relativePath @ ''`'']"

definition trae_createTaskRule :: "agent_info \<Rightarrow> string \<Rightarrow> string" where
  "trae_createTaskRule task content =
     unlines
       [''# '' @ trae_taskName task content @ '' Task Rule'',
        '''',
        ''This rule defines the '' @ trae_taskName task content @ '' task workflow.'',
        '''',
        ''## Task Definition'',
        '''',
        ''When this task is triggered, execute the following workflow:'',
        '''',
        content,
        '''',
        ''## Usage'',
        '''',
        ''Reference this task with `@task-'' @ agent_name task @ ''` to execute the defined workflow.'',
        '''',
        ''## Module'',
        '''',
        ''Part of the BEAT '' @ toUpperCase (agent_module task) @ '' module.'']"

definition trae_createToolRule :: "agent_info \<Rightarrow> string \<Rightarrow> string" where
  "trae_createToolRule tool content =
     unlines
       [''# '' @ trae_taskName tool content @ '' Tool Rule'',
        '''',
        ''This rule defines the '' @ trae_taskName tool content @ '' tool.'',
        '''',
        ''## Tool Definition'',
        '''',
        ''When this tool is triggered, execute the following:'',
        '''',
        content,
        '''',
        ''## Usage'',
        '''',
        ''Reference this tool with `@tool-'' @ agent_name tool @ ''` to execute it.'',
        '''',
        ''## Module'',
        '''',
        ''Part of the BEAT '' @ toUpperCase (agent_module tool) @ '' module.'']"

subsection \<open>Cursor (cursor.js)\<close>

text \<open>The description line of \<^verbatim>\<open>processContent\<close>, by the kind the content shows.\<close>

definition cursor_description :: "string \<Rightarrow> metadata \<Rightarrow> string" where
  "cursor_description content md =
     (if str_includes content ''<agent'' then
        ''BEAT '' @ toUpperCase (md_module md) @ '' Agent: '' @
          (case match_attr ''title='' False content of Some t \<Rightarrow> t | None \<Rightarrow> md_name md)
      else if str_includes content ''<task'' then
        ''BEAT '' @ toUpperCase (md_module md) @ '' Task: '' @
          (case match_attr ''name='' False content of Some t \<Rightarrow> t | None \<Rightarrow> md_name md)
      else if str_includes content ''<tool'' then
        ''BEAT '' @ toUpperCase (md_module md) @ '' Tool: '' @
          (case match_attr ''name='' False content of Some t \<Rightarrow> t | None \<Rightarrow> md_name md)
      else if str_includes content ''workflow:'' \<or> str_includes content ''name:'' then
        ''BEAT '' @ toUpperCase (md_module md) @ '' Workflow: '' @ md_name md
      else ''BEAT '' @ toUpperCase (md_module md) @ '': '' @ md_name md)"

text \<open>\<^verbatim>\<open>CursorSetup.processContent\<close>. The base class is not among the sources:
  \<open>baseProcess\<close> stands for \<^verbatim>\<open>super.processContent\<close>.\<close>

definition cursor_processContent :: "(string \<Rightarrow> metadata \<Rightarrow> string) \<Rightarrow> string \<Rightarrow> metadata \<Rightarrow> string" where
  "cursor_processContent baseProcess content md =
     unlines
       [''---'',
        ''description: '' @ cursor_description content md,
        ''globs: '',
        ''alwaysApply: false'',
        ''---'',
        ''''] @ strip_frontmatter (baseProcess content md)"

definition cursor_wrapLauncherWithMDC :: "string \<Rightarrow> metadata \<Rightarrow> string" where
  "cursor_wrapLauncherWithMDC launcherContent md =
     unlines
       [''---'',
        ''description: BEAT '' @ toUpperCase (md_module md) @ '' Agent: '' @
          (case match_attr ''name:'' True launcherContent of Some t \<Rightarrow> t | None \<Rightarrow> md_name md),
        ''globs:'',
        ''alwaysApply: false'',
        ''---'',
        ''''] @ strip_frontmatter launcherContent"

subsection \<open>Windsurf (windsurf.js)\<close>

definition windsurf_createWorkflowContent :: "metadata \<Rightarrow> string \<Rightarrow> string" where
  "windsurf_createWorkflowContent agent content =
     unlines
       [''---'',
        ''description: '' @ md_name agent,
        ''auto_execution_mode: 3'',
        ''---'',
        ''''] @ strip_frontmatter content"

definition windsurf_createTaskWorkflowContent :: "agent_info \<Rightarrow> string \<Rightarrow> string" where
  "windsurf_createTaskWorkflowContent task content =
     unlines
       [''---'',
        ''description: task-'' @ agent_name task,
        ''auto_execution_mode: 2'',
        ''---'',
        ''''] @ content"

definition windsurf_createToolWorkflowContent :: "agent_info \<Rightarrow> string \<Rightarrow> string" where
  "windsurf_createToolWorkflowContent tool content =
     unlines
       [''---'',
        ''description: tool-'' @ agent_name tool,
        ''auto_execution_mode: 2'',
        ''---'',
        ''''] @ content"

definition windsurf_createWorkflowWorkflowContent :: "'a agent_info_scheme \<Rightarrow> string \<Rightarrow> string" where
  "windsurf_createWorkflowWorkflowContent workflow content =
     unlines
       [''---'',
        ''description: '' @ agent_name workflow,
        ''auto_execution_mode: 1'',
        ''---'',
        ''''] @ content"

section \<open>Agent launchers (shared/agent-command-generator.js)\<close>

text \<open>\<^verbatim>\<open>s.replaceAll(pat, rep)\<close> for a string pattern that is not empty (the patterns of the
  sources are literals such as \<^verbatim>\<open>{{name}}\<close>). The matches are found in \<open>s\<close> from left to right
  without overlap, and each is replaced by the expansion of \<open>rep\<close> at that match.\<close>

function replaceAllFrom :: "string \<Rightarrow> string \<Rightarrow> string \<Rightarrow> string \<Rightarrow> string" where
  "replaceAllFrom pat rep passed [] = []"
| "replaceAllFrom pat rep passed (c # s) =
     (if pat \<noteq> [] \<and> prefix pat (c # s)
      then getSubstitution pat passed (drop (length pat) (c # s)) rep
           @ replaceAllFrom pat rep (passed @ pat) (drop (length pat) (c # s))
      else c # replaceAllFrom pat rep (passed @ [c]) s)"
  by pat_completeness auto
termination
  by (relation "measure (\<lambda>(pat, rep, passed, s). length s)") auto

definition replaceAll :: "string \<Rightarrow> string \<Rightarrow> string \<Rightarrow> string" where
  "replaceAll pat rep s = replaceAllFrom pat rep [] s"

text \<open>
  What the installers take from code that is not among the sources: the launcher template
  file and the folder name of \<^verbatim>\<open>AgentCommandGenerator\<close>, the home directory, the base
  class's \<^verbatim>\<open>processContent\<close>, \<^verbatim>\<open>formatTitle\<close>, \<^verbatim>\<open>getTasks\<close>, \<^verbatim>\<open>getTools\<close> and
  \<^verbatim>\<open>getWorkflows\<close> (their second argument is \<open>Some True\<close> for \<^verbatim>\<open>true\<close> and \<open>None\<close> when the
  call leaves it out), the workflow generator's \<^verbatim>\<open>collectWorkflowArtifacts\<close>, the three
  methods of \<^verbatim>\<open>TaskToolCommandGenerator\<close> that OpenCode calls, and Node's \<^verbatim>\<open>path.relative\<close>
  and \<^verbatim>\<open>path.basename\<close>. A workflow item carries a description, which may be missing; the
  \<^verbatim>\<open>standalone\<close> field of a manifest entry is compared with the string \<^verbatim>\<open>'true'\<close> and with
  the boolean \<^verbatim>\<open>true\<close>.
\<close>

record export_artifact =
  ex_type :: string
  ex_module :: string
  ex_sourcePath :: string
  ex_relativePath :: string
  ex_content :: string

record workflow_info = agent_info +
  wf_description :: "string option"

datatype manifest_flag = FlagString string | FlagBool bool | FlagOther

record manifest_item =
  mi_module :: string
  mi_name :: string
  mi_standalone :: manifest_flag

record env =
  templatePath :: string
  beatFolderName :: string
  homedir :: string
  baseProcessContent :: "string \<Rightarrow> metadata \<Rightarrow> string option \<Rightarrow> string"
  baseFormatTitle :: "string \<Rightarrow> string"
  collectWorkflowArtifacts :: "filesystem \<Rightarrow> string \<Rightarrow> fs_error + export_artifact list \<times> nat \<times> nat"
  getTasks :: "filesystem \<Rightarrow> string \<Rightarrow> bool option \<Rightarrow> fs_error + agent_info list"
  getTools :: "filesystem \<Rightarrow> string \<Rightarrow> bool option \<Rightarrow> fs_error + agent_info list"
  getWorkflows :: "filesystem \<Rightarrow> string \<Rightarrow> bool option \<Rightarrow> fs_error + workflow_info list"
  loadTaskManifest :: "filesystem \<Rightarrow> string \<Rightarrow> fs_error + manifest_item list option"
  loadToolManifest :: "filesystem \<Rightarrow> string \<Rightarrow> fs_error + manifest_item list option"
  generateCommandContent :: "manifest_item \<Rightarrow> string \<Rightarrow> string"
  path_relative :: "string \<Rightarrow> string \<Rightarrow> string"
  path_basename :: "string \<Rightarrow> string \<Rightarrow> string"

text \<open>\<^verbatim>\<open>generateLauncherContent\<close>: the agents of \<^verbatim>\<open>getAgentsFromBeat\<close> carry no description,
  so the description is always \<^verbatim>\<open>`${agent.name} agent`\<close>.\<close>

definition generateLauncherContent :: "env \<Rightarrow> filesystem \<Rightarrow> agent_info \<Rightarrow> fs_error + string" where
  "generateLauncherContent e fs agent =
     bindE (readFile fs (templatePath e)) (\<lambda>template.
       Inr (replaceAll ''{beat_folder}'' (beatFolderName e)
             (replaceAll ''{{description}}'' (agent_name agent @ '' agent'')
               (replaceAll ''{{module}}'' (agent_module agent)
                 (replaceAll ''{{name}}'' (agent_name agent) template)))))"

fun launchAll :: "env \<Rightarrow> filesystem \<Rightarrow> agent_info list \<Rightarrow> fs_error + artifact list" where
  "launchAll e fs [] = Inr []"
| "launchAll e fs (agent # agents) =
     (case generateLauncherContent e fs agent of
        Inl err \<Rightarrow> Inl err
      | Inr launcherContent \<Rightarrow>
          (case launchAll e fs agents of
             Inl err \<Rightarrow> Inl err
           | Inr rest \<Rightarrow>
               Inr (\<lparr>art_type = ''agent-launcher'',
                     art_module = agent_module agent,
                     art_name = agent_name agent,
                     art_relativePath = path_join [agent_module agent, ''agents'', agent_name agent @ ''.md''],
                     art_content = launcherContent,
                     art_sourcePath = agent_path agent\<rparr> # rest)))"

definition collectAgentArtifacts :: "env \<Rightarrow> filesystem \<Rightarrow> string \<Rightarrow> string list \<Rightarrow> fs_error + artifact list" where
  "collectAgentArtifacts e fs beatDir selectedModules =
     bindE (getAgentsFromBeat fs beatDir selectedModules) (launchAll e fs)"

text \<open>A collection as an action: it reads, and when it has returned the world notes it.\<close>

definition collectA :: "string \<Rightarrow> (filesystem \<Rightarrow> fs_error + 'a) \<Rightarrow> 'a action" where
  "collectA label r = (\<lambda>w.
     case r (disk w) of
       Inl err \<Rightarrow> (Inl err, w)
     | Inr x \<Rightarrow> (Inr x, w\<lparr>events := events w @ [Collected label]\<rparr>))"

section \<open>Codex and Cline: flat export (codex.js, cline.js)\<close>

text \<open>\<^verbatim>\<open>collectClaudeArtifacts\<close> of Codex; \<^verbatim>\<open>collectClineArtifacts\<close> of Cline has the same body.\<close>

fun processTasks :: "env \<Rightarrow> filesystem \<Rightarrow> string \<Rightarrow> agent_info list \<Rightarrow> fs_error + export_artifact list" where
  "processTasks e fs projectDir [] = Inr []"
| "processTasks e fs projectDir (task # tasks) =
     (case readFile fs (agent_path task) of
        Inl err \<Rightarrow> Inl err
      | Inr content \<Rightarrow>
          (case processTasks e fs projectDir tasks of
             Inl err \<Rightarrow> Inl err
           | Inr rest \<Rightarrow>
               Inr (\<lparr>ex_type = ''task'',
                     ex_module = agent_module task,
                     ex_sourcePath = agent_path task,
                     ex_relativePath = path_join [agent_module task, ''tasks'', agent_name task @ ''.md''],
                     ex_content = baseProcessContent e content
                        \<lparr>md_module = agent_module task, md_name = agent_name task\<rparr> (Some projectDir)\<rparr>
                    # rest)))"

record export_counts =
  count_agents :: nat
  count_tasks :: nat
  count_workflows :: nat
  count_workflowLaunchers :: nat

definition collectClaudeArtifacts ::
  "env \<Rightarrow> filesystem \<Rightarrow> string \<Rightarrow> string \<Rightarrow> string list \<Rightarrow> fs_error + export_artifact list \<times> export_counts" where
  "collectClaudeArtifacts e fs projectDir beatDir selectedModules =
     bindE (collectAgentArtifacts e fs beatDir selectedModules) (\<lambda>agentArtifacts.
     bindE (getTasksFromBeat fs beatDir selectedModules) (\<lambda>tasks.
     bindE (processTasks e fs projectDir tasks) (\<lambda>taskArtifacts.
     bindE (collectWorkflowArtifacts e fs beatDir) (\<lambda>(workflowArtifacts, commands, launchers).
       Inr (map (\<lambda>a. \<lparr>ex_type = ''agent'', ex_module = art_module a,
                       ex_sourcePath = art_sourcePath a,
                       ex_relativePath = art_relativePath a,
                       ex_content = art_content a\<rparr>) agentArtifacts
              @ taskArtifacts @ workflowArtifacts,
            \<lparr>count_agents = length agentArtifacts, count_tasks = length tasks,
             count_workflows = commands, count_workflowLaunchers = launchers\<rparr>)))))"

text \<open>\<^verbatim>\<open>flattenFilename\<close>: slashes and backslashes become hyphens, \<^verbatim>\<open>beat-\<close> goes in front.\<close>

definition flattenFilename :: "string \<Rightarrow> string" where
  "flattenFilename relativePath =
     ''beat-'' @ map (\<lambda>c. if c = CHR ''/'' \<or> c = CHR 0x5C then CHR ''-'' else c) relativePath"

fun flattenAndWriteArtifacts :: "export_artifact list \<Rightarrow> string \<Rightarrow> nat action" where
  "flattenAndWriteArtifacts [] destDir = returnA 0"
| "flattenAndWriteArtifacts (a # artifacts) destDir =
     bindA (fs_writeFile (path_join [destDir, flattenFilename (ex_relativePath a)]) (ex_content a))
       (\<lambda>u. bindA (flattenAndWriteArtifacts artifacts destDir) (\<lambda>written. returnA (Suc written)))"

definition getCodexPromptDir :: "env \<Rightarrow> string" where
  "getCodexPromptDir e = path_join [homedir e, ''.codex'', ''prompts'']"

text \<open>\<^verbatim>\<open>CodexSetup.setup\<close>: collect, make the directory, clear, write. The result is the
  number of files written.\<close>

definition codex_setup :: "env \<Rightarrow> string \<Rightarrow> string \<Rightarrow> string list \<Rightarrow> nat action" where
  "codex_setup e projectDir beatDir selectedModules =
     bindA (collectA ''artifacts''
              (\<lambda>fs. collectClaudeArtifacts e fs projectDir beatDir selectedModules))
       (\<lambda>(artifacts, counts).
     bindA (fs_ensureDir (getCodexPromptDir e)) (\<lambda>u.
     bindA (clearOldBeatFiles (getCodexPromptDir e)) (\<lambda>u.
       flattenAndWriteArtifacts artifacts (getCodexPromptDir e))))"

text \<open>\<^verbatim>\<open>ClineSetup.setup\<close>: make the directory, clear, collect, write.\<close>

definition cline_setup :: "env \<Rightarrow> string \<Rightarrow> string \<Rightarrow> string list \<Rightarrow> nat action" where
  "cline_setup e projectDir beatDir selectedModules =
     (let workflowsDir = path_join [path_join [projectDir, ''.clinerules''], ''workflows'']
      in bindA (fs_ensureDir workflowsDir) (\<lambda>u.
         bindA (clearOldBeatFiles workflowsDir) (\<lambda>u.
         bindA (collectA ''artifacts''
                  (\<lambda>fs. collectClaudeArtifacts e fs projectDir beatDir selectedModules))
           (\<lambda>(artifacts, counts).
             flattenAndWriteArtifacts artifacts workflowsDir))))"

section \<open>The install sequences of the project adapters\<close>

text \<open>
  Modelled from the spec: \<^verbatim>\<open>BaseIdeSetup\<close> is not among the sources. Its \<^verbatim>\<open>ensureDir\<close> is
  taken to be \<^verbatim>\<open>fs.ensureDir\<close> (as Cline's own copy of it is), its \<^verbatim>\<open>readFile\<close> to be
  \<^verbatim>\<open>fs.readFile\<close>, and its \<^verbatim>\<open>writeFile\<close> to be the spec's "separate, trivial file-write
  step common to all targets": it makes the parent directory and writes the file.
\<close>

definition base_writeFile :: "string \<Rightarrow> string \<Rightarrow> unit action" where
  "base_writeFile p content = bindA (fs_ensureDir (parent_of p)) (\<lambda>u. fs_writeFile p content)"

text \<open>The elements of a JavaScript \<^verbatim>\<open>Set\<close> in the order they were first added.\<close>

definition insertionOrder :: "'a list \<Rightarrow> 'a list" where
  "insertionOrder xs = rev (remdups (rev xs))"

subsection \<open>Cursor (cursor.js)\<close>

text \<open>Destination paths: nested under Cursor, flat under Trae.\<close>

definition cursor_targetPath :: "string \<Rightarrow> string \<Rightarrow> string \<Rightarrow> string \<Rightarrow> string" where
  "cursor_targetPath beatRulesDir kindDir m n = path_join [beatRulesDir, m, kindDir, n @ ''.mdc'']"

definition trae_targetPath :: "string \<Rightarrow> string \<Rightarrow> string \<Rightarrow> string \<Rightarrow> string" where
  "trae_targetPath rulesDir kind m n = path_join [rulesDir, ''beat-'' @ kind @ ''-'' @ m @ ''-'' @ n @ ''.md'']"

text \<open>\<^verbatim>\<open>createBEATIndex\<close>: one section of the index, for the items of one kind in one module.\<close>

definition indexSection :: "string \<Rightarrow> string \<Rightarrow> string \<Rightarrow> (string \<times> string) list \<Rightarrow> string" where
  "indexSection heading kindDir m items =
     (let mine = filter (\<lambda>(im, iname). im = m) items
      in if mine = [] then []
         else unlines ([heading] @
                map (\<lambda>(im, iname). ''- @beat/'' @ m @ ''/'' @ kindDir @ ''/'' @ iname @ '' - '' @ iname) mine @
                ['''']))"

definition beatIndexContent ::
  "(string \<times> string) list \<Rightarrow> (string \<times> string) list \<Rightarrow> (string \<times> string) list \<Rightarrow>
   (string \<times> string) list \<Rightarrow> string list \<Rightarrow> string" where
  "beatIndexContent agents tasks tools workflows modules =
     unlines
       [''---'',
        ''description: BEAT Method - Master Index'',
        ''globs:'',
        ''alwaysApply: true'',
        ''---'',
        '''',
        ''# BEAT Method - Cursor Rules Index'',
        '''',
        ''This is the master index for all BEAT agents, tasks, tools, and workflows available in your project.'',
        '''',
        ''## Installation Complete!'',
        '''',
        ''BEAT rules have been installed to: `.cursor/rules/beat/`'',
        '''',
        ''**Note:** BEAT does not modify your `.cursorrules` file. You manage that separately.'',
        '''',
        ''## How to Use'',
        '''',
        ''- Reference specific agents: @beat/{module}/agents/{agent-name}'',
        ''- Reference specific tasks: @beat/{module}/tasks/{task-name}'',
        ''- Reference specific tools: @beat/{module}/tools/{tool-name}'',
        ''- Reference specific workflows: @beat/{module}/workflows/{workflow-name}'',
        ''- Reference entire modules: @beat/{module}'',
        ''- Reference this index: @beat/index'',
        '''',
        ''## Available Modules'',
        '''']
     @ concat (map (\<lambda>m.
          unlines [''### '' @ toUpperCase m, '''']
          @ indexSection ''**Agents:**'' ''agents'' m agents
          @ indexSection ''**Tasks:**'' ''tasks'' m tasks
          @ indexSection ''**Tools:**'' ''tools'' m tools
          @ indexSection ''**Workflows:**'' ''workflows'' m workflows) modules)
     @ unlines
       ['''',
        ''## Quick Reference'',
        '''',
        ''- All BEAT rules are Manual type - reference them explicitly when needed'',
        ''- Agents provide persona-based assistance with specific expertise'',
        ''- Tasks are reusable workflows for common operations'',
        ''- Tools provide specialized functionality'',
        ''- Workflows orchestrate multi-step processes'',
        ''- Each agent includes an activation block for proper initialization'',
        '''',
        ''## Configuration'',
        '''',
        ''BEAT rules are configured as Manual rules (alwaysApply: false) to give you control'',
        ''over when they'' @ [CHR 0x27] @ ''re included in your context. Reference them explicitly when you need'',
        ''specific agent expertise, task workflows, tools, or guided workflows.'']"

text \<open>\<^verbatim>\<open>readAndProcess\<close> of Cursor, for the tasks, tools and workflows.\<close>

definition cursor_writeProcessed :: "env \<Rightarrow> string \<Rightarrow> string \<Rightarrow> 'a agent_info_scheme \<Rightarrow> unit action" where
  "cursor_writeProcessed e beatRulesDir kindDir item =
     bindA (readA (\<lambda>fs. readFile fs (agent_path item))) (\<lambda>content.
       base_writeFile (cursor_targetPath beatRulesDir kindDir (agent_module item) (agent_name item))
         (cursor_processContent (\<lambda>c md. baseProcessContent e c md None) content
            \<lparr>md_module = agent_module item, md_name = agent_name item\<rparr>))"

text \<open>The part of \<^verbatim>\<open>CursorSetup.setup\<close> that follows the collections: the directories of the
  modules, the four loops that render and write, and the index.\<close>

definition cursor_writeRules ::
  "env \<Rightarrow> string \<Rightarrow> artifact list \<Rightarrow> agent_info list \<Rightarrow> agent_info list \<Rightarrow> workflow_info list \<Rightarrow>
   unit action" where
  "cursor_writeRules e beatRulesDir agentArtifacts tasks tools workflows =
     (let agents = map (\<lambda>a. (art_module a, art_name a)) agentArtifacts;
          taskNames = map (\<lambda>i. (agent_module i, agent_name i)) tasks;
          toolNames = map (\<lambda>i. (agent_module i, agent_name i)) tools;
          workflowNames = map (\<lambda>i. (agent_module i, agent_name i)) workflows;
          modules = insertionOrder (map fst (agents @ taskNames @ toolNames @ workflowNames))
      in bindA (forEachA (\<lambda>m.
                  bindA (fs_ensureDir (path_join [beatRulesDir, m])) (\<lambda>u.
                  bindA (fs_ensureDir (path_join [beatRulesDir, m, ''agents''])) (\<lambda>u.
                  bindA (fs_ensureDir (path_join [beatRulesDir, m, ''tasks''])) (\<lambda>u.
                  bindA (fs_ensureDir (path_join [beatRulesDir, m, ''tools''])) (\<lambda>u.
                    fs_ensureDir (path_join [beatRulesDir, m, ''workflows'']))))))
                modules) (\<lambda>u.
         bindA (forEachA (\<lambda>a.
                  base_writeFile (cursor_targetPath beatRulesDir ''agents'' (art_module a) (art_name a))
                    (cursor_wrapLauncherWithMDC (art_content a)
                       \<lparr>md_module = art_module a, md_name = art_name a\<rparr>))
                agentArtifacts) (\<lambda>u.
         bindA (forEachA (cursor_writeProcessed e beatRulesDir ''tasks'') tasks) (\<lambda>u.
         bindA (forEachA (cursor_writeProcessed e beatRulesDir ''tools'') tools) (\<lambda>u.
         bindA (forEachA (cursor_writeProcessed e beatRulesDir ''workflows'') workflows) (\<lambda>u.
           base_writeFile (path_join [beatRulesDir, ''index.mdc''])
             (beatIndexContent agents taskNames toolNames workflowNames modules)))))))"

text \<open>\<^verbatim>\<open>CursorSetup.setup\<close>: clean up, make the directory, collect, render and write.\<close>

definition cursor_setup :: "env \<Rightarrow> string \<Rightarrow> string \<Rightarrow> string list \<Rightarrow> unit action" where
  "cursor_setup e projectDir beatDir selectedModules =
     (let beatRulesDir = path_join [path_join [path_join [projectDir, ''.cursor''], ''rules''], ''beat'']
      in bindA (cursor_cleanup projectDir) (\<lambda>u.
         bindA (fs_ensureDir beatRulesDir) (\<lambda>u.
         bindA (collectA ''agents'' (\<lambda>fs. collectAgentArtifacts e fs beatDir selectedModules))
           (\<lambda>agentArtifacts.
         bindA (collectA ''tasks'' (\<lambda>fs. getTasks e fs beatDir (Some True))) (\<lambda>tasks.
         bindA (collectA ''tools'' (\<lambda>fs. getTools e fs beatDir (Some True))) (\<lambda>tools.
         bindA (collectA ''workflows'' (\<lambda>fs. getWorkflows e fs beatDir (Some True))) (\<lambda>workflows.
           cursor_writeRules e beatRulesDir agentArtifacts tasks tools workflows)))))))"

subsection \<open>Trae (trae.js)\<close>

text \<open>\<^verbatim>\<open>x || fallback\<close> for a string that may be missing: the empty string is falsy too.\<close>

definition orElse :: "string option \<Rightarrow> string \<Rightarrow> string" where
  "orElse x fallback = (case x of None \<Rightarrow> fallback | Some s \<Rightarrow> if s = [] then fallback else s)"

definition trae_createWorkflowRule :: "workflow_info \<Rightarrow> string \<Rightarrow> string" where
  "trae_createWorkflowRule workflow content =
     unlines
       [''# '' @ agent_name workflow @ '' Workflow Rule'',
        '''',
        ''This rule defines the '' @ agent_name workflow @ '' workflow.'',
        '''',
        ''## Workflow Description'',
        '''',
        orElse (wf_description workflow) ''No description provided'',
        '''',
        ''## Workflow Definition'',
        '''',
        content,
        '''',
        ''## Usage'',
        '''',
        ''Reference this workflow with `@workflow-'' @ agent_name workflow @ ''` to execute the guided workflow.'',
        '''',
        ''## Module'',
        '''',
        ''Part of the BEAT '' @ toUpperCase (agent_module workflow) @ '' module.'']"

text \<open>The four loops of \<^verbatim>\<open>TraeSetup.setup\<close>: agents, tasks, tools, workflows.\<close>

definition trae_writeRules ::
  "env \<Rightarrow> string \<Rightarrow> string \<Rightarrow> artifact list \<Rightarrow> agent_info list \<Rightarrow> agent_info list \<Rightarrow>
   workflow_info list \<Rightarrow> unit action" where
  "trae_writeRules e projectDir rulesDir agentArtifacts tasks tools workflows =
     bindA (forEachA (\<lambda>a.
              base_writeFile (trae_targetPath rulesDir ''agent'' (art_module a) (art_name a))
                (trae_createAgentRule a
                   (replaceAll [CHR 0x5C] ''/'' (path_relative e projectDir (art_sourcePath a)))))
            agentArtifacts) (\<lambda>u.
     bindA (forEachA (\<lambda>task.
              bindA (readA (\<lambda>fs. readFile fs (agent_path task))) (\<lambda>content.
                base_writeFile (trae_targetPath rulesDir ''task'' (agent_module task) (agent_name task))
                  (trae_createTaskRule task content)))
            tasks) (\<lambda>u.
     bindA (forEachA (\<lambda>tool.
              bindA (readA (\<lambda>fs. readFile fs (agent_path tool))) (\<lambda>content.
                base_writeFile (trae_targetPath rulesDir ''tool'' (agent_module tool) (agent_name tool))
                  (trae_createToolRule tool content)))
            tools) (\<lambda>u.
     forEachA (\<lambda>workflow.
        bindA (readA (\<lambda>fs. readFile fs (agent_path workflow))) (\<lambda>content.
          base_writeFile
            (trae_targetPath rulesDir ''workflow'' (agent_module workflow) (agent_name workflow))
            (trae_createWorkflowRule workflow content)))
      workflows)))"

text \<open>\<^verbatim>\<open>TraeSetup.setup\<close>: make the directory, clean up, collect, render and write.\<close>

definition trae_setup :: "env \<Rightarrow> string \<Rightarrow> string \<Rightarrow> string list \<Rightarrow> unit action" where
  "trae_setup e projectDir beatDir selectedModules =
     (let rulesDir = path_join [path_join [projectDir, ''.trae''], ''rules'']
      in bindA (fs_ensureDir rulesDir) (\<lambda>u.
         bindA (trae_cleanup projectDir) (\<lambda>u.
         bindA (collectA ''agents'' (\<lambda>fs. collectAgentArtifacts e fs beatDir selectedModules))
           (\<lambda>agentArtifacts.
         bindA (collectA ''tasks'' (\<lambda>fs. getTasks e fs beatDir (Some True))) (\<lambda>tasks.
         bindA (collectA ''tools'' (\<lambda>fs. getTools e fs beatDir (Some True))) (\<lambda>tools.
         bindA (collectA ''workflows'' (\<lambda>fs. getWorkflows e fs beatDir (Some True))) (\<lambda>workflows.
           trae_writeRules e projectDir rulesDir agentArtifacts tasks tools workflows)))))))"

subsection \<open>OpenCode (the second class of trae.js)\<close>

text \<open>
  \<^verbatim>\<open>OpenCodeSetup.setup\<close> writes the launchers as they are, then the workflow commands, then
  the commands of the standalone tasks and tools. Its \<^verbatim>\<open>createAgentContent\<close>,
  \<^verbatim>\<open>parseFrontmatter\<close> and \<^verbatim>\<open>stringifyFrontmatter\<close> are called by no install sequence.
\<close>

definition opencode_writeAgents :: "string \<Rightarrow> artifact list \<Rightarrow> unit action" where
  "opencode_writeAgents agentsBaseDir agentArtifacts =
     forEachA (\<lambda>a.
        base_writeFile
          (path_join [agentsBaseDir, ''beat-agent-'' @ art_module a @ ''-'' @ art_name a @ ''.md''])
          (art_content a))
      agentArtifacts"

definition opencode_writeWorkflows :: "env \<Rightarrow> string \<Rightarrow> export_artifact list \<Rightarrow> unit action" where
  "opencode_writeWorkflows e commandsBaseDir workflowArtifacts =
     forEachA (\<lambda>a.
        if ex_type a = ''workflow-command''
        then base_writeFile
               (path_join [commandsBaseDir,
                  ''beat-workflow-'' @ ex_module a @ ''-'' @
                    path_basename e (ex_relativePath a) ''.md'' @ ''.md''])
               (ex_content a)
        else returnA ())
      workflowArtifacts"

definition isStandalone :: "manifest_item \<Rightarrow> bool" where
  "isStandalone t \<longleftrightarrow> mi_standalone t = FlagString ''true'' \<or> mi_standalone t = FlagBool True"

text \<open>The two loops of \<^verbatim>\<open>generateFlatTaskToolCommands\<close>.\<close>

definition opencode_writeTaskTools ::
  "env \<Rightarrow> string \<Rightarrow> manifest_item list \<Rightarrow> manifest_item list \<Rightarrow> unit action" where
  "opencode_writeTaskTools e commandsBaseDir standaloneTasks standaloneTools =
     bindA (forEachA (\<lambda>task.
              base_writeFile
                (path_join [commandsBaseDir, ''beat-task-'' @ mi_module task @ ''-'' @ mi_name task @ ''.md''])
                (generateCommandContent e task ''task''))
            standaloneTasks) (\<lambda>u.
     forEachA (\<lambda>tool.
        base_writeFile
          (path_join [commandsBaseDir, ''beat-tool-'' @ mi_module tool @ ''-'' @ mi_name tool @ ''.md''])
          (generateCommandContent e tool ''tool''))
      standaloneTools)"

definition opencode_generateFlatTaskToolCommands :: "env \<Rightarrow> string \<Rightarrow> string \<Rightarrow> (nat \<times> nat) action" where
  "opencode_generateFlatTaskToolCommands e beatDir commandsBaseDir =
     bindA (collectA ''task manifest'' (\<lambda>fs. loadTaskManifest e fs beatDir)) (\<lambda>tasks.
     bindA (collectA ''tool manifest'' (\<lambda>fs. loadToolManifest e fs beatDir)) (\<lambda>tools.
       (let standaloneTasks = (case tasks of None \<Rightarrow> [] | Some ts \<Rightarrow> filter isStandalone ts);
            standaloneTools = (case tools of None \<Rightarrow> [] | Some ts \<Rightarrow> filter isStandalone ts)
        in bindA (opencode_writeTaskTools e commandsBaseDir standaloneTasks standaloneTools) (\<lambda>u.
             returnA (length standaloneTasks, length standaloneTools)))))"

definition opencode_setup :: "env \<Rightarrow> string \<Rightarrow> string \<Rightarrow> string list \<Rightarrow> unit action" where
  "opencode_setup e projectDir beatDir selectedModules =
     (let baseDir = path_join [projectDir, ''.opencode''];
          commandsBaseDir = path_join [baseDir, ''command''];
          agentsBaseDir = path_join [baseDir, ''agent'']
      in bindA (fs_ensureDir commandsBaseDir) (\<lambda>u.
         bindA (fs_ensureDir agentsBaseDir) (\<lambda>u.
         bindA (opencode_cleanup projectDir) (\<lambda>u.
         bindA (collectA ''agents'' (\<lambda>fs. collectAgentArtifacts e fs beatDir selectedModules))
           (\<lambda>agentArtifacts.
         bindA (opencode_writeAgents agentsBaseDir agentArtifacts) (\<lambda>u.
         bindA (collectA ''workflows'' (\<lambda>fs. collectWorkflowArtifacts e fs beatDir))
           (\<lambda>(workflowArtifacts, commands, launchers).
         bindA (opencode_writeWorkflows e commandsBaseDir workflowArtifacts) (\<lambda>u.
         bindA (opencode_generateFlatTaskToolCommands e beatDir commandsBaseDir) (\<lambda>counts.
           returnA ())))))))))"

subsection \<open>Windsurf (windsurf.js)\<close>

text \<open>The part of \<^verbatim>\<open>WindsurfSetup.setup\<close> that follows the collections.\<close>

definition windsurf_writeWorkflows ::
  "string \<Rightarrow> artifact list \<Rightarrow> agent_info list \<Rightarrow> agent_info list \<Rightarrow> workflow_info list \<Rightarrow>
   unit action" where
  "windsurf_writeWorkflows beatWorkflowsDir agentArtifacts tasks tools workflows =
     (let modules = insertionOrder
            (map art_module agentArtifacts @ map agent_module tasks @ map agent_module tools @
             map agent_module workflows)
      in bindA (forEachA (\<lambda>m.
                  bindA (fs_ensureDir (path_join [beatWorkflowsDir, m])) (\<lambda>u.
                  bindA (fs_ensureDir (path_join [beatWorkflowsDir, m, ''agents''])) (\<lambda>u.
                  bindA (fs_ensureDir (path_join [beatWorkflowsDir, m, ''tasks''])) (\<lambda>u.
                  bindA (fs_ensureDir (path_join [beatWorkflowsDir, m, ''tools''])) (\<lambda>u.
                    fs_ensureDir (path_join [beatWorkflowsDir, m, ''workflows'']))))))
                modules) (\<lambda>u.
         bindA (forEachA (\<lambda>a.
                  base_writeFile
                    (path_join [beatWorkflowsDir, art_module a, ''agents'', art_name a @ ''.md''])
                    (windsurf_createWorkflowContent
                       \<lparr>md_module = art_module a, md_name = art_name a\<rparr> (art_content a)))
                agentArtifacts) (\<lambda>u.
         bindA (forEachA (\<lambda>task.
                  bindA (readA (\<lambda>fs. readFile fs (agent_path task))) (\<lambda>content.
                    base_writeFile
                      (path_join [beatWorkflowsDir, agent_module task, ''tasks'', agent_name task @ ''.md''])
                      (windsurf_createTaskWorkflowContent task content)))
                tasks) (\<lambda>u.
         bindA (forEachA (\<lambda>tool.
                  bindA (readA (\<lambda>fs. readFile fs (agent_path tool))) (\<lambda>content.
                    base_writeFile
                      (path_join [beatWorkflowsDir, agent_module tool, ''tools'', agent_name tool @ ''.md''])
                      (windsurf_createToolWorkflowContent tool content)))
                tools) (\<lambda>u.
         forEachA (\<lambda>workflow.
            bindA (readA (\<lambda>fs. readFile fs (agent_path workflow))) (\<lambda>content.
              base_writeFile
                (path_join [beatWorkflowsDir, agent_module workflow, ''workflows'',
                            agent_name workflow @ ''.md''])
                (windsurf_createWorkflowWorkflowContent workflow content)))
          workflows)))))"

text \<open>\<^verbatim>\<open>WindsurfSetup.setup\<close>: make the directory, clean up (which removes it again), collect,
  render and write.\<close>

definition windsurf_setup :: "env \<Rightarrow> string \<Rightarrow> string \<Rightarrow> string list \<Rightarrow> unit action" where
  "windsurf_setup e projectDir beatDir selectedModules =
     (let beatWorkflowsDir =
            path_join [path_join [path_join [projectDir, ''.windsurf''], ''workflows''], ''beat'']
      in bindA (fs_ensureDir beatWorkflowsDir) (\<lambda>u.
         bindA (windsurf_cleanup projectDir) (\<lambda>u.
         bindA (collectA ''agents'' (\<lambda>fs. collectAgentArtifacts e fs beatDir selectedModules))
           (\<lambda>agentArtifacts.
         bindA (collectA ''tasks'' (\<lambda>fs. getTasks e fs beatDir (Some True))) (\<lambda>tasks.
         bindA (collectA ''tools'' (\<lambda>fs. getTools e fs beatDir (Some True))) (\<lambda>tools.
         bindA (collectA ''workflows'' (\<lambda>fs. getWorkflows e fs beatDir (Some True))) (\<lambda>workflows.
           windsurf_writeWorkflows beatWorkflowsDir agentArtifacts tasks tools workflows)))))))"

subsection \<open>Auggie (auggie.js)\<close>

text \<open>Auggie has no \<^verbatim>\<open>formatTitle\<close> of its own: \<^verbatim>\<open>this.formatTitle\<close> is the base class's.\<close>

definition auggie_createTaskCommand :: "env \<Rightarrow> agent_info \<Rightarrow> string \<Rightarrow> string" where
  "auggie_createTaskCommand e task content =
     (let taskName = (case match_attr ''name='' False content of
                        Some t \<Rightarrow> t
                      | None \<Rightarrow> baseFormatTitle e (agent_name task))
      in unlines
           [''---'',
            ''description: '' @ [dquote] @ ''Execute the '' @ taskName @ '' task'' @ [dquote],
            ''---'',
            '''',
            ''# '' @ taskName @ '' Task'',
            '''',
            content,
            '''',
            ''## Module'',
            ''BEAT '' @ toUpperCase (agent_module task) @ '' module''])"

definition auggie_createToolCommand :: "env \<Rightarrow> agent_info \<Rightarrow> string \<Rightarrow> string" where
  "auggie_createToolCommand e tool content =
     (let toolName = (case match_attr ''name='' False content of
                        Some t \<Rightarrow> t
                      | None \<Rightarrow> baseFormatTitle e (agent_name tool))
      in unlines
           [''---'',
            ''description: '' @ [dquote] @ ''Use the '' @ toolName @ '' tool'' @ [dquote],
            ''---'',
            '''',
            ''# '' @ toolName @ '' Tool'',
            '''',
            content,
            '''',
            ''## Module'',
            ''BEAT '' @ toUpperCase (agent_module tool) @ '' module''])"

definition auggie_createWorkflowCommand :: "workflow_info \<Rightarrow> string \<Rightarrow> string" where
  "auggie_createWorkflowCommand workflow content =
     unlines
       [''---'',
        ''description: '' @ [dquote] @
          orElse (wf_description workflow) (''Execute the '' @ agent_name workflow @ '' workflow'') @
          [dquote],
        ''---'',
        '''',
        ''# '' @ agent_name workflow @ '' Workflow'',
        '''',
        content,
        '''',
        ''## Module'',
        ''BEAT '' @ toUpperCase (agent_module workflow) @ '' module'']"

text \<open>The part of \<^verbatim>\<open>AuggieSetup.setup\<close> that follows the collections: the four directories
  and the four loops.\<close>

definition auggie_writeCommands ::
  "env \<Rightarrow> string \<Rightarrow> artifact list \<Rightarrow> agent_info list \<Rightarrow> agent_info list \<Rightarrow> workflow_info list \<Rightarrow>
   unit action" where
  "auggie_writeCommands e beatCommandsDir agentArtifacts tasks tools workflows =
     (let agentsDir = path_join [beatCommandsDir, ''agents''];
          tasksDir = path_join [beatCommandsDir, ''tasks''];
          toolsDir = path_join [beatCommandsDir, ''tools''];
          workflowsDir = path_join [beatCommandsDir, ''workflows'']
      in bindA (fs_ensureDir agentsDir) (\<lambda>u.
         bindA (fs_ensureDir tasksDir) (\<lambda>u.
         bindA (fs_ensureDir toolsDir) (\<lambda>u.
         bindA (fs_ensureDir workflowsDir) (\<lambda>u.
         bindA (forEachA (\<lambda>a.
                  base_writeFile (path_join [agentsDir, art_module a @ ''-'' @ art_name a @ ''.md''])
                    (art_content a))
                agentArtifacts) (\<lambda>u.
         bindA (forEachA (\<lambda>task.
                  bindA (readA (\<lambda>fs. readFile fs (agent_path task))) (\<lambda>content.
                    base_writeFile
                      (path_join [tasksDir, agent_module task @ ''-'' @ agent_name task @ ''.md''])
                      (auggie_createTaskCommand e task content)))
                tasks) (\<lambda>u.
         bindA (forEachA (\<lambda>tool.
                  bindA (readA (\<lambda>fs. readFile fs (agent_path tool))) (\<lambda>content.
                    base_writeFile
                      (path_join [toolsDir, agent_module tool @ ''-'' @ agent_name tool @ ''.md''])
                      (auggie_createToolCommand e tool content)))
                tools) (\<lambda>u.
         forEachA (\<lambda>workflow.
            bindA (readA (\<lambda>fs. readFile fs (agent_path workflow))) (\<lambda>content.
              base_writeFile
                (path_join [workflowsDir, agent_module workflow @ ''-'' @ agent_name workflow @ ''.md''])
                (auggie_createWorkflowCommand workflow content)))
          workflows))))))))"

text \<open>\<^verbatim>\<open>AuggieSetup.setup\<close>: clean up, collect, render and write.\<close>

definition auggie_setup :: "env \<Rightarrow> string \<Rightarrow> string \<Rightarrow> string list \<Rightarrow> unit action" where
  "auggie_setup e projectDir beatDir selectedModules =
     (let location = path_join [projectDir, ''.augment'', ''commands'']
      in bindA (auggie_cleanup projectDir) (\<lambda>u.
         bindA (collectA ''agents'' (\<lambda>fs. collectAgentArtifacts e fs beatDir selectedModules))
           (\<lambda>agentArtifacts.
         bindA (collectA ''tasks'' (\<lambda>fs. getTasks e fs beatDir (Some True))) (\<lambda>tasks.
         bindA (collectA ''tools'' (\<lambda>fs. getTools e fs beatDir (Some True))) (\<lambda>tools.
         bindA (collectA ''workflows'' (\<lambda>fs. getWorkflows e fs beatDir (Some True))) (\<lambda>workflows.
           auggie_writeCommands e (path_join [location, ''beat'']) agentArtifacts tasks tools
             workflows))))))"

subsection \<open>iFlow (iflow.js)\<close>

text \<open>
  \<^verbatim>\<open>/<name>([^<]+)<\/name>/\<close>: the leftmost place where \<^verbatim>\<open><name>\<close> is followed by at least
  one character other than \<^verbatim>\<open><\<close> and then by \<^verbatim>\<open></name>\<close>. The greedy run leaves nothing to
  backtracking: a shorter run is followed by a character of the run, not by \<^verbatim>\<open><\<close>.
\<close>

fun match_name_tag :: "string \<Rightarrow> string option" where
  "match_name_tag [] = None"
| "match_name_tag (c # s) =
     (if prefix ''<name>'' (c # s)
      then (let cap = takeWhile (\<lambda>x. x \<noteq> CHR ''<'') (drop 6 (c # s))
            in if cap \<noteq> [] \<and> prefix ''</name>'' (drop (length cap) (drop 6 (c # s)))
               then Some cap else match_name_tag s)
      else match_name_tag s)"

text \<open>\<^verbatim>\<open>createTaskCommand\<close>; \<^verbatim>\<open>this.formatTitle\<close> is the base class's. \<^verbatim>\<open>createAgentCommand\<close>
  returns the launcher content as it is.\<close>

definition iflow_createTaskCommand :: "env \<Rightarrow> agent_info \<Rightarrow> string \<Rightarrow> string" where
  "iflow_createTaskCommand e task content =
     (let taskName = (case match_name_tag content of
                        Some t \<Rightarrow> t
                      | None \<Rightarrow> baseFormatTitle e (agent_name task))
      in unlines
           [''# /task-'' @ agent_name task @ '' Command'',
            '''',
            ''When this command is used, execute the following task:'',
            '''',
            ''## '' @ taskName @ '' Task'',
            '''',
            content,
            '''',
            ''## Usage'',
            '''',
            ''This command executes the '' @ taskName @ '' task from the BEAT '' @
              toUpperCase (agent_module task) @ '' module.'',
            '''',
            ''## Module'',
            '''',
            ''Part of the BEAT '' @ toUpperCase (agent_module task) @ '' module.''])"

definition iflow_createAgentCommand :: "artifact \<Rightarrow> string" where
  "iflow_createAgentCommand a = art_content a"

definition iflow_writeAgents :: "string \<Rightarrow> artifact list \<Rightarrow> unit action" where
  "iflow_writeAgents agentsDir agentArtifacts =
     forEachA (\<lambda>a.
        base_writeFile (path_join [agentsDir, art_module a @ ''-'' @ art_name a @ ''.md''])
          (iflow_createAgentCommand a))
      agentArtifacts"

definition iflow_writeTasks :: "env \<Rightarrow> string \<Rightarrow> agent_info list \<Rightarrow> unit action" where
  "iflow_writeTasks e tasksDir tasks =
     forEachA (\<lambda>task.
        bindA (readA (\<lambda>fs. readFile fs (agent_path task))) (\<lambda>content.
          base_writeFile (path_join [tasksDir, agent_module task @ ''-'' @ agent_name task @ ''.md''])
            (iflow_createTaskCommand e task content)))
      tasks"

text \<open>\<^verbatim>\<open>IFlowSetup.setup\<close>: it makes the two directories and does not call \<^verbatim>\<open>cleanup\<close>; the
  tasks are collected after the agents have been written.\<close>

definition iflow_setup :: "env \<Rightarrow> string \<Rightarrow> string \<Rightarrow> string list \<Rightarrow> unit action" where
  "iflow_setup e projectDir beatDir selectedModules =
     (let iflowDir = path_join [projectDir, ''.iflow''];
          commandsDir = path_join [iflowDir, ''commands'', ''beat''];
          agentsDir = path_join [commandsDir, ''agents''];
          tasksDir = path_join [commandsDir, ''tasks'']
      in bindA (fs_ensureDir agentsDir) (\<lambda>u.
         bindA (fs_ensureDir tasksDir) (\<lambda>u.
         bindA (collectA ''agents'' (\<lambda>fs. collectAgentArtifacts e fs beatDir selectedModules))
           (\<lambda>agentArtifacts.
         bindA (iflow_writeAgents agentsDir agentArtifacts) (\<lambda>u.
         bindA (collectA ''tasks'' (\<lambda>fs. getTasks e fs beatDir None)) (\<lambda>tasks.
           iflow_writeTasks e tasksDir tasks))))))"

subsection \<open>The order of the events of a run\<close>

text \<open>
  \<open>emits P m\<close>: every event the action \<open>m\<close> adds to the record satisfies \<open>P\<close>, whether it
  returns or throws. \<open>emits2 P Q m\<close>: the events it adds fall into a first part whose
  events satisfy \<open>P\<close> and a second part whose events satisfy \<open>Q\<close>.
\<close>

definition emits :: "(event \<Rightarrow> bool) \<Rightarrow> 'a action \<Rightarrow> bool" where
  "emits P m \<longleftrightarrow> (\<forall>w. \<exists>es. events (snd (m w)) = events w @ es \<and> list_all P es)"

definition emits2 :: "(event \<Rightarrow> bool) \<Rightarrow> (event \<Rightarrow> bool) \<Rightarrow> 'a action \<Rightarrow> bool" where
  "emits2 P Q m \<longleftrightarrow>
     (\<forall>w. \<exists>pre post. events (snd (m w)) = events w @ pre @ post \<and> list_all P pre \<and> list_all Q post)"

subsection \<open>Two runs of one step\<close>

text \<open>
  \<open>rerun_same S m\<close>: take two runs of the action \<open>m\<close>, started in any two worlds in which
  every path of \<open>S\<close> reads the same, and let both return. Then both return the same value;
  both add the same events to the record, in the same order; every path written holds a
  file with the same content after both; a path that reads the same in the two worlds
  before the runs reads the same after them; and a path that holds a file before a run
  holds a file after it.
\<close>

definition rerun_same :: "string set \<Rightarrow> 'a action \<Rightarrow> bool" where
  "rerun_same S m \<longleftrightarrow>
     (\<forall>w1 w2 r1 r2 w1' w2'.
        m w1 = (Inr r1, w1') \<and> m w2 = (Inr r2, w2') \<and>
        (\<forall>p \<in> S. readFile (disk w1) p = readFile (disk w2) p) \<longrightarrow>
        r1 = r2 \<and>
        (\<exists>es. events w1' = events w1 @ es \<and> events w2' = events w2 @ es \<and>
              (\<forall>p. Wrote p \<in> set es \<longrightarrow>
                   (\<exists>c. readFile (disk w1') p = Inr c \<and> readFile (disk w2') p = Inr c))) \<and>
        (\<forall>p. readFile (disk w1) p = readFile (disk w2) p \<longrightarrow>
             readFile (disk w1') p = readFile (disk w2') p) \<and>
        (\<forall>p c. readFile (disk w1) p = Inr c \<longrightarrow> (\<exists>c'. readFile (disk w1') p = Inr c')))"

text \<open>The source files that the write step of a project adapter reads: those of the tasks,
  the tools and the workflows. The launchers of the agents carry their content.\<close>

definition sourcePaths :: "agent_info list \<Rightarrow> agent_info list \<Rightarrow> workflow_info list \<Rightarrow> string set" where
  "sourcePaths tasks tools workflows =
     agent_path ` set tasks \<union> agent_path ` set tools \<union> agent_path ` set workflows"

section \<open>Saved IDE configurations (core/ide-config-manager.js)\<close>

text \<open>
  What \<^verbatim>\<open>yaml.load\<close> returns is a JavaScript value. \<^verbatim>\<open>js-yaml\<close> itself is a library:
  its \<^verbatim>\<open>load\<close> and \<^verbatim>\<open>dump\<close> (with the options the manager passes) are parameters. The
  clock reading \<^verbatim>\<open>new Date().toISOString()\<close> is the parameter \<open>now\<close>.
\<close>

datatype yaml =
    YNull
  | YBool bool
  | YNum int
  | YStr string
  | YDate string
  | YList "yaml list"
  | YMap "(string \<times> yaml) list"

record yaml_lib =
  yaml_load :: "string \<Rightarrow> unit + yaml"
  yaml_dump :: "yaml \<Rightarrow> string"

text \<open>JavaScript truthiness, and reading a property (\<open>None\<close> is \<^verbatim>\<open>undefined\<close>).\<close>

fun truthy :: "yaml \<Rightarrow> bool" where
  "truthy YNull = False"
| "truthy (YBool b) = b"
| "truthy (YNum n) = (n \<noteq> 0)"
| "truthy (YStr s) = (s \<noteq> [])"
| "truthy (YDate s) = True"
| "truthy (YList xs) = True"
| "truthy (YMap kvs) = True"

definition getProp :: "yaml \<Rightarrow> string \<Rightarrow> yaml option" where
  "getProp v k = (case v of YMap kvs \<Rightarrow> map_of kvs k | _ \<Rightarrow> None)"

definition getIdeConfigDir :: "string \<Rightarrow> string" where
  "getIdeConfigDir beatDir = path_join [beatDir, ''_cfg'', ''ides'']"

definition getIdeConfigPath :: "string \<Rightarrow> string \<Rightarrow> string" where
  "getIdeConfigPath beatDir ideName = path_join [getIdeConfigDir beatDir, ideName @ ''.yaml'']"

text \<open>\<^verbatim>\<open>loadIdeConfig\<close>: \<open>None\<close> is \<^verbatim>\<open>null\<close>; a file that cannot be read or parsed gives
  \<^verbatim>\<open>null\<close> as well.\<close>

definition loadIdeConfig :: "yaml_lib \<Rightarrow> filesystem \<Rightarrow> string \<Rightarrow> string \<Rightarrow> yaml option" where
  "loadIdeConfig lib fs beatDir ideName =
     (if \<not> pathExists fs (getIdeConfigPath beatDir ideName) then None
      else (case readFile fs (getIdeConfigPath beatDir ideName) of
              Inl err \<Rightarrow> None
            | Inr content \<Rightarrow>
                (case yaml_load lib content of
                   Inl err \<Rightarrow> None
                 | Inr config \<Rightarrow> Some config)))"

text \<open>The \<^verbatim>\<open>configuredDate\<close> that \<^verbatim>\<open>saveIdeConfig\<close> settles on.\<close>

definition configuredDate :: "yaml_lib \<Rightarrow> filesystem \<Rightarrow> string \<Rightarrow> string \<Rightarrow> string \<Rightarrow> yaml" where
  "configuredDate lib fs now beatDir ideName =
     (if pathExists fs (getIdeConfigPath beatDir ideName)
      then (case loadIdeConfig lib fs beatDir ideName of
              None \<Rightarrow> YStr now
            | Some existing \<Rightarrow>
                if truthy existing
                then (case getProp existing ''configured_date'' of
                        None \<Rightarrow> YStr now
                      | Some d \<Rightarrow> if truthy d then d else YStr now)
                else YStr now)
      else YStr now)"

text \<open>\<^verbatim>\<open>saveIdeConfig\<close>; the configuration is an object, or \<open>None\<close> for \<^verbatim>\<open>null\<close> and
  \<^verbatim>\<open>undefined\<close>.\<close>

definition saveIdeConfig ::
  "yaml_lib \<Rightarrow> string \<Rightarrow> string \<Rightarrow> string \<Rightarrow> (string \<times> yaml) list option \<Rightarrow> unit action" where
  "saveIdeConfig lib now beatDir ideName configuration =
     bindA (fs_ensureDir (getIdeConfigDir beatDir)) (\<lambda>u.
     bindA (readA (\<lambda>fs. Inr (configuredDate lib fs now beatDir ideName))) (\<lambda>date.
       (let yamlContent = yaml_dump lib
              (YMap [(''ide'', YStr ideName),
                     (''configured_date'', date),
                     (''last_updated'', YStr now),
                     (''configuration'', (case configuration of None \<Rightarrow> YMap [] | Some c \<Rightarrow> YMap c))])
        in fs_writeFile (getIdeConfigPath beatDir ideName)
             (if endsWith yamlContent [CHR 0x0A] then yamlContent else yamlContent @ [CHR 0x0A]))))"

section \<open>Qwen (qwen.js)\<close>

text \<open>
  \<^verbatim>\<open>updateSettings\<close> parses \<^verbatim>\<open>settings.json\<close> with \<^verbatim>\<open>JSON.parse\<close> and writes it back with
  \<^verbatim>\<open>JSON.stringify\<close>; both belong to the language and are parameters. A parsed document is
  a JavaScript value, as above.
\<close>

record json_lib =
  json_parse :: "string \<Rightarrow> unit + yaml"
  json_stringify :: "yaml \<Rightarrow> string"

text \<open>\<^verbatim>\<open>try { ... } catch (error) { console.warn(...) }\<close>: the error is swallowed, what was
  done before it stays done.\<close>

definition catchA :: "unit action \<Rightarrow> unit action" where
  "catchA m = (\<lambda>w. case m w of (Inl err, w') \<Rightarrow> (Inr (), w') | (Inr x, w') \<Rightarrow> (Inr x, w'))"

text \<open>
  The settings object that \<^verbatim>\<open>updateSettings\<close> writes back, or \<open>None\<close> when it writes nothing:
  \<^verbatim>\<open>contextFileName\<close> must be an array, the entries that start with \<^verbatim>\<open>agents/\<close> or
  \<^verbatim>\<open>beat-method/\<close> are dropped, and the file is written only when an entry was dropped. On
  an entry that is not a string \<^verbatim>\<open>fileName.startsWith\<close> throws, and on \<^verbatim>\<open>null\<close> the property
  access throws; the \<^verbatim>\<open>catch\<close> block swallows both.
\<close>

definition qwen_updatedSettings :: "yaml \<Rightarrow> yaml option" where
  "qwen_updatedSettings settings =
     (case settings of
        YMap kvs \<Rightarrow>
          (case map_of kvs ''contextFileName'' of
             Some (YList names) \<Rightarrow>
               if list_all (\<lambda>n. case n of YStr s \<Rightarrow> True | _ \<Rightarrow> False) names
               then (let kept = filter (\<lambda>n. case n of
                                          YStr fileName \<Rightarrow>
                                            \<not> startsWith fileName ''agents/'' \<and>
                                            \<not> startsWith fileName ''beat-method/''
                                        | _ \<Rightarrow> False) names
                     in if length kept \<noteq> length names
                        then Some (YMap (AList.update ''contextFileName'' (YList kept) kvs))
                        else None)
               else None
           | _ \<Rightarrow> None)
      | _ \<Rightarrow> None)"

definition qwen_updateSettings :: "json_lib \<Rightarrow> string \<Rightarrow> unit action" where
  "qwen_updateSettings js qwenDir =
     (let settingsPath = path_join [qwenDir, ''settings.json'']
      in bindA (readA (\<lambda>fs. Inr (pathExists fs settingsPath))) (\<lambda>ex.
           if ex then
             catchA
               (bindA (readA (\<lambda>fs. readFile fs settingsPath)) (\<lambda>settingsContent.
                  case json_parse js settingsContent of
                    Inl err \<Rightarrow> returnA ()
                  | Inr settings \<Rightarrow>
                      (case qwen_updatedSettings settings of
                         None \<Rightarrow> returnA ()
                       | Some updated \<Rightarrow> fs_writeFile settingsPath (json_stringify js updated))))
           else returnA ()))"

text \<open>\<^verbatim>\<open>processAgentLauncherContent\<close>: the launcher as a TOML command.\<close>

definition qwen_processAgentLauncherContent :: "string \<Rightarrow> metadata \<Rightarrow> string" where
  "qwen_processAgentLauncherContent launcherContent md =
     unlines
       [''description = '' @ [dquote] @ ''BEAT '' @ toUpperCase (md_module md) @ '' Agent: '' @
          (case match_attr ''description:'' True launcherContent of
             Some t \<Rightarrow> t
           | None \<Rightarrow> md_name md) @ [dquote],
        ''prompt = '' @ [dquote, dquote, dquote],
        trim (strip_frontmatter launcherContent),
        [dquote, dquote, dquote]]"

text \<open>\<^verbatim>\<open>QwenSetup.processContent\<close>; its description is worked out by the same tests as
  Cursor's. \<open>baseProcess\<close> stands for \<^verbatim>\<open>super.processContent\<close>.\<close>

definition qwen_description :: "string \<Rightarrow> metadata \<Rightarrow> string" where
  "qwen_description content md =
     (if str_includes content ''<agent'' then
        ''BEAT '' @ toUpperCase (md_module md) @ '' Agent: '' @
          (case match_attr ''title='' False content of Some t \<Rightarrow> t | None \<Rightarrow> md_name md)
      else if str_includes content ''<task'' then
        ''BEAT '' @ toUpperCase (md_module md) @ '' Task: '' @
          (case match_attr ''name='' False content of Some t \<Rightarrow> t | None \<Rightarrow> md_name md)
      else if str_includes content ''<tool'' then
        ''BEAT '' @ toUpperCase (md_module md) @ '' Tool: '' @
          (case match_attr ''name='' False content of Some t \<Rightarrow> t | None \<Rightarrow> md_name md)
      else if str_includes content ''workflow:'' \<or> str_includes content ''name:'' then
        ''BEAT '' @ toUpperCase (md_module md) @ '' Workflow: '' @ md_name md
      else ''BEAT '' @ toUpperCase (md_module md) @ '': '' @ md_name md)"

definition qwen_processContent :: "(string \<Rightarrow> metadata \<Rightarrow> string) \<Rightarrow> string \<Rightarrow> metadata \<Rightarrow> string" where
  "qwen_processContent baseProcess content md =
     unlines
       [''description = '' @ [dquote] @ qwen_description content md @ [dquote],
        ''prompt = '' @ [dquote, dquote, dquote],
        baseProcess content md,
        [dquote, dquote, dquote]]"

text \<open>\<^verbatim>\<open>readAndProcess\<close> of Qwen followed by the write, for the tasks, tools and workflows.\<close>

definition qwen_writeProcessed :: "env \<Rightarrow> string \<Rightarrow> string \<Rightarrow> 'a agent_info_scheme \<Rightarrow> unit action" where
  "qwen_writeProcessed e beatCommandsDir kindDir item =
     bindA (readA (\<lambda>fs. readFile fs (agent_path item))) (\<lambda>content.
       base_writeFile (path_join [beatCommandsDir, agent_module item, kindDir, agent_name item @ ''.toml''])
         (qwen_processContent (\<lambda>c md. baseProcessContent e c md None) content
            \<lparr>md_module = agent_module item, md_name = agent_name item\<rparr>))"

text \<open>The part of \<^verbatim>\<open>QwenSetup.setup\<close> that follows the collections.\<close>

definition qwen_writeCommands ::
  "env \<Rightarrow> string \<Rightarrow> artifact list \<Rightarrow> agent_info list \<Rightarrow> agent_info list \<Rightarrow> workflow_info list \<Rightarrow>
   unit action" where
  "qwen_writeCommands e beatCommandsDir agentArtifacts tasks tools workflows =
     (let modules = insertionOrder
            (map art_module agentArtifacts @ map agent_module tasks @ map agent_module tools @
             map agent_module workflows)
      in bindA (forEachA (\<lambda>m.
                  bindA (fs_ensureDir (path_join [beatCommandsDir, m])) (\<lambda>u.
                  bindA (fs_ensureDir (path_join [beatCommandsDir, m, ''agents''])) (\<lambda>u.
                  bindA (fs_ensureDir (path_join [beatCommandsDir, m, ''tasks''])) (\<lambda>u.
                  bindA (fs_ensureDir (path_join [beatCommandsDir, m, ''tools''])) (\<lambda>u.
                    fs_ensureDir (path_join [beatCommandsDir, m, ''workflows'']))))))
                modules) (\<lambda>u.
         bindA (forEachA (\<lambda>a.
                  base_writeFile
                    (path_join [beatCommandsDir, art_module a, ''agents'', art_name a @ ''.toml''])
                    (qwen_processAgentLauncherContent (art_content a)
                       \<lparr>md_module = art_module a, md_name = art_name a\<rparr>))
                agentArtifacts) (\<lambda>u.
         bindA (forEachA (qwen_writeProcessed e beatCommandsDir ''tasks'') tasks) (\<lambda>u.
         bindA (forEachA (qwen_writeProcessed e beatCommandsDir ''tools'') tools) (\<lambda>u.
           forEachA (qwen_writeProcessed e beatCommandsDir ''workflows'') workflows)))))"

text \<open>\<^verbatim>\<open>QwenSetup.setup\<close>: make the directory, update the settings, remove the old
  configuration, collect, render and write. The tasks come from \<^verbatim>\<open>getTasksFromBeat\<close>.\<close>

definition qwen_setup :: "env \<Rightarrow> json_lib \<Rightarrow> string \<Rightarrow> string \<Rightarrow> string list \<Rightarrow> unit action" where
  "qwen_setup e js projectDir beatDir selectedModules =
     (let qwenDir = path_join [projectDir, ''.qwen''];
          commandsDir = path_join [qwenDir, ''commands''];
          beatCommandsDir = path_join [commandsDir, ''beat'']
      in bindA (fs_ensureDir beatCommandsDir) (\<lambda>u.
         bindA (qwen_updateSettings js qwenDir) (\<lambda>u.
         bindA (qwen_cleanupOldConfig qwenDir) (\<lambda>u.
         bindA (collectA ''agents'' (\<lambda>fs. collectAgentArtifacts e fs beatDir selectedModules))
           (\<lambda>agentArtifacts.
         bindA (collectA ''tasks'' (\<lambda>fs. getTasksFromBeat fs beatDir selectedModules)) (\<lambda>tasks.
         bindA (collectA ''tools'' (\<lambda>fs. getTools e fs beatDir (Some True))) (\<lambda>tools.
         bindA (collectA ''workflows'' (\<lambda>fs. getWorkflows e fs beatDir (Some True))) (\<lambda>workflows.
           qwen_writeCommands e beatCommandsDir agentArtifacts tasks tools workflows))))))))"

section \<open>Example inputs\<close>

definition example_scan_dir :: filesystem where
  "example_scan_dir =
     [(''/t'', Directory),
      (''/t/a.customize.md'', File (''<agent localskip='' @ [dquote] @ ''true'' @ [dquote] @ ''>'')),
      (''/t/b.md'', File (''<agent localskip='' @ [dquote] @ ''true'' @ [dquote] @ ''>'')),
      (''/t/c.md'', File ''<agent>'')]"

definition example_modules_tree :: filesystem where
  "example_modules_tree =
     [(''/p'', Directory), (''/p/beat'', Directory), (''/p/beat/bmm'', Directory),
      (''/p/beat/bmm/agents'', Directory), (''/p/beat/bmm/agents/pm.md'', File ''<agent>''),
      (''/p/beat/bmm/tasks'', Directory), (''/p/beat/bmm/tasks/plan.md'', File ''<task>'')]"

definition example_standalone_tree :: filesystem where
  "example_standalone_tree =
     [(''/p'', Directory), (''/p/beat'', Directory), (''/p/beat/bmm'', Directory),
      (''/p/beat/bmm/agents'', Directory), (''/p/beat/bmm/agents/pm.md'', File ''<agent>''),
      (''/p/beat/agents'', Directory), (''/p/beat/agents/readme.md'', File ''about''),
      (''/p/beat/agents/solo'', Directory),
      (''/p/beat/agents/solo/helper.md'', File ''<agent>''),
      (''/p/beat/agents/solo/helper.customize.md'', File ''<agent>''),
      (''/p/beat/agents/solo/skip.md'',
       File (''<agent localskip='' @ [dquote] @ ''true'' @ [dquote] @ ''>''))]"

definition example_project :: world where
  "example_project =
     \<lparr>disk = [(''/p'', Directory), (''/p/.trae'', Directory), (''/p/.trae/rules'', Directory),
              (''/p/.trae/rules/beat-agent-core-dev.md'', File ''x''),
              (''/p/.trae/rules/mine.md'', File ''y''),
              (''/p/.trae/rules/beat-notes.txt'', File ''z''),
              (''/p/.qwen'', Directory), (''/p/.qwen/agents'', Directory),
              (''/p/.qwen/agents/mine.md'', File ''u'')],
      events = []\<rparr>"

definition example_rules :: world where
  "example_rules =
     \<lparr>disk = [(''/p'', Directory), (''/p/.trae'', Directory), (''/p/.trae/rules'', Directory),
              (''/p/.trae/rules/beat-agent-core-dev.md'', File ''old rule''),
              (''/p/.trae/rules/beat-notes'', Directory),
              (''/p/.trae/rules/beat-notes/todo.md'', File ''mine''),
              (''/p/.opencode'', Directory), (''/p/.opencode/agent'', Directory),
              (''/p/.opencode/agent/beat-agent-core-dev.md'', File ''old agent''),
              (''/p/.opencode/agent/beat-drafts'', Directory),
              (''/p/.opencode/agent/beat-drafts/beat-idea.md'', File ''mine too'')],
      events = []\<rparr>"

text \<open>A stand-in for \<^verbatim>\<open>JSON\<close> on the examples: it knows one settings document.\<close>

definition example_json :: json_lib where
  "example_json =
     \<lparr>json_parse = (\<lambda>s. if s = ''{contextFileName: [agents/dev.md, README.md]}''
                          then Inr (YMap [(''contextFileName'',
                                           YList [YStr ''agents/dev.md'', YStr ''README.md''])])
                          else Inl ()),
      json_stringify = (\<lambda>v. case v of
                          YMap [(k, YList [YStr n])] \<Rightarrow> ''{'' @ k @ '': ['' @ n @ '']}''
                        | _ \<Rightarrow> ''?'')\<rparr>"

definition example_qwen :: world where
  "example_qwen =
     \<lparr>disk = [(''/p'', Directory), (''/p/.qwen'', Directory),
              (''/p/.qwen/settings.json'', File ''{contextFileName: [agents/dev.md, README.md]}''),
              (''/p/.qwen/agents'', Directory),
              (''/p/.qwen/agents/dev.md'', File ''old agent'')],
      events = []\<rparr>"

definition example_env :: env where
  "example_env =
     \<lparr>templatePath = ''/tool/templates/agent-command-template.md'',
      beatFolderName = ''beat'',
      homedir = ''/home/u'',
      baseProcessContent = (\<lambda>content md projectDir. content),
      baseFormatTitle = (\<lambda>name. name),
      collectWorkflowArtifacts = (\<lambda>fs beatDir. Inr ([], 0, 0)),
      getTasks = (\<lambda>fs beatDir standalone. Inr []),
      getTools = (\<lambda>fs beatDir standalone. Inr []),
      getWorkflows = (\<lambda>fs beatDir standalone. Inr []),
      loadTaskManifest = (\<lambda>fs beatDir. Inr None),
      loadToolManifest = (\<lambda>fs beatDir. Inr None),
      generateCommandContent = (\<lambda>item kind. kind @ '' '' @ mi_name item),
      path_relative = (\<lambda>from to. to),
      path_basename = (\<lambda>p ext. p)\<rparr>"

definition example_install :: world where
  "example_install =
     \<lparr>disk = [(''/tool'', Directory), (''/tool/templates'', Directory),
              (''/tool/templates/agent-command-template.md'',
               File ''LOAD {beat_folder}/{{module}}/agents/{{name}}.md ({{description}})''),
              (''/p'', Directory), (''/p/beat'', Directory), (''/p/beat/core'', Directory),
              (''/p/beat/core/agents'', Directory),
              (''/p/beat/core/agents/dev.md'',
               File (''<agent name='' @ [dquote] @ ''dev'' @ [dquote] @ '' title='' @ [dquote] @
                     ''Developer'' @ [dquote] @ ''>'')),
              (''/home/u'', Directory)],
      events = []\<rparr>"

definition example_reinstall :: world where
  "example_reinstall =
     \<lparr>disk = disk example_install @
              [(''/p/.cursor'', Directory), (''/p/.cursor/rules'', Directory),
               (''/p/.cursor/rules/beat'', Directory),
               (''/p/.cursor/rules/beat/index.mdc'', File ''old index'')],
      events = []\<rparr>"

text \<open>An installation with one task, before and after an earlier Cursor install.\<close>

definition example_task_install :: world where
  "example_task_install =
     \<lparr>disk = disk example_install @
              [(''/p/beat/core/tasks'', Directory),
               (''/p/beat/core/tasks/build.md'',
                File (''<task name='' @ [dquote] @ ''Build'' @ [dquote] @ ''>''))],
      events = []\<rparr>"

definition example_task_reinstall :: world where
  "example_task_reinstall =
     \<lparr>disk = disk example_task_install @
              [(''/p/.cursor'', Directory), (''/p/.cursor/rules'', Directory),
               (''/p/.cursor/rules/beat'', Directory),
               (''/p/.cursor/rules/beat/index.mdc'', File ''old index''),
               (''/p/.cursor/rules/beat/core'', Directory),
               (''/p/.cursor/rules/beat/core/tasks'', Directory),
               (''/p/.cursor/rules/beat/core/tasks/build.mdc'', File ''old rule'')],
      events = []\<rparr>"

definition example_launcher :: artifact where
  "example_launcher =
     \<lparr>art_type = ''agent-launcher'', art_module = ''core'', art_name = ''dev'',
      art_relativePath = ''core/agents/dev.md'', art_content = ''LOAD'',
      art_sourcePath = ''/p/beat/core/agents/dev.md''\<rparr>"

definition example_task :: agent_info where
  "example_task =
     \<lparr>agent_path = ''/p/beat/core/tasks/build.md'', agent_name = ''build'', agent_module = ''core''\<rparr>"

definition example_codex_home :: world where
  "example_codex_home =
     \<lparr>disk = [(''/home/u'', Directory), (''/home/u/.codex'', Directory),
              (''/home/u/.codex/prompts'', Directory),
              (''/home/u/.codex/prompts/beat-old.md'', File ''old''),
              (''/home/u/.codex/prompts/notes.md'', File ''mine'')],
      events = []\<rparr>"

definition example_export :: "export_artifact list" where
  "example_export =
     [\<lparr>ex_type = ''agent'', ex_module = ''core'', ex_sourcePath = ''/p/beat/core/agents/dev.md'',
       ex_relativePath = ''core/agents/dev.md'', ex_content = ''LOAD''\<rparr>]"

text \<open>A stand-in for the YAML library on the examples: it knows one document.\<close>

definition example_yaml :: yaml_lib where
  "example_yaml =
     \<lparr>yaml_load = (\<lambda>s. if s = ''ide: cursor; configured_date: 2024-01-01''
                         then Inr (YMap [(''ide'', YStr ''cursor''),
                                         (''configured_date'', YStr ''2024-01-01'')])
                         else Inl ()),
      yaml_dump = (\<lambda>v. case v of
                     YMap [(k1, YStr i), (k2, YStr d), (k3, YStr u), (k4, c)] \<Rightarrow>
                       ''ide: '' @ i @ ''; configured_date: '' @ d @ ''; last_updated: '' @ u
                   | _ \<Rightarrow> ''?'')\<rparr>"

definition example_configured :: world where
  "example_configured =
     \<lparr>disk = [(''/p'', Directory), (''/p/beat'', Directory), (''/p/beat/_cfg'', Directory),
              (''/p/beat/_cfg/ides'', Directory),
              (''/p/beat/_cfg/ides/cursor.yaml'', File ''ide: cursor; configured_date: 2024-01-01'')],
      events = []\<rparr>"

section \<open>Evaluating the model on concrete inputs\<close>

lemmas fs_eval =
  pathExists_def readdir_def readdirTypes_def readFile_def bindE_def children_def
  child_name_def path_join_def under_def

lemmas str_eval =
  startsWith_def endsWith_def suffix_to_prefix dquote_def replace_first_def replaceAll_def

section \<open>Exclusion rules of the collector\<close>

lemma scanAgentFiles_mem:
  "scanAgentFiles fs dirPath m files = Inr agents \<Longrightarrow>
   a \<in> set agents \<longleftrightarrow>
     (\<exists>file \<in> set files.
        a = \<lparr>agent_path = path_join [dirPath, file],
             agent_name = replace_first ''.md'' [] file, agent_module = m\<rparr> \<and>
        endsWith file ''.md'' \<and> \<not> str_includes file ''.customize.'' \<and>
        (\<exists>c. readFile fs (path_join [dirPath, file]) = Inr c \<and>
             \<not> str_includes c (''localskip='' @ [dquote] @ ''true'' @ [dquote])))"
proof (induction files arbitrary: agents)
  case Nil
  then show ?case by simp
next
  case (Cons f files)
  then show ?case
    by (auto split: if_splits sum.splits)
qed

lemma scanTaskFiles_eq:
  "scanTaskFiles dirPath m files =
     map (\<lambda>file. \<lparr>agent_path = path_join [dirPath, file],
             agent_name = replace_first ''.md'' [] file, agent_module = m\<rparr>)
       (filter (\<lambda>file. endsWith file ''.md'') files)"
  by (induction files) auto

lemma readdir_pathExists: "readdir fs d = Inr files \<Longrightarrow> pathExists fs d"
  by (auto simp: readdir_def readdirTypes_def bindE_def pathExists_def
      split: option.splits node.splits)

lemma getAgentsFromDir_scan:
  assumes "getAgentsFromDir fs d m = Inr r" and "pathExists fs d"
  shows "\<exists>files. readdir fs d = Inr files \<and> scanAgentFiles fs d m files = Inr r"
  using assms by (cases "readdir fs d") (auto simp: getAgentsFromDir_def bindE_def)

lemma collectModules_agents_mem:
  "collectModules getAgentsFromDir kind fs beatDir ms = Inr found \<Longrightarrow>
   a \<in> set found \<longleftrightarrow>
     (\<exists>md \<in> set ms. \<exists>files r.
        readdir fs (path_join [beatDir, md, kind]) = Inr files \<and>
        scanAgentFiles fs (path_join [beatDir, md, kind]) md files = Inr r \<and> a \<in> set r)"
proof (induction ms arbitrary: found)
  case Nil
  then show ?case by simp
next
  case (Cons md ms)
  show ?case
  proof (cases "pathExists fs (path_join [beatDir, md, kind])")
    case False
    then have "\<And>files. readdir fs (path_join [beatDir, md, kind]) \<noteq> Inr files"
      using readdir_pathExists by blast
    moreover from False Cons.prems have "collectModules getAgentsFromDir kind fs beatDir ms = Inr found"
      by simp
    ultimately show ?thesis using Cons.IH by auto
  next
    case True
    with Cons.prems obtain r rest where
      r: "getAgentsFromDir fs (path_join [beatDir, md, kind]) md = Inr r"
      and rest: "collectModules getAgentsFromDir kind fs beatDir ms = Inr rest"
      and found: "found = r @ rest"
      by (auto split: sum.splits)
    from getAgentsFromDir_scan [OF r True] obtain files where
      f: "readdir fs (path_join [beatDir, md, kind]) = Inr files"
         "scanAgentFiles fs (path_join [beatDir, md, kind]) md files = Inr r" by blast
    show ?thesis using Cons.IH [OF rest] f found by auto
  qed
qed

lemma scanStandaloneDirs_mem:
  "scanStandaloneDirs fs sdir ds = Inr found \<Longrightarrow>
   a \<in> set found \<longleftrightarrow>
     (\<exists>dname files r. (dname, Directory) \<in> set ds \<and>
        readdir fs (path_join [sdir, dname]) = Inr files \<and>
        scanAgentFiles fs (path_join [sdir, dname]) ''standalone'' files = Inr r \<and> a \<in> set r)"
proof (induction ds arbitrary: found)
  case Nil
  then show ?case by simp
next
  case (Cons d ds)
  obtain dname nd where d: "d = (dname, nd)" by (cases d)
  show ?case
  proof (cases "nd = Directory")
    case False
    with Cons.prems d have "scanStandaloneDirs fs sdir ds = Inr found" by simp
    from Cons.IH [OF this] False d show ?thesis by auto
  next
    case True
    with Cons.prems d obtain files r rest where
      f: "readdir fs (path_join [sdir, dname]) = Inr files"
         "scanAgentFiles fs (path_join [sdir, dname]) ''standalone'' files = Inr r"
      and rest: "scanStandaloneDirs fs sdir ds = Inr rest"
      and found: "found = r @ rest"
      by (auto split: sum.splits)
    show ?thesis using Cons.IH [OF rest] f found d True by auto
  qed
qed


lemma collectModules_scans:
  "collectModules getAgentsFromDir kind fs beatDir ms = Inr found \<Longrightarrow> md \<in> set ms \<Longrightarrow>
   readdir fs (path_join [beatDir, md, kind]) = Inr files \<Longrightarrow>
   \<exists>r. scanAgentFiles fs (path_join [beatDir, md, kind]) md files = Inr r"
proof (induction ms arbitrary: found)
  case Nil
  then show ?case by simp
next
  case (Cons x xs)
  from Cons.prems(3) have ex: "pathExists fs (path_join [beatDir, md, kind])"
    by (rule readdir_pathExists)
  show ?case
  proof (cases "x = md")
    case True
    with Cons.prems(1) ex obtain r where "getAgentsFromDir fs (path_join [beatDir, md, kind]) md = Inr r"
      by (auto split: sum.splits)
    from getAgentsFromDir_scan [OF this ex] Cons.prems(3) show ?thesis by auto
  next
    case False
    with Cons.prems(2) have "md \<in> set xs" by simp
    moreover from Cons.prems(1) obtain rest where
      "collectModules getAgentsFromDir kind fs beatDir xs = Inr rest"
      by (auto split: sum.splits if_splits)
    ultimately show ?thesis using Cons.IH Cons.prems(3) by blast
  qed
qed

lemma scanStandaloneDirs_scans:
  "scanStandaloneDirs fs sdir ds = Inr found \<Longrightarrow> (dname, Directory) \<in> set ds \<Longrightarrow>
   readdir fs (path_join [sdir, dname]) = Inr files \<Longrightarrow>
   \<exists>r. scanAgentFiles fs (path_join [sdir, dname]) ''standalone'' files = Inr r"
proof (induction ds arbitrary: found)
  case Nil
  then show ?case by simp
next
  case (Cons x xs)
  obtain xn xd where x: "x = (xn, xd)" by (cases x)
  show ?case
  proof (cases "x = (dname, Directory)")
    case True
    with Cons.prems(1,3) show ?thesis by (auto split: sum.splits)
  next
    case False
    with Cons.prems(2) have "(dname, Directory) \<in> set xs" by simp
    moreover from Cons.prems(1) x obtain rest where "scanStandaloneDirs fs sdir xs = Inr rest"
      by (auto split: sum.splits if_splits)
    ultimately show ?thesis using Cons.IH Cons.prems(3) by blast
  qed
qed

lemma getAgentsFromBeat_mem:
  assumes "getAgentsFromBeat fs beatDir ms = Inr found"
  shows "a \<in> set found \<longleftrightarrow>
     (\<exists>dir md.
        ((dir = path_join [beatDir, ''core'', ''agents''] \<and> md = ''core'') \<or>
         (\<exists>m \<in> set ms. dir = path_join [beatDir, m, ''agents''] \<and> md = m) \<or>
         (\<exists>ds dname. readdirTypes fs (path_join [beatDir, ''agents'']) = Inr ds \<and>
            (dname, Directory) \<in> set ds \<and>
            dir = path_join [path_join [beatDir, ''agents''], dname] \<and> md = ''standalone'')) \<and>
        (\<exists>files. readdir fs dir = Inr files \<and>
           (\<exists>file \<in> set files.
              a = \<lparr>agent_path = path_join [dir, file],
                   agent_name = replace_first ''.md'' [] file, agent_module = md\<rparr> \<and>
              endsWith file ''.md'' \<and> \<not> str_includes file ''.customize.'' \<and>
              (\<exists>c. readFile fs (path_join [dir, file]) = Inr c \<and>
                   \<not> str_includes c (''localskip='' @ [dquote] @ ''true'' @ [dquote])))))"
proof -
  define passes where "passes dir md \<longleftrightarrow>
        (\<exists>files. readdir fs dir = Inr files \<and>
           (\<exists>file \<in> set files.
              a = \<lparr>agent_path = path_join [dir, file],
                   agent_name = replace_first ''.md'' [] file, agent_module = md\<rparr> \<and>
              endsWith file ''.md'' \<and> \<not> str_includes file ''.customize.'' \<and>
              (\<exists>c. readFile fs (path_join [dir, file]) = Inr c \<and>
                   \<not> str_includes c (''localskip='' @ [dquote] @ ''true'' @ [dquote]))))" for dir md
  let ?core = "path_join [beatDir, ''core'', ''agents'']"
  let ?sdir = "path_join [beatDir, ''agents'']"
  have scan: "a \<in> set r \<longleftrightarrow> passes dir md"
    if "readdir fs dir = Inr files" "scanAgentFiles fs dir md files = Inr r" for dir md files r
    unfolding passes_def using that(1) scanAgentFiles_mem [OF that(2), of a] by simp
  have noscan: "\<not> passes dir md" if "\<not> pathExists fs dir" for dir md
    unfolding passes_def using that readdir_pathExists by blast
  from assms obtain coreAgents moduleAgents standalone where
    c: "(if pathExists fs ?core then getAgentsFromDir fs ?core ''core'' else Inr []) = Inr coreAgents"
    and m: "collectModules getAgentsFromDir ''agents'' fs beatDir ms = Inr moduleAgents"
    and s: "getStandaloneAgents fs beatDir = Inr standalone"
    and found: "found = coreAgents @ moduleAgents @ standalone"
    by (auto simp: getAgentsFromBeat_def bindE_def split: sum.splits)
  have core: "a \<in> set coreAgents \<longleftrightarrow> passes ?core ''core''"
  proof (cases "pathExists fs ?core")
    case False
    with c have "coreAgents = []" by simp
    with noscan [OF False] show ?thesis by simp
  next
    case True
    with c have g: "getAgentsFromDir fs ?core ''core'' = Inr coreAgents" by simp
    from getAgentsFromDir_scan [OF g True] obtain files where
      "readdir fs ?core = Inr files" "scanAgentFiles fs ?core ''core'' files = Inr coreAgents"
      by blast
    then show ?thesis by (rule scan)
  qed
  have mods: "a \<in> set moduleAgents \<longleftrightarrow> (\<exists>md \<in> set ms. passes (path_join [beatDir, md, ''agents'']) md)"
  proof
    assume "a \<in> set moduleAgents"
    with collectModules_agents_mem [OF m, of a] obtain md files r where
      "md \<in> set ms" "readdir fs (path_join [beatDir, md, ''agents'']) = Inr files"
      "scanAgentFiles fs (path_join [beatDir, md, ''agents'']) md files = Inr r" "a \<in> set r"
      by blast
    with scan show "\<exists>md \<in> set ms. passes (path_join [beatDir, md, ''agents'']) md" by blast
  next
    assume "\<exists>md \<in> set ms. passes (path_join [beatDir, md, ''agents'']) md"
    then obtain md where md: "md \<in> set ms" "passes (path_join [beatDir, md, ''agents'']) md" by blast
    then obtain files where f: "readdir fs (path_join [beatDir, md, ''agents'']) = Inr files"
      unfolding passes_def by blast
    from collectModules_scans [OF m md(1) f] obtain r where
      r: "scanAgentFiles fs (path_join [beatDir, md, ''agents'']) md files = Inr r" by blast
    with scan [OF f r] md(2) have "a \<in> set r" by simp
    with collectModules_agents_mem [OF m, of a] md(1) f r show "a \<in> set moduleAgents" by blast
  qed
  have stand: "a \<in> set standalone \<longleftrightarrow>
      (\<exists>ds dname. readdirTypes fs ?sdir = Inr ds \<and> (dname, Directory) \<in> set ds \<and>
         passes (path_join [?sdir, dname]) ''standalone'')"
  proof (cases "pathExists fs ?sdir")
    case False
    with s have "standalone = []" by (simp add: getStandaloneAgents_def)
    moreover from False have "\<And>ds. readdirTypes fs ?sdir \<noteq> Inr ds"
      by (auto simp: readdirTypes_def pathExists_def split: option.splits)
    ultimately show ?thesis by simp
  next
    case True
    with s obtain ds where ds: "readdirTypes fs ?sdir = Inr ds"
      and sc: "scanStandaloneDirs fs ?sdir ds = Inr standalone"
      by (cases "readdirTypes fs ?sdir") (auto simp: getStandaloneAgents_def bindE_def)
    have "a \<in> set standalone \<longleftrightarrow>
      (\<exists>dname. (dname, Directory) \<in> set ds \<and> passes (path_join [?sdir, dname]) ''standalone'')"
    proof
      assume "a \<in> set standalone"
      with scanStandaloneDirs_mem [OF sc, of a] obtain dname files r where
        "(dname, Directory) \<in> set ds" "readdir fs (path_join [?sdir, dname]) = Inr files"
        "scanAgentFiles fs (path_join [?sdir, dname]) ''standalone'' files = Inr r" "a \<in> set r"
        by blast
      with scan show "\<exists>dname. (dname, Directory) \<in> set ds \<and> passes (path_join [?sdir, dname]) ''standalone''"
        by blast
    next
      assume "\<exists>dname. (dname, Directory) \<in> set ds \<and> passes (path_join [?sdir, dname]) ''standalone''"
      then obtain dname where d: "(dname, Directory) \<in> set ds"
        "passes (path_join [?sdir, dname]) ''standalone''" by blast
      then obtain files where f: "readdir fs (path_join [?sdir, dname]) = Inr files"
        unfolding passes_def by blast
      from scanStandaloneDirs_scans [OF sc d(1) f] obtain r where
        r: "scanAgentFiles fs (path_join [?sdir, dname]) ''standalone'' files = Inr r" by blast
      with scan [OF f r] d(2) have "a \<in> set r" by simp
      with scanStandaloneDirs_mem [OF sc, of a] d(1) f r show "a \<in> set standalone" by blast
    qed
    with ds show ?thesis by simp
  qed
  have "a \<in> set found \<longleftrightarrow> a \<in> set coreAgents \<or> a \<in> set moduleAgents \<or> a \<in> set standalone"
    using found by auto
  also have "\<dots> \<longleftrightarrow> (\<exists>dir md.
        ((dir = ?core \<and> md = ''core'') \<or>
         (\<exists>m \<in> set ms. dir = path_join [beatDir, m, ''agents''] \<and> md = m) \<or>
         (\<exists>ds dname. readdirTypes fs ?sdir = Inr ds \<and>
            (dname, Directory) \<in> set ds \<and>
            dir = path_join [?sdir, dname] \<and> md = ''standalone'')) \<and> passes dir md)"
    unfolding core mods stand by blast
  finally show ?thesis unfolding passes_def .
qed


text \<open>
  Claim C4, as the code has it. The two exclusion rules are applied to agents only.
  \<^verbatim>\<open>getAgentsFromDir\<close> collects an agent exactly when its file name ends in \<^verbatim>\<open>.md\<close>, does not
  contain \<^verbatim>\<open>.customize.\<close>, and its content does not contain \<^verbatim>\<open>localskip="true"\<close>.
  \<^verbatim>\<open>getTasksFromDir\<close> applies neither rule and never reads a file: it collects every file whose
  name ends in \<^verbatim>\<open>.md\<close>. The same holds of the whole of \<^verbatim>\<open>getAgentsFromBeat\<close>: an agent is in
  its result exactly when its file passes the three tests and lies in a directory the
  collector scans, which are \<^verbatim>\<open>core/agents\<close>, the \<^verbatim>\<open>agents\<close> directory of a selected module,
  and the directories of the standalone area \<^verbatim>\<open>{beatDir}/agents\<close>.
\<close>

theorem agent_scan_excludes_task_scan_keeps:
  assumes "readdir fs dirPath = Inr files"
    and "getAgentsFromDir fs dirPath m = Inr agents"
  shows "(\<forall>a. a \<in> set agents \<longleftrightarrow>
           (\<exists>file \<in> set files.
              a = \<lparr>agent_path = path_join [dirPath, file],
                   agent_name = replace_first ''.md'' [] file, agent_module = m\<rparr> \<and>
              endsWith file ''.md'' \<and> \<not> str_includes file ''.customize.'' \<and>
              (\<exists>c. readFile fs (path_join [dirPath, file]) = Inr c \<and>
                   \<not> str_includes c (''localskip='' @ [dquote] @ ''true'' @ [dquote])))) \<and>
         getTasksFromDir fs dirPath m =
           Inr (map (\<lambda>file. \<lparr>agent_path = path_join [dirPath, file],
                        agent_name = replace_first ''.md'' [] file, agent_module = m\<rparr>)
                  (filter (\<lambda>file. endsWith file ''.md'') files)) \<and>
         (\<forall>beatDir ms found. getAgentsFromBeat fs beatDir ms = Inr found \<longrightarrow>
            (\<forall>a. a \<in> set found \<longleftrightarrow>
               (\<exists>dir md.
                  ((dir = path_join [beatDir, ''core'', ''agents''] \<and> md = ''core'') \<or>
                   (\<exists>m \<in> set ms. dir = path_join [beatDir, m, ''agents''] \<and> md = m) \<or>
                   (\<exists>ds dname. readdirTypes fs (path_join [beatDir, ''agents'']) = Inr ds \<and>
                      (dname, Directory) \<in> set ds \<and>
                      dir = path_join [path_join [beatDir, ''agents''], dname] \<and>
                      md = ''standalone'')) \<and>
                  (\<exists>files. readdir fs dir = Inr files \<and>
                     (\<exists>file \<in> set files.
                        a = \<lparr>agent_path = path_join [dir, file],
                             agent_name = replace_first ''.md'' [] file, agent_module = md\<rparr> \<and>
                        endsWith file ''.md'' \<and> \<not> str_includes file ''.customize.'' \<and>
                        (\<exists>c. readFile fs (path_join [dir, file]) = Inr c \<and>
                             \<not> str_includes c (''localskip='' @ [dquote] @ ''true'' @ [dquote])))))))"
proof -
  have ex: "pathExists fs dirPath" using assms(1) by (rule readdir_pathExists)
  from assms(2) ex assms(1) have "scanAgentFiles fs dirPath m files = Inr agents"
    by (simp add: getAgentsFromDir_def bindE_def)
  then have "\<forall>a. a \<in> set agents \<longleftrightarrow>
           (\<exists>file \<in> set files.
              a = \<lparr>agent_path = path_join [dirPath, file],
                   agent_name = replace_first ''.md'' [] file, agent_module = m\<rparr> \<and>
              endsWith file ''.md'' \<and> \<not> str_includes file ''.customize.'' \<and>
              (\<exists>c. readFile fs (path_join [dirPath, file]) = Inr c \<and>
                   \<not> str_includes c (''localskip='' @ [dquote] @ ''true'' @ [dquote])))"
    using scanAgentFiles_mem by blast
  moreover have "getTasksFromDir fs dirPath m =
           Inr (map (\<lambda>file. \<lparr>agent_path = path_join [dirPath, file],
                        agent_name = replace_first ''.md'' [] file, agent_module = m\<rparr>)
                  (filter (\<lambda>file. endsWith file ''.md'') files))"
    using ex assms(1) by (simp add: getTasksFromDir_def bindE_def scanTaskFiles_eq)
  moreover have "\<forall>beatDir ms found. getAgentsFromBeat fs beatDir ms = Inr found \<longrightarrow>
            (\<forall>a. a \<in> set found \<longleftrightarrow>
               (\<exists>dir md.
                  ((dir = path_join [beatDir, ''core'', ''agents''] \<and> md = ''core'') \<or>
                   (\<exists>m \<in> set ms. dir = path_join [beatDir, m, ''agents''] \<and> md = m) \<or>
                   (\<exists>ds dname. readdirTypes fs (path_join [beatDir, ''agents'']) = Inr ds \<and>
                      (dname, Directory) \<in> set ds \<and>
                      dir = path_join [path_join [beatDir, ''agents''], dname] \<and>
                      md = ''standalone'')) \<and>
                  (\<exists>files. readdir fs dir = Inr files \<and>
                     (\<exists>file \<in> set files.
                        a = \<lparr>agent_path = path_join [dir, file],
                             agent_name = replace_first ''.md'' [] file, agent_module = md\<rparr> \<and>
                        endsWith file ''.md'' \<and> \<not> str_includes file ''.customize.'' \<and>
                        (\<exists>c. readFile fs (path_join [dir, file]) = Inr c \<and>
                             \<not> str_includes c (''localskip='' @ [dquote] @ ''true'' @ [dquote]))))))"
    by (intro allI impI) (rule getAgentsFromBeat_mem)
  ultimately show ?thesis by (intro conjI)
qed

theorem agent_scan_excludes_task_scan_keeps_witness:
  "readdir example_scan_dir ''/t'' = Inr [''a.customize.md'', ''b.md'', ''c.md''] \<and>
   getAgentsFromDir example_scan_dir ''/t'' ''core'' =
     Inr [\<lparr>agent_path = ''/t/c.md'', agent_name = ''c'', agent_module = ''core''\<rparr>] \<and>
   getTasksFromDir example_scan_dir ''/t'' ''core'' =
     Inr [\<lparr>agent_path = ''/t/a.customize.md'', agent_name = ''a.customize'', agent_module = ''core''\<rparr>,
          \<lparr>agent_path = ''/t/b.md'', agent_name = ''b'', agent_module = ''core''\<rparr>,
          \<lparr>agent_path = ''/t/c.md'', agent_name = ''c'', agent_module = ''core''\<rparr>] \<and>
   readdir example_standalone_tree ''/p/beat/agents/solo'' =
     Inr [''helper.md'', ''helper.customize.md'', ''skip.md''] \<and>
   getAgentsFromBeat example_standalone_tree ''/p/beat'' [] =
     Inr [\<lparr>agent_path = ''/p/beat/agents/solo/helper.md'', agent_name = ''helper'',
           agent_module = ''standalone''\<rparr>] \<and>
   \<lparr>agent_path = ''/p/beat/agents/solo/helper.customize.md'', agent_name = ''helper.customize'',
     agent_module = ''standalone''\<rparr>
     \<notin> set (case getAgentsFromBeat example_standalone_tree ''/p/beat'' [] of
               Inr found \<Rightarrow> found | Inl err \<Rightarrow> [])"
proof -
  have h1: "readdir example_scan_dir ''/t'' = Inr [''a.customize.md'', ''b.md'', ''c.md'']"
    by (simp add: example_scan_dir_def fs_eval)
  have h2: "getAgentsFromDir example_scan_dir ''/t'' ''core'' =
     Inr [\<lparr>agent_path = ''/t/c.md'', agent_name = ''c'', agent_module = ''core''\<rparr>]"
    by (simp add: example_scan_dir_def getAgentsFromDir_def fs_eval str_eval)
  note T = agent_scan_excludes_task_scan_keeps [OF h1 h2]
  have "getTasksFromDir example_scan_dir ''/t'' ''core'' =
     Inr (map (\<lambda>file. \<lparr>agent_path = path_join [''/t'', file],
                        agent_name = replace_first ''.md'' [] file, agent_module = ''core''\<rparr>)
            (filter (\<lambda>file. endsWith file ''.md'') [''a.customize.md'', ''b.md'', ''c.md'']))"
    using T by (rule conjunct2 [THEN conjunct1])
  then have h3: "getTasksFromDir example_scan_dir ''/t'' ''core'' =
     Inr [\<lparr>agent_path = ''/t/a.customize.md'', agent_name = ''a.customize'', agent_module = ''core''\<rparr>,
          \<lparr>agent_path = ''/t/b.md'', agent_name = ''b'', agent_module = ''core''\<rparr>,
          \<lparr>agent_path = ''/t/c.md'', agent_name = ''c'', agent_module = ''core''\<rparr>]"
    by (simp add: str_eval path_join_def)
  have h4: "readdir example_standalone_tree ''/p/beat/agents/solo'' =
     Inr [''helper.md'', ''helper.customize.md'', ''skip.md'']"
    by (simp add: example_standalone_tree_def fs_eval)
  have g1: "readdir example_standalone_tree ''/p/beat/bmm/agents'' = Inr [''pm.md'']"
    by (simp add: example_standalone_tree_def fs_eval)
  have g2: "getAgentsFromDir example_standalone_tree ''/p/beat/bmm/agents'' ''bmm'' =
     Inr [\<lparr>agent_path = ''/p/beat/bmm/agents/pm.md'', agent_name = ''pm'', agent_module = ''bmm''\<rparr>]"
    by (simp add: example_standalone_tree_def getAgentsFromDir_def fs_eval str_eval)
  have h5: "getAgentsFromBeat example_standalone_tree ''/p/beat'' [] =
     Inr [\<lparr>agent_path = ''/p/beat/agents/solo/helper.md'', agent_name = ''helper'',
           agent_module = ''standalone''\<rparr>]"
    by (simp add: example_standalone_tree_def getAgentsFromBeat_def getStandaloneAgents_def
          getAgentsFromDir_def fs_eval str_eval)
  have "\<lparr>agent_path = ''/p/beat/agents/solo/helper.md'', agent_name = ''helper'',
          agent_module = ''standalone''\<rparr>
        \<in> set [\<lparr>agent_path = ''/p/beat/agents/solo/helper.md'', agent_name = ''helper'',
                  agent_module = ''standalone''\<rparr>] \<longleftrightarrow>
        (\<exists>dir md.
                  ((dir = path_join [''/p/beat'', ''core'', ''agents''] \<and> md = ''core'') \<or>
                   (\<exists>m \<in> set []. dir = path_join [''/p/beat'', m, ''agents''] \<and> md = m) \<or>
                   (\<exists>ds dname. readdirTypes example_standalone_tree (path_join [''/p/beat'', ''agents'']) = Inr ds \<and>
                      (dname, Directory) \<in> set ds \<and>
                      dir = path_join [path_join [''/p/beat'', ''agents''], dname] \<and>
                      md = ''standalone'')) \<and>
                  (\<exists>files. readdir example_standalone_tree dir = Inr files \<and>
                     (\<exists>file \<in> set files.
                        \<lparr>agent_path = ''/p/beat/agents/solo/helper.md'', agent_name = ''helper'',
                          agent_module = ''standalone''\<rparr> = \<lparr>agent_path = path_join [dir, file],
                             agent_name = replace_first ''.md'' [] file, agent_module = md\<rparr> \<and>
                        endsWith file ''.md'' \<and> \<not> str_includes file ''.customize.'' \<and>
                        (\<exists>c. readFile example_standalone_tree (path_join [dir, file]) = Inr c \<and>
                             \<not> str_includes c (''localskip='' @ [dquote] @ ''true'' @ [dquote])))))"
    by (rule agent_scan_excludes_task_scan_keeps [OF g1 g2, THEN conjunct2, THEN conjunct2,
          rule_format, OF h5])
  have h6: "\<lparr>agent_path = ''/p/beat/agents/solo/helper.customize.md'',
       agent_name = ''helper.customize'', agent_module = ''standalone''\<rparr>
     \<notin> set (case getAgentsFromBeat example_standalone_tree ''/p/beat'' [] of
               Inr found \<Rightarrow> found | Inl err \<Rightarrow> [])"
    by (simp add: h5)
  show ?thesis by (intro conjI h1 h2 h3 h4 h5 h6)
qed

text \<open>
  Claim C4 as stated fails for tasks: a task file whose name contains \<^verbatim>\<open>.customize.\<close> and
  whose content contains \<^verbatim>\<open>localskip="true"\<close> is collected.
\<close>

theorem task_scan_keeps_customize_file:
  "str_includes ''a.customize.md'' ''.customize.'' \<and>
   readFile example_scan_dir ''/t/a.customize.md'' =
     Inr (''<agent localskip='' @ [dquote] @ ''true'' @ [dquote] @ ''>'') \<and>
   str_includes (''<agent localskip='' @ [dquote] @ ''true'' @ [dquote] @ ''>'')
     (''localskip='' @ [dquote] @ ''true'' @ [dquote]) \<and>
   getTasksFromDir example_scan_dir ''/t'' ''core'' =
     Inr [\<lparr>agent_path = ''/t/a.customize.md'', agent_name = ''a.customize'', agent_module = ''core''\<rparr>,
          \<lparr>agent_path = ''/t/b.md'', agent_name = ''b'', agent_module = ''core''\<rparr>,
          \<lparr>agent_path = ''/t/c.md'', agent_name = ''c'', agent_module = ''core''\<rparr>]"
  by (simp add: example_scan_dir_def getTasksFromDir_def fs_eval str_eval)

section \<open>Missing directories\<close>

lemma collectModules_skip:
  "\<not> pathExists fs (path_join [beatDir, m, kind]) \<Longrightarrow>
   collectModules get kind fs beatDir (ms1 @ m # ms2) = collectModules get kind fs beatDir (ms1 @ ms2)"
  by (induction ms1) (auto split: sum.splits)

lemma collectModules_none:
  "\<forall>m \<in> set ms. \<not> pathExists fs (path_join [beatDir, m, kind]) \<Longrightarrow>
   collectModules get kind fs beatDir ms = Inr []"
  by (induction ms) auto

lemma join_with_Cons:
  "join_with sep (x # xs) = (if xs = [] then x else x @ sep @ join_with sep xs)"
  by (cases xs) auto

lemma under_path_join: "d \<noteq> [] \<Longrightarrow> under d (path_join (d # rest))"
  by (auto simp: under_def path_join_def Let_def join_with_Cons)

text \<open>
  Claim C5, as the code has it. Collection never signals a missing installation. When
  nothing exists at or below \<^verbatim>\<open>beatDir\<close>, the agent list and the task list are empty and
  no error is returned. A missing \<^verbatim>\<open>core/tasks\<close> contributes nothing and the result is what
  the selected modules give; a missing \<^verbatim>\<open>core/agents\<close> contributes nothing and the result is
  what the selected modules and the standalone area give; a missing standalone area
  contributes nothing; and a selected module whose \<^verbatim>\<open>{module}/{kind}\<close> directory is missing
  contributes nothing, as if it had not been selected.
\<close>

theorem missing_directories_contribute_nothing:
  "(beatDir \<noteq> [] \<and> (\<forall>q. under beatDir q \<longrightarrow> \<not> pathExists fs q) \<longrightarrow>
      getAgentsFromBeat fs beatDir ms = Inr [] \<and> getTasksFromBeat fs beatDir ms = Inr []) \<and>
   (\<not> pathExists fs (path_join [beatDir, ''core'', ''tasks'']) \<longrightarrow>
      getTasksFromBeat fs beatDir ms = collectModules getTasksFromDir ''tasks'' fs beatDir ms) \<and>
   (\<not> pathExists fs (path_join [beatDir, ''core'', ''agents'']) \<longrightarrow>
      getAgentsFromBeat fs beatDir ms =
        bindE (collectModules getAgentsFromDir ''agents'' fs beatDir ms) (\<lambda>moduleAgents.
        bindE (getStandaloneAgents fs beatDir) (\<lambda>standalone.
          Inr (moduleAgents @ standalone)))) \<and>
   (\<not> pathExists fs (path_join [beatDir, ''agents'']) \<longrightarrow>
      getStandaloneAgents fs beatDir = Inr []) \<and>
   (\<not> pathExists fs (path_join [beatDir, ''core'', ''agents'']) \<and>
    \<not> pathExists fs (path_join [beatDir, ''agents'']) \<longrightarrow>
      getAgentsFromBeat fs beatDir ms = collectModules getAgentsFromDir ''agents'' fs beatDir ms) \<and>
   (\<not> pathExists fs (path_join [beatDir, m, ''agents'']) \<longrightarrow>
      getAgentsFromBeat fs beatDir (ms1 @ m # ms2) = getAgentsFromBeat fs beatDir (ms1 @ ms2)) \<and>
   (\<not> pathExists fs (path_join [beatDir, m, ''tasks'']) \<longrightarrow>
      getTasksFromBeat fs beatDir (ms1 @ m # ms2) = getTasksFromBeat fs beatDir (ms1 @ ms2))"
proof (intro conjI impI)
  assume a: "beatDir \<noteq> [] \<and> (\<forall>q. under beatDir q \<longrightarrow> \<not> pathExists fs q)"
  then have none: "\<not> pathExists fs (path_join (beatDir # rest))" for rest
    using under_path_join by blast
  have mods: "collectModules get kind fs beatDir ms = Inr []" for get kind
    by (rule collectModules_none) (simp add: none)
  show "getAgentsFromBeat fs beatDir ms = Inr []"
    by (simp add: getAgentsFromBeat_def getStandaloneAgents_def none mods bindE_def)
  show "getTasksFromBeat fs beatDir ms = Inr []"
    by (simp add: getTasksFromBeat_def none mods bindE_def)
next
  assume "\<not> pathExists fs (path_join [beatDir, ''core'', ''tasks''])"
  then show "getTasksFromBeat fs beatDir ms = collectModules getTasksFromDir ''tasks'' fs beatDir ms"
    by (simp add: getTasksFromBeat_def bindE_def split: sum.splits)
next
  assume "\<not> pathExists fs (path_join [beatDir, ''core'', ''agents''])"
  then show "getAgentsFromBeat fs beatDir ms =
        bindE (collectModules getAgentsFromDir ''agents'' fs beatDir ms) (\<lambda>moduleAgents.
        bindE (getStandaloneAgents fs beatDir) (\<lambda>standalone.
          Inr (moduleAgents @ standalone)))"
    by (simp add: getAgentsFromBeat_def bindE_def split: sum.splits)
next
  assume "\<not> pathExists fs (path_join [beatDir, ''agents''])"
  then show "getStandaloneAgents fs beatDir = Inr []"
    by (simp add: getStandaloneAgents_def)
next
  assume "\<not> pathExists fs (path_join [beatDir, ''core'', ''agents'']) \<and>
    \<not> pathExists fs (path_join [beatDir, ''agents''])"
  then show "getAgentsFromBeat fs beatDir ms = collectModules getAgentsFromDir ''agents'' fs beatDir ms"
    by (simp add: getAgentsFromBeat_def getStandaloneAgents_def bindE_def split: sum.splits)
next
  assume "\<not> pathExists fs (path_join [beatDir, m, ''agents''])"
  then show "getAgentsFromBeat fs beatDir (ms1 @ m # ms2) = getAgentsFromBeat fs beatDir (ms1 @ ms2)"
    by (simp add: getAgentsFromBeat_def collectModules_skip)
next
  assume "\<not> pathExists fs (path_join [beatDir, m, ''tasks''])"
  then show "getTasksFromBeat fs beatDir (ms1 @ m # ms2) = getTasksFromBeat fs beatDir (ms1 @ ms2)"
    by (simp add: getTasksFromBeat_def collectModules_skip)
qed

theorem missing_directories_contribute_nothing_witness:
  "getAgentsFromBeat [] ''/p/beat'' [''bmm''] = Inr [] \<and>
   getTasksFromBeat [] ''/p/beat'' [''bmm''] = Inr [] \<and>
   \<not> pathExists example_modules_tree ''/p/beat/core/tasks'' \<and>
   getTasksFromBeat example_modules_tree ''/p/beat'' [''bmm''] =
     Inr [\<lparr>agent_path = ''/p/beat/bmm/tasks/plan.md'', agent_name = ''plan'', agent_module = ''bmm''\<rparr>] \<and>
   \<not> pathExists example_standalone_tree ''/p/beat/core/agents'' \<and>
   pathExists example_standalone_tree ''/p/beat/agents'' \<and>
   getAgentsFromBeat example_standalone_tree ''/p/beat'' [''bmm''] =
     Inr [\<lparr>agent_path = ''/p/beat/bmm/agents/pm.md'', agent_name = ''pm'', agent_module = ''bmm''\<rparr>,
          \<lparr>agent_path = ''/p/beat/agents/solo/helper.md'', agent_name = ''helper'',
            agent_module = ''standalone''\<rparr>] \<and>
   \<not> pathExists example_modules_tree ''/p/beat/agents'' \<and>
   getStandaloneAgents example_modules_tree ''/p/beat'' = Inr [] \<and>
   \<not> pathExists example_modules_tree ''/p/beat/core/agents'' \<and>
   getAgentsFromBeat example_modules_tree ''/p/beat'' [''bmm''] =
     Inr [\<lparr>agent_path = ''/p/beat/bmm/agents/pm.md'', agent_name = ''pm'', agent_module = ''bmm''\<rparr>] \<and>
   \<not> pathExists example_modules_tree ''/p/beat/cis/agents'' \<and>
   getAgentsFromBeat example_modules_tree ''/p/beat'' [''cis'', ''bmm''] =
     Inr [\<lparr>agent_path = ''/p/beat/bmm/agents/pm.md'', agent_name = ''pm'', agent_module = ''bmm''\<rparr>] \<and>
   \<not> pathExists example_modules_tree ''/p/beat/cis/tasks'' \<and>
   getTasksFromBeat example_modules_tree ''/p/beat'' [''cis'', ''bmm''] =
     Inr [\<lparr>agent_path = ''/p/beat/bmm/tasks/plan.md'', agent_name = ''plan'', agent_module = ''bmm''\<rparr>]"
proof -
  note T = missing_directories_contribute_nothing
  have e1: "''/p/beat'' \<noteq> [] \<and> (\<forall>q. under ''/p/beat'' q \<longrightarrow> \<not> pathExists [] q)"
    by (simp add: pathExists_def)
  have c1: "getAgentsFromBeat [] ''/p/beat'' [''bmm''] = Inr [] \<and>
            getTasksFromBeat [] ''/p/beat'' [''bmm''] = Inr []"
    using T [of "''/p/beat''" "[]" "[''bmm'']"] e1 by blast
  have e2: "\<not> pathExists example_modules_tree (path_join [''/p/beat'', ''core'', ''tasks''])"
    by (simp add: example_modules_tree_def fs_eval)
  have m1: "collectModules getTasksFromDir ''tasks'' example_modules_tree ''/p/beat'' [''bmm''] =
     Inr [\<lparr>agent_path = ''/p/beat/bmm/tasks/plan.md'', agent_name = ''plan'', agent_module = ''bmm''\<rparr>]"
    by (simp add: example_modules_tree_def getTasksFromDir_def fs_eval str_eval)
  have c2: "getTasksFromBeat example_modules_tree ''/p/beat'' [''bmm''] =
     Inr [\<lparr>agent_path = ''/p/beat/bmm/tasks/plan.md'', agent_name = ''plan'', agent_module = ''bmm''\<rparr>]"
    using T [of "''/p/beat''" example_modules_tree "[''bmm'']", THEN conjunct2, THEN conjunct1,
        rule_format, OF e2]
    by (simp only: m1)
  have s0: "\<not> pathExists example_standalone_tree (path_join [''/p/beat'', ''core'', ''agents''])"
    by (simp add: example_standalone_tree_def fs_eval)
  have s1: "pathExists example_standalone_tree ''/p/beat/agents''"
    by (simp add: example_standalone_tree_def fs_eval)
  have s2: "collectModules getAgentsFromDir ''agents'' example_standalone_tree ''/p/beat'' [''bmm''] =
     Inr [\<lparr>agent_path = ''/p/beat/bmm/agents/pm.md'', agent_name = ''pm'', agent_module = ''bmm''\<rparr>]"
    by (simp add: example_standalone_tree_def getAgentsFromDir_def fs_eval str_eval)
  have s3: "getStandaloneAgents example_standalone_tree ''/p/beat'' =
     Inr [\<lparr>agent_path = ''/p/beat/agents/solo/helper.md'', agent_name = ''helper'',
            agent_module = ''standalone''\<rparr>]"
    by (simp add: example_standalone_tree_def getStandaloneAgents_def fs_eval str_eval)
  have c6: "getAgentsFromBeat example_standalone_tree ''/p/beat'' [''bmm''] =
     Inr [\<lparr>agent_path = ''/p/beat/bmm/agents/pm.md'', agent_name = ''pm'', agent_module = ''bmm''\<rparr>,
          \<lparr>agent_path = ''/p/beat/agents/solo/helper.md'', agent_name = ''helper'',
            agent_module = ''standalone''\<rparr>]"
    unfolding T [of "''/p/beat''" example_standalone_tree "[''bmm'']", THEN conjunct2, THEN conjunct2,
        THEN conjunct1, rule_format, OF s0] s2 s3
    by (simp add: bindE_def)
  have e3: "\<not> pathExists example_modules_tree (path_join [''/p/beat'', ''core'', ''agents'']) \<and>
            \<not> pathExists example_modules_tree (path_join [''/p/beat'', ''agents''])"
    by (simp add: example_modules_tree_def fs_eval)
  have c7: "getStandaloneAgents example_modules_tree ''/p/beat'' = Inr []"
    using T [of "''/p/beat''" example_modules_tree, THEN conjunct2, THEN conjunct2,
        THEN conjunct2, THEN conjunct1, rule_format, OF e3 [THEN conjunct2]] .
  have m2: "collectModules getAgentsFromDir ''agents'' example_modules_tree ''/p/beat'' [''bmm''] =
     Inr [\<lparr>agent_path = ''/p/beat/bmm/agents/pm.md'', agent_name = ''pm'', agent_module = ''bmm''\<rparr>]"
    by (simp add: example_modules_tree_def getAgentsFromDir_def fs_eval str_eval)
  have c3: "getAgentsFromBeat example_modules_tree ''/p/beat'' [''bmm''] =
     Inr [\<lparr>agent_path = ''/p/beat/bmm/agents/pm.md'', agent_name = ''pm'', agent_module = ''bmm''\<rparr>]"
    using T [of "''/p/beat''" example_modules_tree "[''bmm'']", THEN conjunct2, THEN conjunct2,
        THEN conjunct2, THEN conjunct2, THEN conjunct1, rule_format, OF e3]
    by (simp only: m2)
  have e4: "\<not> pathExists example_modules_tree (path_join [''/p/beat'', ''cis'', ''agents''])"
    by (simp add: example_modules_tree_def fs_eval)
  have c4: "getAgentsFromBeat example_modules_tree ''/p/beat'' [''cis'', ''bmm''] =
     Inr [\<lparr>agent_path = ''/p/beat/bmm/agents/pm.md'', agent_name = ''pm'', agent_module = ''bmm''\<rparr>]"
    using T [of "''/p/beat''" example_modules_tree _ "''cis''" "[]" "[''bmm'']", THEN conjunct2,
        THEN conjunct2, THEN conjunct2, THEN conjunct2, THEN conjunct2, THEN conjunct1,
        rule_format, OF e4] c3
    by simp
  have e5: "\<not> pathExists example_modules_tree (path_join [''/p/beat'', ''cis'', ''tasks''])"
    by (simp add: example_modules_tree_def fs_eval)
  have c5: "getTasksFromBeat example_modules_tree ''/p/beat'' [''cis'', ''bmm''] =
     Inr [\<lparr>agent_path = ''/p/beat/bmm/tasks/plan.md'', agent_name = ''plan'', agent_module = ''bmm''\<rparr>]"
    using T [of "''/p/beat''" example_modules_tree _ "''cis''" "[]" "[''bmm'']", THEN conjunct2,
        THEN conjunct2, THEN conjunct2, THEN conjunct2, THEN conjunct2, THEN conjunct2,
        rule_format, OF e5] c2
    by simp
  have p: "path_join [''/p/beat'', ''core'', ''tasks''] = ''/p/beat/core/tasks''"
    "path_join [''/p/beat'', ''core'', ''agents''] = ''/p/beat/core/agents''"
    "path_join [''/p/beat'', ''agents''] = ''/p/beat/agents''"
    "path_join [''/p/beat'', ''cis'', ''agents''] = ''/p/beat/cis/agents''"
    "path_join [''/p/beat'', ''cis'', ''tasks''] = ''/p/beat/cis/tasks''"
    by (simp_all add: path_join_def)
  show ?thesis using c1 c2 c3 c4 c5 c6 c7 e2 e3 e4 e5 s0 s1 unfolding p by blast
qed

text \<open>
  Claim C5 as stated fails: with the content root missing altogether, collecting agents or
  tasks returns the empty list and no error.
\<close>

theorem missing_installation_raises_no_error:
  "\<not> pathExists [] ''/p/beat'' \<and> \<not> pathExists [] ''/p/beat/core/agents'' \<and>
   getAgentsFromBeat [] ''/p/beat'' [] = Inr [] \<and> getTasksFromBeat [] ''/p/beat'' [] = Inr []"
  by (simp add: getAgentsFromBeat_def getStandaloneAgents_def getTasksFromBeat_def fs_eval)

section \<open>Cleanup is scoped to each adapter's policy\<close>

lemmas action_eval =
  bindA_def returnA_def readA_def fs_remove_def fs_writeFile_def fs_ensureDir_def
  writeFile_def ensureDir_def dir_chain_def parent_of_def stat_def

lemma scopedD:
  assumes "scoped P m"
  shows "set (disk (snd (m w))) \<subseteq> set (disk w)"
    and "(q, nd) \<in> set (disk w) \<Longrightarrow> (q, nd) \<in> set (disk (snd (m w))) \<or> P q"
  using assms unfolding scoped_def by blast+

lemma scoped_returnA: "scoped P (returnA x)"
  by (auto simp: scoped_def returnA_def)

lemma scoped_readA: "scoped P (readA r)"
  by (auto simp: scoped_def readA_def)

lemma scoped_bindA:
  assumes "scoped P m" and "\<And>x. scoped P (f x)"
  shows "scoped P (bindA m f)"
  unfolding scoped_def
proof (intro allI)
  fix w
  obtain r w1 where mw: "m w = (r, w1)" by (cases "m w")
  have s1: "set (disk w1) \<subseteq> set (disk w)"
    and k1: "\<forall>(q, nd) \<in> set (disk w). (q, nd) \<in> set (disk w1) \<or> P q"
    using scopedD [OF assms(1), where w = w] mw by auto
  show "set (disk (snd (bindA m f w))) \<subseteq> set (disk w) \<and>
          (\<forall>(q, nd) \<in> set (disk w). (q, nd) \<in> set (disk (snd (bindA m f w))) \<or> P q)"
  proof (cases r)
    case (Inl e)
    then show ?thesis using mw s1 k1 by (simp add: bindA_def)
  next
    case (Inr x)
    have s2: "set (disk (snd (f x w1))) \<subseteq> set (disk w1)"
      and k2: "\<forall>(q, nd) \<in> set (disk w1). (q, nd) \<in> set (disk (snd (f x w1))) \<or> P q"
      using scopedD [OF assms(2), where w = w1 and x1 = x] by auto
    have "snd (bindA m f w) = snd (f x w1)" using mw Inr by (simp add: bindA_def)
    then show ?thesis using s1 k1 s2 k2 by fastforce
  qed
qed

lemma scoped_forEachA:
  assumes "\<And>x. x \<in> set xs \<Longrightarrow> scoped P (f x)"
  shows "scoped P (forEachA f xs)"
  using assms by (induction xs) (auto intro: scoped_returnA scoped_bindA)

lemma scoped_fs_remove: "(\<And>q. under p q \<Longrightarrow> P q) \<Longrightarrow> scoped P (fs_remove p)"
  by (auto simp: scoped_def fs_remove_def)

lemma scoped_if: "(c \<Longrightarrow> scoped P a) \<Longrightarrow> (\<not> c \<Longrightarrow> scoped P b) \<Longrightarrow> scoped P (if c then a else b)"
  by simp

lemma readdir_names_plain:
  assumes "readdir fs d = Inr files" and "file \<in> set files"
  shows "file \<noteq> [] \<and> CHR ''/'' \<notin> set file"
proof -
  from assms(1) have "files = map fst (children fs d)"
    by (auto simp: readdir_def readdirTypes_def bindE_def split: option.splits node.splits)
  with assms(2) obtain q nd where "child_name d q = Some file"
    by (auto simp: children_def List.map_filter_def split: prod.splits)
  then show ?thesis
    by (auto simp: child_name_def Let_def split: if_splits)
qed

lemma scoped_readdir:
  assumes "\<And>files. \<forall>file \<in> set files. file \<noteq> [] \<and> CHR ''/'' \<notin> set file \<Longrightarrow> scoped P (k files)"
  shows "scoped P (bindA (readA (\<lambda>fs. readdir fs d)) k)"
  unfolding scoped_def
proof (intro allI)
  fix w
  show "set (disk (snd (bindA (readA (\<lambda>fs. readdir fs d)) k w))) \<subseteq> set (disk w) \<and>
        (\<forall>(q, nd) \<in> set (disk w).
            (q, nd) \<in> set (disk (snd (bindA (readA (\<lambda>fs. readdir fs d)) k w))) \<or> P q)"
  proof (cases "readdir (disk w) d")
    case (Inl err)
    then show ?thesis by (auto simp: bindA_def readA_def)
  next
    case (Inr files)
    then have "\<forall>file \<in> set files. file \<noteq> [] \<and> CHR ''/'' \<notin> set file"
      using readdir_names_plain by blast
    from assms [OF this] have "scoped P (k files)" .
    moreover have "bindA (readA (\<lambda>fs. readdir fs d)) k w = k files w"
      using Inr by (simp add: bindA_def readA_def)
    ultimately show ?thesis unfolding scoped_def by simp
  qed
qed

lemma scoped_trae:
  "scoped (\<lambda>q. \<exists>file. file \<noteq> [] \<and> CHR ''/'' \<notin> set file \<and>
                startsWith file ''beat-'' \<and> endsWith file ''.md'' \<and>
                under (path_join [path_join [projectDir, ''.trae'', ''rules''], file]) q)
     (trae_cleanup projectDir)"
  unfolding trae_cleanup_def Let_def
  by (intro scoped_readdir scoped_bindA scoped_readA scoped_if scoped_forEachA scoped_returnA
        scoped_fs_remove) blast

lemma scoped_opencode:
  "scoped (\<lambda>q. \<exists>file. file \<noteq> [] \<and> CHR ''/'' \<notin> set file \<and>
                startsWith file ''beat-'' \<and> endsWith file ''.md'' \<and>
                (under (path_join [path_join [projectDir, ''.opencode'', ''agent''], file]) q \<or>
                 under (path_join [path_join [projectDir, ''.opencode'', ''command''], file]) q))
     (opencode_cleanup projectDir)"
  unfolding opencode_cleanup_def Let_def
  by (intro scoped_readdir scoped_bindA scoped_readA scoped_if scoped_forEachA scoped_returnA
        scoped_fs_remove) blast+

lemma scoped_case_node:
  "(\<And>c. scoped P (a c)) \<Longrightarrow> scoped P b \<Longrightarrow> scoped P (case nd of File c \<Rightarrow> a c | Directory \<Rightarrow> b)"
  by (cases nd) auto

lemma scoped_clearOldBeatFiles:
  "scoped (\<lambda>q. \<exists>entry. entry \<noteq> [] \<and> CHR ''/'' \<notin> set entry \<and>
                 startsWith entry ''beat-'' \<and> under (path_join [destDir, entry]) q)
     (clearOldBeatFiles destDir)"
  unfolding clearOldBeatFiles_def
  by (intro scoped_readdir scoped_bindA scoped_readA scoped_if scoped_forEachA scoped_returnA
        scoped_case_node scoped_fs_remove) blast+

lemma scoped_cursor:
  "scoped (under (path_join [projectDir, ''.cursor'', ''rules'', ''beat''])) (cursor_cleanup projectDir)"
  unfolding cursor_cleanup_def Let_def
  by (intro scoped_bindA scoped_readA scoped_if scoped_returnA scoped_fs_remove)

lemma scoped_windsurf:
  "scoped (under (path_join [projectDir, ''.windsurf'', ''workflows'', ''beat''])) (windsurf_cleanup projectDir)"
  unfolding windsurf_cleanup_def Let_def
  by (intro scoped_bindA scoped_readA scoped_if scoped_returnA scoped_fs_remove)

lemma scoped_auggie:
  "scoped (under (path_join [path_join [projectDir, ''.augment'', ''commands''], ''beat''])) (auggie_cleanup projectDir)"
  unfolding auggie_cleanup_def Let_def
  by (intro scoped_bindA scoped_readA scoped_if scoped_returnA scoped_fs_remove)

lemma scoped_iflow:
  "scoped (under (path_join [projectDir, ''.iflow'', ''commands'', ''beat''])) (iflow_cleanup projectDir)"
  unfolding iflow_cleanup_def Let_def
  by (intro scoped_bindA scoped_readA scoped_if scoped_returnA scoped_fs_remove)

lemma scoped_qwen:
  "scoped (\<lambda>q. under (path_join [projectDir, ''.qwen'', ''commands'', ''beat'']) q \<or>
               under (path_join [projectDir, ''.qwen'', ''beat-method'']) q \<or>
               under (path_join [projectDir, ''.qwen'', ''Beat'']) q) (qwen_cleanup projectDir)"
  unfolding qwen_cleanup_def Let_def
  by (intro scoped_bindA scoped_readA scoped_if scoped_returnA scoped_fs_remove) blast+

lemma scoped_qwen_old:
  "scoped (\<lambda>q. under (path_join [qwenDir, ''agents'']) q \<or>
               under (path_join [qwenDir, ''beat-method'']) q \<or>
               under (path_join [qwenDir, ''beatDir'']) q) (qwen_cleanupOldConfig qwenDir)"
  unfolding qwen_cleanupOldConfig_def Let_def
  by (intro scoped_bindA scoped_readA scoped_if scoped_returnA scoped_fs_remove) blast+

lemma path_join_nonempty: "path_join segs \<noteq> []"
proof -
  have "join_with ''/'' xs \<noteq> []" if "xs \<noteq> []" "\<forall>x \<in> set xs. x \<noteq> []" for xs :: "string list"
    using that by (induction xs rule: join_with.induct) auto
  then show ?thesis by (auto simp: path_join_def Let_def)
qed

lemma path_join_pair: "d \<noteq> [] \<Longrightarrow> n \<noteq> [] \<Longrightarrow> path_join [d, n] = d @ ''/'' @ n"
  by (simp add: path_join_def)

lemma under_sibling_plain:
  assumes "d \<noteq> []" and "file \<noteq> []" and "CHR ''/'' \<notin> set n"
    and "under (path_join [d, file]) (path_join [d, n])"
  shows "n = file"
proof (cases "n = []")
  case True
  then have "path_join [d, n] = d" using assms(1) by (simp add: path_join_def)
  with assms show ?thesis by (auto simp: under_def path_join_pair prefix_def)
next
  case False
  with assms(1,2,4) have "n = file \<or> prefix (file @ ''/'') n"
    by (auto simp: under_def path_join_pair)
  moreover have "\<not> prefix (file @ ''/'') n"
    using assms(3) by (auto simp: prefix_def)
  ultimately show ?thesis by blast
qed

lemma takeWhile_plain:
  "CHR ''/'' \<notin> set f \<Longrightarrow> r = [] \<or> hd r = CHR ''/'' \<Longrightarrow>
   takeWhile (\<lambda>c. c \<noteq> CHR ''/'') (f @ r) = f"
proof -
  assume f: "CHR ''/'' \<notin> set f" and r: "r = [] \<or> hd r = CHR ''/''"
  from r have "takeWhile (\<lambda>c. c \<noteq> CHR ''/'') r = []" by (cases r) auto
  with f show ?thesis by (induction f) auto
qed

lemma under_entry_rest:
  assumes "d \<noteq> []" and "f \<noteq> []" and "under (path_join [d, f]) q"
  shows "\<exists>r. q = d @ ''/'' @ f @ r \<and> (r = [] \<or> hd r = CHR ''/'')"
proof -
  from assms have "q = d @ ''/'' @ f \<or> prefix ((d @ ''/'' @ f) @ ''/'') q"
    by (simp add: under_def path_join_pair)
  then show ?thesis
  proof
    assume "q = d @ ''/'' @ f"
    then show ?thesis by simp
  next
    assume "prefix ((d @ ''/'' @ f) @ ''/'') q"
    then obtain t where "q = (d @ ''/'' @ f) @ ''/'' @ t" by (auto simp: prefix_def)
    then have "q = d @ ''/'' @ f @ (CHR ''/'' # t)" by simp
    then show ?thesis by (intro exI [of _ "CHR ''/'' # t"]) simp
  qed
qed

lemma under_same_entry:
  assumes "d \<noteq> []" and "f \<noteq> []" and "n \<noteq> []"
    and "CHR ''/'' \<notin> set f" and "CHR ''/'' \<notin> set n"
    and "under (path_join [d, f]) q" and "under (path_join [d, n]) q"
  shows "f = n"
proof -
  from under_entry_rest [OF assms(1,2,6)] obtain r1 where
    r1: "q = d @ ''/'' @ f @ r1" "r1 = [] \<or> hd r1 = CHR ''/''" by blast
  from under_entry_rest [OF assms(1,3,7)] obtain r2 where
    r2: "q = d @ ''/'' @ n @ r2" "r2 = [] \<or> hd r2 = CHR ''/''" by blast
  from r1(1) r2(1) have "f @ r1 = n @ r2" by simp
  then have "takeWhile (\<lambda>c. c \<noteq> CHR ''/'') (f @ r1) = takeWhile (\<lambda>c. c \<noteq> CHR ''/'') (n @ r2)"
    by simp
  then show ?thesis
    using takeWhile_plain [OF assms(4) r1(2)] takeWhile_plain [OF assms(5) r2(2)] by simp
qed


lemma path_join_triple:
  "a \<noteq> [] \<Longrightarrow> b \<noteq> [] \<Longrightarrow> path_join [p, a, b] = path_join [p, a] @ ''/'' @ b"
  by (simp add: path_join_def)

lemma opencode_dirs_apart:
  assumes "under (path_join [path_join [projectDir, ''.opencode'', x], f]) q"
    and "under (path_join [path_join [projectDir, ''.opencode'', y], n]) q"
    and "f \<noteq> []" and "n \<noteq> []"
    and "(x = ''agent'' \<and> y = ''command'') \<or> (x = ''command'' \<and> y = ''agent'')"
  shows False
proof -
  let ?b = "path_join [projectDir, ''.opencode'']"
  from assms(5) have x: "path_join [projectDir, ''.opencode'', x] = ?b @ ''/'' @ x" "x \<noteq> []"
    and y: "path_join [projectDir, ''.opencode'', y] = ?b @ ''/'' @ y" "y \<noteq> []"
    by (auto simp: path_join_triple)
  have ne: "?b @ ''/'' @ x \<noteq> []" "?b @ ''/'' @ y \<noteq> []" by simp_all
  from under_entry_rest [OF ne(1) assms(3)] assms(1) x obtain r1 where
    "q = (?b @ ''/'' @ x) @ ''/'' @ f @ r1" by auto
  moreover from under_entry_rest [OF ne(2) assms(4)] assms(2) y obtain r2 where
    "q = (?b @ ''/'' @ y) @ ''/'' @ n @ r2" by auto
  ultimately have "x @ ''/'' @ f @ r1 = y @ ''/'' @ n @ r2" by simp
  with assms(5) show False by auto
qed

text \<open>
  Claim C1, as the code has it. Every cleanup leaves each path it is not told to delete as it
  was, adds nothing and changes nothing; what it may delete is fixed per adapter. Trae and
  OpenCode delete the entries of their directory whose name is \<^verbatim>\<open>beat-*.md\<close>, with what lies
  below such an entry; Codex and Cline delete the entries whose name starts with \<^verbatim>\<open>beat-\<close>;
  Cursor, Windsurf, Auggie and iFlow delete their \<^verbatim>\<open>beat\<close> subdirectory; Qwen's cleanup
  deletes \<^verbatim>\<open>commands/beat\<close>, \<^verbatim>\<open>beat-method\<close> and \<^verbatim>\<open>Beat\<close>; and Qwen's \<^verbatim>\<open>cleanupOldConfig\<close>
  deletes the three directories of \<^verbatim>\<open>.qwen\<close> that its code names, one of which, \<^verbatim>\<open>agents\<close>,
  carries no marker. An entry name is a non-empty name without a slash. Under Trae and
  OpenCode every entry not named \<^verbatim>\<open>beat-*.md\<close>, and under Codex and Cline every entry whose
  name does not start with \<^verbatim>\<open>beat-\<close>, is still there afterwards, with all that lies below it.
\<close>

theorem cleanup_scoped_to_policy:
  "(set (disk (snd (trae_cleanup projectDir w))) \<subseteq> set (disk w) \<and>
    (\<forall>(q, nd) \<in> set (disk w).
        (q, nd) \<in> set (disk (snd (trae_cleanup projectDir w))) \<or>
        (\<exists>file. file \<noteq> [] \<and> CHR ''/'' \<notin> set file \<and>
           startsWith file ''beat-'' \<and> endsWith file ''.md'' \<and>
           under (path_join [path_join [projectDir, ''.trae'', ''rules''], file]) q)) \<and>
    (\<forall>n q nd. n \<noteq> [] \<and> CHR ''/'' \<notin> set n \<and> \<not> (startsWith n ''beat-'' \<and> endsWith n ''.md'') \<and>
        under (path_join [path_join [projectDir, ''.trae'', ''rules''], n]) q \<and>
        (q, nd) \<in> set (disk w) \<longrightarrow>
        (q, nd) \<in> set (disk (snd (trae_cleanup projectDir w))))) \<and>
   (set (disk (snd (opencode_cleanup projectDir w))) \<subseteq> set (disk w) \<and>
    (\<forall>(q, nd) \<in> set (disk w).
        (q, nd) \<in> set (disk (snd (opencode_cleanup projectDir w))) \<or>
        (\<exists>file. file \<noteq> [] \<and> CHR ''/'' \<notin> set file \<and>
           startsWith file ''beat-'' \<and> endsWith file ''.md'' \<and>
           (under (path_join [path_join [projectDir, ''.opencode'', ''agent''], file]) q \<or>
            under (path_join [path_join [projectDir, ''.opencode'', ''command''], file]) q))) \<and>
    (\<forall>n q nd. n \<noteq> [] \<and> CHR ''/'' \<notin> set n \<and> \<not> (startsWith n ''beat-'' \<and> endsWith n ''.md'') \<and>
        (under (path_join [path_join [projectDir, ''.opencode'', ''agent''], n]) q \<or>
         under (path_join [path_join [projectDir, ''.opencode'', ''command''], n]) q) \<and>
        (q, nd) \<in> set (disk w) \<longrightarrow>
        (q, nd) \<in> set (disk (snd (opencode_cleanup projectDir w))))) \<and>
   (set (disk (snd (clearOldBeatFiles destDir w))) \<subseteq> set (disk w) \<and>
    (\<forall>(q, nd) \<in> set (disk w).
        (q, nd) \<in> set (disk (snd (clearOldBeatFiles destDir w))) \<or>
        (\<exists>entry. entry \<noteq> [] \<and> CHR ''/'' \<notin> set entry \<and>
           startsWith entry ''beat-'' \<and> under (path_join [destDir, entry]) q)) \<and>
    (\<forall>n q nd. destDir \<noteq> [] \<and> n \<noteq> [] \<and> CHR ''/'' \<notin> set n \<and> \<not> startsWith n ''beat-'' \<and>
        under (path_join [destDir, n]) q \<and> (q, nd) \<in> set (disk w) \<longrightarrow>
        (q, nd) \<in> set (disk (snd (clearOldBeatFiles destDir w))))) \<and>
   (set (disk (snd (cursor_cleanup projectDir w))) \<subseteq> set (disk w) \<and>
    (\<forall>(q, nd) \<in> set (disk w).
        (q, nd) \<in> set (disk (snd (cursor_cleanup projectDir w))) \<or>
        under (path_join [projectDir, ''.cursor'', ''rules'', ''beat'']) q)) \<and>
   (set (disk (snd (windsurf_cleanup projectDir w))) \<subseteq> set (disk w) \<and>
    (\<forall>(q, nd) \<in> set (disk w).
        (q, nd) \<in> set (disk (snd (windsurf_cleanup projectDir w))) \<or>
        under (path_join [projectDir, ''.windsurf'', ''workflows'', ''beat'']) q)) \<and>
   (set (disk (snd (auggie_cleanup projectDir w))) \<subseteq> set (disk w) \<and>
    (\<forall>(q, nd) \<in> set (disk w).
        (q, nd) \<in> set (disk (snd (auggie_cleanup projectDir w))) \<or>
        under (path_join [path_join [projectDir, ''.augment'', ''commands''], ''beat'']) q)) \<and>
   (set (disk (snd (iflow_cleanup projectDir w))) \<subseteq> set (disk w) \<and>
    (\<forall>(q, nd) \<in> set (disk w).
        (q, nd) \<in> set (disk (snd (iflow_cleanup projectDir w))) \<or>
        under (path_join [projectDir, ''.iflow'', ''commands'', ''beat'']) q)) \<and>
   (set (disk (snd (qwen_cleanup projectDir w))) \<subseteq> set (disk w) \<and>
    (\<forall>(q, nd) \<in> set (disk w).
        (q, nd) \<in> set (disk (snd (qwen_cleanup projectDir w))) \<or>
        under (path_join [projectDir, ''.qwen'', ''commands'', ''beat'']) q \<or>
        under (path_join [projectDir, ''.qwen'', ''beat-method'']) q \<or>
        under (path_join [projectDir, ''.qwen'', ''Beat'']) q)) \<and>
   (set (disk (snd (qwen_cleanupOldConfig qwenDir w))) \<subseteq> set (disk w) \<and>
    (\<forall>(q, nd) \<in> set (disk w).
        (q, nd) \<in> set (disk (snd (qwen_cleanupOldConfig qwenDir w))) \<or>
        under (path_join [qwenDir, ''agents'']) q \<or>
        under (path_join [qwenDir, ''beat-method'']) q \<or>
        under (path_join [qwenDir, ''beatDir'']) q))"
proof -
  have trae3: "(q, nd) \<in> set (disk (snd (trae_cleanup projectDir w)))"
    if "n \<noteq> []" "CHR ''/'' \<notin> set n" "\<not> (startsWith n ''beat-'' \<and> endsWith n ''.md'')"
      "under (path_join [path_join [projectDir, ''.trae'', ''rules''], n]) q"
      "(q, nd) \<in> set (disk w)" for n q nd
  proof -
    from scopedD(2) [OF scoped_trae that(5)]
    show ?thesis
    proof
      assume "\<exists>file. file \<noteq> [] \<and> CHR ''/'' \<notin> set file \<and>
           startsWith file ''beat-'' \<and> endsWith file ''.md'' \<and>
           under (path_join [path_join [projectDir, ''.trae'', ''rules''], file]) q"
      then obtain fl where f: "fl \<noteq> []" "CHR ''/'' \<notin> set fl" "startsWith fl ''beat-''"
        "endsWith fl ''.md''"
        "under (path_join [path_join [projectDir, ''.trae'', ''rules''], fl]) q" by blast
      from under_same_entry [OF path_join_nonempty f(1) that(1) f(2) that(2) f(5) that(4)]
      have "fl = n" .
      with f that(3) show ?thesis by simp
    qed simp
  qed
  have open3: "(q, nd) \<in> set (disk (snd (opencode_cleanup projectDir w)))"
    if "n \<noteq> []" "CHR ''/'' \<notin> set n" "\<not> (startsWith n ''beat-'' \<and> endsWith n ''.md'')"
      "under (path_join [path_join [projectDir, ''.opencode'', ''agent''], n]) q \<or>
       under (path_join [path_join [projectDir, ''.opencode'', ''command''], n]) q"
      "(q, nd) \<in> set (disk w)" for n q nd
  proof -
    from scopedD(2) [OF scoped_opencode that(5)]
    show ?thesis
    proof
      assume "\<exists>file. file \<noteq> [] \<and> CHR ''/'' \<notin> set file \<and>
           startsWith file ''beat-'' \<and> endsWith file ''.md'' \<and>
           (under (path_join [path_join [projectDir, ''.opencode'', ''agent''], file]) q \<or>
            under (path_join [path_join [projectDir, ''.opencode'', ''command''], file]) q)"
      then obtain fl where f: "fl \<noteq> []" "CHR ''/'' \<notin> set fl" "startsWith fl ''beat-''"
        "endsWith fl ''.md''"
        "under (path_join [path_join [projectDir, ''.opencode'', ''agent''], fl]) q \<or>
         under (path_join [path_join [projectDir, ''.opencode'', ''command''], fl]) q" by blast
      have "fl = n"
        using under_same_entry [OF path_join_nonempty f(1) that(1) f(2) that(2)]
          opencode_dirs_apart [OF _ _ f(1) that(1)] f(5) that(4)
        by blast
      with f that(3) show ?thesis by simp
    qed simp
  qed
  have clear3: "(q, nd) \<in> set (disk (snd (clearOldBeatFiles destDir w)))"
    if "destDir \<noteq> []" "n \<noteq> []" "CHR ''/'' \<notin> set n" "\<not> startsWith n ''beat-''"
      "under (path_join [destDir, n]) q" "(q, nd) \<in> set (disk w)" for n q nd
  proof -
    from scopedD(2) [OF scoped_clearOldBeatFiles that(6)]
    show ?thesis
    proof
      assume "\<exists>entry. entry \<noteq> [] \<and> CHR ''/'' \<notin> set entry \<and>
           startsWith entry ''beat-'' \<and> under (path_join [destDir, entry]) q"
      then obtain en where f: "en \<noteq> []" "CHR ''/'' \<notin> set en" "startsWith en ''beat-''"
        "under (path_join [destDir, en]) q" by blast
      from under_same_entry [OF that(1) f(1) that(2) f(2) that(3) f(4) that(5)]
      have "en = n" .
      with f that(4) show ?thesis by simp
    qed simp
  qed
  show ?thesis
    apply (intro conjI)
    subgoal by (rule scopedD(1) [OF scoped_trae])
    subgoal using scopedD(2) [OF scoped_trae] by blast
    subgoal using trae3 by blast
    subgoal by (rule scopedD(1) [OF scoped_opencode])
    subgoal using scopedD(2) [OF scoped_opencode] by blast
    subgoal using open3 by blast
    subgoal by (rule scopedD(1) [OF scoped_clearOldBeatFiles])
    subgoal using scopedD(2) [OF scoped_clearOldBeatFiles] by blast
    subgoal using clear3 by blast
    subgoal by (rule scopedD(1) [OF scoped_cursor])
    subgoal using scopedD(2) [OF scoped_cursor] by blast
    subgoal by (rule scopedD(1) [OF scoped_windsurf])
    subgoal using scopedD(2) [OF scoped_windsurf] by blast
    subgoal by (rule scopedD(1) [OF scoped_auggie])
    subgoal using scopedD(2) [OF scoped_auggie] by blast
    subgoal by (rule scopedD(1) [OF scoped_iflow])
    subgoal using scopedD(2) [OF scoped_iflow] by blast
    subgoal by (rule scopedD(1) [OF scoped_qwen])
    subgoal using scopedD(2) [OF scoped_qwen] by blast
    subgoal by (rule scopedD(1) [OF scoped_qwen_old])
    subgoal using scopedD(2) [OF scoped_qwen_old] by blast
    done
qed

theorem cleanup_scoped_to_policy_witness:
  "(''/p/.trae/rules/beat-notes/todo.md'', File ''mine'') \<in> set (disk example_rules) \<and>
   \<not> endsWith ''beat-notes'' ''.md'' \<and>
   (''/p/.trae/rules/beat-notes/todo.md'', File ''mine'')
      \<in> set (disk (snd (trae_cleanup ''/p'' example_rules))) \<and>
   (''/p/.opencode/agent/beat-drafts/beat-idea.md'', File ''mine too'')
      \<in> set (disk (snd (opencode_cleanup ''/p'' example_rules))) \<and>
   disk (snd (opencode_cleanup ''/p'' (snd (trae_cleanup ''/p'' example_rules)))) =
     [(''/p'', Directory), (''/p/.trae'', Directory), (''/p/.trae/rules'', Directory),
      (''/p/.trae/rules/beat-notes'', Directory),
      (''/p/.trae/rules/beat-notes/todo.md'', File ''mine''),
      (''/p/.opencode'', Directory), (''/p/.opencode/agent'', Directory),
      (''/p/.opencode/agent/beat-drafts'', Directory),
      (''/p/.opencode/agent/beat-drafts/beat-idea.md'', File ''mine too'')] \<and>
   (''/p/.trae/rules/mine.md'', File ''y'') \<in> set (disk example_project) \<and>
   \<not> startsWith ''mine.md'' ''beat-'' \<and>
   (''/p/.trae/rules/mine.md'', File ''y'')
      \<in> set (disk (snd (clearOldBeatFiles ''/p/.trae/rules'' example_project)))"
proof -
  have j: "path_join [path_join [''/p'', ''.trae'', ''rules''], ''beat-notes''] = ''/p/.trae/rules/beat-notes''"
    "path_join [path_join [''/p'', ''.opencode'', ''agent''], ''beat-drafts''] = ''/p/.opencode/agent/beat-drafts''"
    "path_join [''/p/.trae/rules'', ''mine.md''] = ''/p/.trae/rules/mine.md''"
    by (simp_all add: path_join_def)
  have m: "(''/p/.trae/rules/beat-notes/todo.md'', File ''mine'') \<in> set (disk example_rules)"
    "(''/p/.opencode/agent/beat-drafts/beat-idea.md'', File ''mine too'') \<in> set (disk example_rules)"
    "(''/p/.trae/rules/mine.md'', File ''y'') \<in> set (disk example_project)"
    by (simp_all add: example_rules_def example_project_def)
  have n: "\<not> endsWith ''beat-notes'' ''.md''" "\<not> endsWith ''beat-drafts'' ''.md''"
    "\<not> startsWith ''mine.md'' ''beat-''"
    by (simp_all add: str_eval)
  have u: "under ''/p/.trae/rules/beat-notes'' ''/p/.trae/rules/beat-notes/todo.md''"
    "under ''/p/.opencode/agent/beat-drafts'' ''/p/.opencode/agent/beat-drafts/beat-idea.md''"
    "under ''/p/.trae/rules/mine.md'' ''/p/.trae/rules/mine.md''"
    by (simp_all add: under_def)
  note T = cleanup_scoped_to_policy [of "''/p''" example_rules]
  have a: "(''/p/.trae/rules/beat-notes/todo.md'', File ''mine'')
      \<in> set (disk (snd (trae_cleanup ''/p'' example_rules)))"
    using T [THEN conjunct1, THEN conjunct2, THEN conjunct2, rule_format,
        of "''beat-notes''" "''/p/.trae/rules/beat-notes/todo.md''" "File ''mine''"] m n u
    unfolding j by simp
  have b: "(''/p/.opencode/agent/beat-drafts/beat-idea.md'', File ''mine too'')
      \<in> set (disk (snd (opencode_cleanup ''/p'' example_rules)))"
    using T [THEN conjunct2, THEN conjunct1, THEN conjunct2, THEN conjunct2, rule_format,
        of "''beat-drafts''" "''/p/.opencode/agent/beat-drafts/beat-idea.md''" "File ''mine too''"]
      m n u
    unfolding j by simp
  have c: "disk (snd (opencode_cleanup ''/p'' (snd (trae_cleanup ''/p'' example_rules)))) =
     [(''/p'', Directory), (''/p/.trae'', Directory), (''/p/.trae/rules'', Directory),
      (''/p/.trae/rules/beat-notes'', Directory),
      (''/p/.trae/rules/beat-notes/todo.md'', File ''mine''),
      (''/p/.opencode'', Directory), (''/p/.opencode/agent'', Directory),
      (''/p/.opencode/agent/beat-drafts'', Directory),
      (''/p/.opencode/agent/beat-drafts/beat-idea.md'', File ''mine too'')]"
    by (simp add: example_rules_def trae_cleanup_def opencode_cleanup_def Let_def fs_eval
          action_eval str_eval)
  have d: "(''/p/.trae/rules/mine.md'', File ''y'')
      \<in> set (disk (snd (clearOldBeatFiles ''/p/.trae/rules'' example_project)))"
    using cleanup_scoped_to_policy [of _ example_project "''/p/.trae/rules''", THEN conjunct2,
        THEN conjunct2, THEN conjunct1, THEN conjunct2, THEN conjunct2, rule_format,
        of "''mine.md''" "''/p/.trae/rules/mine.md''" "File ''y''"] m n u
    unfolding j by simp
  show ?thesis using m n a b c d by blast
qed

text \<open>
  Claim C1 as stated fails for Qwen: \<^verbatim>\<open>cleanupOldConfig\<close> deletes the directory
  \<^verbatim>\<open>.qwen/agents\<close> and the file in it, and the name \<^verbatim>\<open>agents\<close> neither starts with \<^verbatim>\<open>beat-\<close>
  nor is \<^verbatim>\<open>beat\<close>.
\<close>

theorem qwen_cleanupOldConfig_removes_unmarked_agents_dir:
  "\<not> startsWith ''agents'' ''beat-'' \<and> ''agents'' \<noteq> ''beat'' \<and>
   (''/p/.qwen/agents'', Directory) \<in> set (disk example_project) \<and>
   (''/p/.qwen/agents/mine.md'', File ''u'') \<in> set (disk example_project) \<and>
   disk (snd (qwen_cleanupOldConfig ''/p/.qwen'' example_project)) =
     [(''/p'', Directory), (''/p/.trae'', Directory), (''/p/.trae/rules'', Directory),
      (''/p/.trae/rules/beat-agent-core-dev.md'', File ''x''),
      (''/p/.trae/rules/mine.md'', File ''y''),
      (''/p/.trae/rules/beat-notes.txt'', File ''z''),
      (''/p/.qwen'', Directory)]"
  by (simp add: example_project_def qwen_cleanupOldConfig_def Let_def fs_eval action_eval str_eval)

section \<open>Title fallback\<close>

lemma split_on_nonempty: "split_on c s \<noteq> []"
  by (induction s) (auto split: list.splits)

lemma split_on_single: "c \<notin> set s \<Longrightarrow> split_on c s = [s]"
  by (induction s) auto

lemma split_on_two: "c \<in> set s \<Longrightarrow> \<exists>x y ys. split_on c s = x # y # ys"
proof (induction s)
  case Nil
  then show ?case by simp
next
  case (Cons a s)
  show ?case
  proof (cases "a = c")
    case True
    then show ?thesis using split_on_nonempty [of c s] by (cases "split_on c s") auto
  next
    case False
    with Cons obtain x y ys where "split_on c s = x # y # ys" by auto
    with False show ?thesis by simp
  qed
qed

lemma formatTitle_nonempty: "name \<noteq> [] \<Longrightarrow> formatTitle name \<noteq> []"
proof (cases "CHR ''-'' \<in> set name")
  case True
  then obtain x y ys where "split_on CHR ''-'' name = x # y # ys"
    using split_on_two by blast
  then show ?thesis by (simp add: formatTitle_def)
next
  case False
  assume "name \<noteq> []"
  with False show ?thesis
    by (cases name) (simp_all add: formatTitle_def split_on_single capitalize_def)
qed

lemma unlines_Cons: "unlines (l # ls) = l @ [CHR 0x0A] @ unlines ls"
  by (simp add: unlines_def)

text \<open>
  Claim C3, as the code has it. When the content matches none of the adapter's title
  patterns the title falls back to a value computed from the artifact's name alone. In Trae
  (\<^verbatim>\<open>createAgentRule\<close>, \<^verbatim>\<open>createTaskRule\<close>, \<^verbatim>\<open>createToolRule\<close>) it is \<^verbatim>\<open>formatTitle(name)\<close>:
  each hyphen-separated word with its first letter in upper case, joined by spaces, so
  \<^verbatim>\<open>dev-story\<close> gives \<^verbatim>\<open>Dev Story\<close>; it is not empty when the name is not empty, and it heads
  the rendered rule. In Cursor's \<^verbatim>\<open>processContent\<close> the fallback is the name as it is.
\<close>

theorem title_falls_back_to_name:
  "formatTitle ''dev-story'' = ''Dev Story'' \<and>
   (name \<noteq> [] \<longrightarrow> formatTitle name \<noteq> []) \<and>
   (match_attr ''name='' False content = None \<longrightarrow>
      trae_taskName task content = formatTitle (agent_name task) \<and>
      prefix (''# '' @ formatTitle (agent_name task) @ '' Task Rule'') (trae_createTaskRule task content) \<and>
      prefix (''# '' @ formatTitle (agent_name task) @ '' Tool Rule'') (trae_createToolRule task content)) \<and>
   (match_attr ''description:'' True (art_content a) = None \<longrightarrow>
      trae_agentTitle a = formatTitle (art_name a) \<and>
      prefix (''# '' @ formatTitle (art_name a) @ '' Agent Rule'') (trae_createAgentRule a rel)) \<and>
   (match_attr ''title='' False content = None \<and> match_attr ''name='' False content = None \<longrightarrow>
      (\<exists>kind \<in> set ['' Agent: '', '' Task: '', '' Tool: '', '' Workflow: '', '': ''].
         cursor_description content md = ''BEAT '' @ toUpperCase (md_module md) @ kind @ md_name md))"
proof (intro conjI impI)
  show "formatTitle ''dev-story'' = ''Dev Story''"
    by (simp add: formatTitle_def capitalize_def toUpperChar_def)
next
  assume "name \<noteq> []" then show "formatTitle name \<noteq> []" by (rule formatTitle_nonempty)
next
  assume n: "match_attr ''name='' False content = None"
  then show t: "trae_taskName task content = formatTitle (agent_name task)"
    by (simp add: trae_taskName_def)
  show "prefix (''# '' @ formatTitle (agent_name task) @ '' Task Rule'') (trae_createTaskRule task content)"
    unfolding trae_createTaskRule_def t unlines_Cons by (simp add: prefix_def)
  show "prefix (''# '' @ formatTitle (agent_name task) @ '' Tool Rule'') (trae_createToolRule task content)"
    unfolding trae_createToolRule_def t unlines_Cons by (simp add: prefix_def)
next
  assume "match_attr ''description:'' True (art_content a) = None"
  then show t: "trae_agentTitle a = formatTitle (art_name a)"
    by (simp add: trae_agentTitle_def)
  show "prefix (''# '' @ formatTitle (art_name a) @ '' Agent Rule'') (trae_createAgentRule a rel)"
    unfolding trae_createAgentRule_def t unlines_Cons by (simp add: prefix_def)
next
  assume "match_attr ''title='' False content = None \<and> match_attr ''name='' False content = None"
  then show "\<exists>kind \<in> set ['' Agent: '', '' Task: '', '' Tool: '', '' Workflow: '', '': ''].
         cursor_description content md = ''BEAT '' @ toUpperCase (md_module md) @ kind @ md_name md"
    by (simp add: cursor_description_def)
qed

theorem title_falls_back_to_name_witness:
  "match_attr ''name='' False ''<task>'' = None \<and>
   trae_taskName \<lparr>agent_path = ''/p/beat/bmm/tasks/dev-story.md'', agent_name = ''dev-story'',
                   agent_module = ''bmm''\<rparr> ''<task>'' = ''Dev Story''"
proof -
  have h: "match_attr ''name='' False ''<task>'' = None"
    by (simp add: quoted_at_def)
  have "trae_taskName \<lparr>agent_path = ''/p/beat/bmm/tasks/dev-story.md'', agent_name = ''dev-story'',
                   agent_module = ''bmm''\<rparr> ''<task>'' =
        formatTitle (agent_name \<lparr>agent_path = ''/p/beat/bmm/tasks/dev-story.md'', agent_name = ''dev-story'',
                   agent_module = ''bmm''\<rparr>)"
    using title_falls_back_to_name [of _ "''<task>''"] h by blast
  moreover have "formatTitle ''dev-story'' = ''Dev Story''"
    using title_falls_back_to_name by blast
  ultimately show ?thesis using h by simp
qed

text \<open>
  Claim C3 as stated fails in Cursor: for the name \<^verbatim>\<open>dev-story\<close> and a task content without
  a \<^verbatim>\<open>name="..."\<close> attribute the rendered description ends in \<^verbatim>\<open>dev-story\<close>, not in
  \<^verbatim>\<open>Dev Story\<close>. In Trae the fallback title of an artifact with the empty name (a file
  called \<^verbatim>\<open>.md\<close>) is empty.
\<close>

theorem cursor_title_is_raw_name:
  "match_attr ''name='' False ''<task>'' = None \<and>
   cursor_description ''<task>'' \<lparr>md_module = ''core'', md_name = ''dev-story''\<rparr> =
     ''BEAT CORE Task: dev-story'' \<and>
   cursor_processContent (\<lambda>c m. c) ''<task>'' \<lparr>md_module = ''core'', md_name = ''dev-story''\<rparr> =
     unlines [''---'', ''description: BEAT CORE Task: dev-story'', ''globs: '',
              ''alwaysApply: false'', ''---'', ''''] @ ''<task>'' \<and>
   formatTitle ''dev-story'' = ''Dev Story'' \<and>
   trae_taskName \<lparr>agent_path = ''/p/beat/core/tasks/.md'', agent_name = [], agent_module = ''core''\<rparr>
     ''<task>'' = []"
  by (simp add: cursor_description_def cursor_processContent_def strip_frontmatter_def unlines_def
      toUpperCase_def toUpperChar_def formatTitle_def capitalize_def trae_taskName_def quoted_at_def)

section \<open>Destination paths and artifact identity\<close>














section \<open>Flat export: names and launcher content\<close>



lemmas setup_eval =
  codex_setup_def cline_setup_def collectA_def collectClaudeArtifacts_def collectAgentArtifacts_def
  getAgentsFromBeat_def getStandaloneAgents_def getAgentsFromDir_def getTasksFromBeat_def
  getTasksFromDir_def
  generateLauncherContent_def getCodexPromptDir_def clearOldBeatFiles_def flattenFilename_def

lemma writeFile_Inr:
  "writeFile fs p c = Inr fs' \<Longrightarrow> fs' = AList.update p (File c) fs"
  by (auto simp: writeFile_def split: option.splits node.splits if_splits)












text \<open>A file name is inserted as \<^verbatim>\<open>replaceAll\<close> inserts it, with its dollar patterns expanded.\<close>

lemma replaceAll_expands_patterns:
  "replaceAll ''{{name}}'' ''a$&b$$c'' ''x {{name}} y'' = ''x a{{name}}b$c y''"
  by (simp add: replaceAll_def)





section \<open>The order of collection, cleanup and writes\<close>

lemma emits_returnA: "emits P (returnA x)"
  by (simp add: emits_def returnA_def)

lemma emits_readA: "emits P (readA r)"
  by (simp add: emits_def readA_def)

lemma emits_collectA: "P (Collected l) \<Longrightarrow> emits P (collectA l r)"
  by (auto simp: emits_def collectA_def split: sum.splits)

lemma emits_fs_remove: "P (Removed p) \<Longrightarrow> emits P (fs_remove p)"
  by (simp add: emits_def fs_remove_def)

lemma emits_fs_writeFile: "P (Wrote p) \<Longrightarrow> emits P (fs_writeFile p c)"
  by (auto simp: emits_def fs_writeFile_def split: sum.splits)

lemma emits_fs_ensureDir: "P (MadeDir p) \<Longrightarrow> emits P (fs_ensureDir p)"
  by (auto simp: emits_def fs_ensureDir_def split: sum.splits)

lemma emits_bindA:
  assumes "emits P m" and "\<And>x. emits P (f x)"
  shows "emits P (bindA m f)"
  unfolding emits_def
proof
  fix w
  obtain r w1 where mw: "m w = (r, w1)" by (cases "m w")
  from assms(1) mw obtain es1 where e1: "events w1 = events w @ es1" "list_all P es1"
    unfolding emits_def by (metis snd_conv)
  show "\<exists>es. events (snd (bindA m f w)) = events w @ es \<and> list_all P es"
  proof (cases r)
    case (Inl err)
    then show ?thesis using mw e1 by (auto simp: bindA_def)
  next
    case (Inr x)
    from assms(2) [of x] obtain es2 where
      e2: "events (snd (f x w1)) = events w1 @ es2" "list_all P es2"
      unfolding emits_def by blast
    have "snd (bindA m f w) = snd (f x w1)" using mw Inr by (simp add: bindA_def)
    then have "events (snd (bindA m f w)) = events w @ (es1 @ es2) \<and> list_all P (es1 @ es2)"
      using e1 e2 by simp
    then show ?thesis by blast
  qed
qed

lemma emits_forEachA:
  assumes "\<And>x. emits P (f x)"
  shows "emits P (forEachA f xs)"
  by (induction xs) (auto intro: emits_returnA emits_bindA assms)

lemma emits_if: "emits P a \<Longrightarrow> emits P b \<Longrightarrow> emits P (if c then a else b)"
  by simp

lemma emits_case_node:
  "(\<And>c. emits P (a c)) \<Longrightarrow> emits P b \<Longrightarrow> emits P (case nd of File c \<Rightarrow> a c | Directory \<Rightarrow> b)"
  by (cases nd) auto

lemma emits_case_prod: "(\<And>a b. emits P (f a b)) \<Longrightarrow> emits P (case x of (a, b) \<Rightarrow> f a b)"
  by (cases x) auto

lemma emits2_pre: "emits P m \<Longrightarrow> emits2 P Q m"
  unfolding emits_def emits2_def
proof
  fix w
  assume "\<forall>w. \<exists>es. events (snd (m w)) = events w @ es \<and> list_all P es"
  then obtain es where "events (snd (m w)) = events w @ es @ []" "list_all P es" by auto
  then show "\<exists>pre post. events (snd (m w)) = events w @ pre @ post \<and> list_all P pre \<and> list_all Q post"
    by (intro exI [of _ es] exI [of _ "[]"]) simp
qed

lemma emits2_post: "emits Q m \<Longrightarrow> emits2 P Q m"
  unfolding emits_def emits2_def
proof
  fix w
  assume "\<forall>w. \<exists>es. events (snd (m w)) = events w @ es \<and> list_all Q es"
  then obtain es where "events (snd (m w)) = events w @ [] @ es" "list_all Q es" by auto
  then show "\<exists>pre post. events (snd (m w)) = events w @ pre @ post \<and> list_all P pre \<and> list_all Q post"
    by (intro exI [of _ "[]"] exI [of _ es]) simp
qed

lemma emits2_bind_pre:
  assumes "emits P m" and "\<And>x. emits2 P Q (f x)"
  shows "emits2 P Q (bindA m f)"
  unfolding emits2_def
proof
  fix w
  obtain r w1 where mw: "m w = (r, w1)" by (cases "m w")
  from assms(1) mw obtain es1 where e1: "events w1 = events w @ es1" "list_all P es1"
    unfolding emits_def by (metis snd_conv)
  show "\<exists>pre post. events (snd (bindA m f w)) = events w @ pre @ post \<and> list_all P pre \<and> list_all Q post"
  proof (cases r)
    case (Inl err)
    then have "events (snd (bindA m f w)) = events w @ es1 @ []" using mw e1 by (simp add: bindA_def)
    with e1 show ?thesis by (intro exI [of _ es1] exI [of _ "[]"]) simp
  next
    case (Inr x)
    from assms(2) [of x] obtain pre post where
      e2: "events (snd (f x w1)) = events w1 @ pre @ post" "list_all P pre" "list_all Q post"
      unfolding emits2_def by blast
    have "snd (bindA m f w) = snd (f x w1)" using mw Inr by (simp add: bindA_def)
    then have "events (snd (bindA m f w)) = events w @ (es1 @ pre) @ post \<and>
               list_all P (es1 @ pre) \<and> list_all Q post"
      using e1 e2 by simp
    then show ?thesis by blast
  qed
qed

lemma emits2_case_prod: "(\<And>a b. emits2 P Q (f a b)) \<Longrightarrow> emits2 P Q (case x of (a, b) \<Rightarrow> f a b)"
  by (cases x) auto

lemma emits_case_option:
  "emits P a \<Longrightarrow> (\<And>x. emits P (b x)) \<Longrightarrow> emits P (case v of None \<Rightarrow> a | Some x \<Rightarrow> b x)"
  by (cases v) auto

lemma emits_case_sum:
  "(\<And>x. emits P (a x)) \<Longrightarrow> (\<And>y. emits P (b y)) \<Longrightarrow>
   emits P (case v of Inl x \<Rightarrow> a x | Inr y \<Rightarrow> b y)"
  by (cases v) auto

lemma emits_catchA: "emits P m \<Longrightarrow> emits P (catchA m)"
proof -
  have "snd (catchA m w) = snd (m w)" for w
    unfolding catchA_def by (cases "m w") (auto split: sum.splits)
  then show "emits P m \<Longrightarrow> emits P (catchA m)"
    unfolding emits_def by simp
qed

lemmas emits_all =
  emits_returnA emits_readA emits_collectA emits_fs_remove emits_fs_writeFile emits_fs_ensureDir
  emits_bindA emits_forEachA emits_if emits_case_node emits_case_prod emits_case_option
  emits_case_sum emits_catchA

text \<open>The cleanups emit deletions only.\<close>

lemma emits_clearOld: "(\<And>p. P (Removed p)) \<Longrightarrow> emits P (clearOldBeatFiles d)"
  unfolding clearOldBeatFiles_def by (intro emits_all) auto

lemma emits_cursor_cleanup: "(\<And>p. P (Removed p)) \<Longrightarrow> emits P (cursor_cleanup d)"
  unfolding cursor_cleanup_def Let_def by (intro emits_all) auto

lemma emits_trae_cleanup: "(\<And>p. P (Removed p)) \<Longrightarrow> emits P (trae_cleanup d)"
  unfolding trae_cleanup_def Let_def by (intro emits_all) auto

lemma emits_opencode_cleanup: "(\<And>p. P (Removed p)) \<Longrightarrow> emits P (opencode_cleanup d)"
  unfolding opencode_cleanup_def Let_def by (intro emits_all) auto

lemma emits_windsurf_cleanup: "(\<And>p. P (Removed p)) \<Longrightarrow> emits P (windsurf_cleanup d)"
  unfolding windsurf_cleanup_def Let_def by (intro emits_all) auto

lemma emits_auggie_cleanup: "(\<And>p. P (Removed p)) \<Longrightarrow> emits P (auggie_cleanup d)"
  unfolding auggie_cleanup_def Let_def by (intro emits_all) auto

lemma emits_qwen_cleanupOldConfig:
  "P (Removed (path_join [d, ''agents''])) \<Longrightarrow> P (Removed (path_join [d, ''beat-method''])) \<Longrightarrow>
   P (Removed (path_join [d, ''beatDir''])) \<Longrightarrow> emits P (qwen_cleanupOldConfig d)"
  unfolding qwen_cleanupOldConfig_def Let_def by (intro emits_all) auto

lemma emits_qwen_updateSettings:
  "P (Wrote (path_join [d, ''settings.json''])) \<Longrightarrow> emits P (qwen_updateSettings js d)"
  unfolding qwen_updateSettings_def Let_def by (intro emits_all) auto

text \<open>The parts that render and write emit writes and directory creations only.\<close>

lemma emits_writes:
  assumes "\<And>p. P (Wrote p)" and "\<And>p. P (MadeDir p)"
  shows "emits P (flattenAndWriteArtifacts xs d)"
    and "emits P (cursor_writeRules e b arts tasks tools workflows)"
    and "emits P (trae_writeRules e projectDir b arts tasks tools workflows)"
    and "emits P (windsurf_writeWorkflows b arts tasks tools workflows)"
    and "emits P (auggie_writeCommands e b arts tasks tools workflows)"
    and "emits P (qwen_writeCommands e b arts tasks tools workflows)"
    and "emits P (opencode_writeAgents b arts)"
    and "emits P (opencode_writeWorkflows e b xs)"
    and "emits P (opencode_writeTaskTools e b mts mtl)"
    and "emits P (iflow_writeAgents b arts)"
    and "emits P (iflow_writeTasks e b tasks)"
proof -
  show "emits P (flattenAndWriteArtifacts xs d)"
    by (induction xs) (auto intro!: emits_all assms)
  show "emits P (cursor_writeRules e b arts tasks tools workflows)"
    unfolding cursor_writeRules_def cursor_writeProcessed_def base_writeFile_def Let_def
    by (intro emits_all assms)
  show "emits P (trae_writeRules e projectDir b arts tasks tools workflows)"
    unfolding trae_writeRules_def base_writeFile_def
    by (intro emits_all assms)
  show "emits P (windsurf_writeWorkflows b arts tasks tools workflows)"
    unfolding windsurf_writeWorkflows_def base_writeFile_def Let_def
    by (intro emits_all assms)
  show "emits P (auggie_writeCommands e b arts tasks tools workflows)"
    unfolding auggie_writeCommands_def base_writeFile_def Let_def
    by (intro emits_all assms)
  show "emits P (qwen_writeCommands e b arts tasks tools workflows)"
    unfolding qwen_writeCommands_def qwen_writeProcessed_def base_writeFile_def Let_def
    by (intro emits_all assms)
  show "emits P (opencode_writeAgents b arts)"
    unfolding opencode_writeAgents_def base_writeFile_def
    by (intro emits_all assms)
  show "emits P (opencode_writeWorkflows e b xs)"
    unfolding opencode_writeWorkflows_def base_writeFile_def
    by (intro emits_all assms)
  show "emits P (opencode_writeTaskTools e b mts mtl)"
    unfolding opencode_writeTaskTools_def base_writeFile_def
    by (intro emits_all assms)
  show "emits P (iflow_writeAgents b arts)"
    unfolding iflow_writeAgents_def base_writeFile_def
    by (intro emits_all assms)
  show "emits P (iflow_writeTasks e b tasks)"
    unfolding iflow_writeTasks_def base_writeFile_def
    by (intro emits_all assms)
qed

lemma emits_opencode_generate:
  assumes "\<And>p. P (Wrote p)" and "\<And>p. P (MadeDir p)" and "\<And>l. P (Collected l)"
  shows "emits P (opencode_generateFlatTaskToolCommands e beatDir b)"
  unfolding opencode_generateFlatTaskToolCommands_def Let_def
  by (intro emits_all emits_writes assms)


text \<open>Deletes come before writes.\<close>

lemma codex_writes_last:
  "emits2 (\<lambda>ev. \<forall>p. ev \<noteq> Wrote p) (\<lambda>ev. \<forall>p. ev \<noteq> Removed p) (codex_setup e projectDir beatDir ms)"
  unfolding codex_setup_def
  apply (rule emits2_bind_pre)
   apply (rule emits_collectA, simp)
  apply (rule emits2_case_prod)
  apply (rule emits2_bind_pre)
   apply (rule emits_fs_ensureDir, simp)
  apply (rule emits2_bind_pre)
   apply (rule emits_clearOld, simp)
  apply (rule emits2_post)
  apply (rule emits_writes; simp)
  done

lemma cline_writes_last:
  "emits2 (\<lambda>ev. \<forall>p. ev \<noteq> Wrote p) (\<lambda>ev. \<forall>p. ev \<noteq> Removed p) (cline_setup e projectDir beatDir ms)"
  unfolding cline_setup_def Let_def
  apply (rule emits2_bind_pre)
   apply (rule emits_fs_ensureDir, simp)
  apply (rule emits2_bind_pre)
   apply (rule emits_clearOld, simp)
  apply (rule emits2_bind_pre)
   apply (rule emits_collectA, simp)
  apply (rule emits2_case_prod)
  apply (rule emits2_post)
  apply (rule emits_writes; simp)
  done

lemma cursor_writes_last:
  "emits2 (\<lambda>ev. \<forall>p. ev \<noteq> Wrote p) (\<lambda>ev. \<forall>p. ev \<noteq> Removed p) (cursor_setup e projectDir beatDir ms)"
  unfolding cursor_setup_def Let_def
  apply (rule emits2_bind_pre)
   apply (rule emits_cursor_cleanup, simp)
  apply (rule emits2_bind_pre)
   apply (rule emits_fs_ensureDir, simp)
  apply (rule emits2_bind_pre)
   apply (rule emits_collectA, simp)
  apply (rule emits2_bind_pre)
   apply (rule emits_collectA, simp)
  apply (rule emits2_bind_pre)
   apply (rule emits_collectA, simp)
  apply (rule emits2_bind_pre)
   apply (rule emits_collectA, simp)
  apply (rule emits2_post)
  apply (rule emits_writes; simp)
  done

lemma trae_writes_last:
  "emits2 (\<lambda>ev. \<forall>p. ev \<noteq> Wrote p) (\<lambda>ev. \<forall>p. ev \<noteq> Removed p) (trae_setup e projectDir beatDir ms)"
  unfolding trae_setup_def Let_def
  apply (rule emits2_bind_pre)
   apply (rule emits_fs_ensureDir, simp)
  apply (rule emits2_bind_pre)
   apply (rule emits_trae_cleanup, simp)
  apply (rule emits2_bind_pre)
   apply (rule emits_collectA, simp)
  apply (rule emits2_bind_pre)
   apply (rule emits_collectA, simp)
  apply (rule emits2_bind_pre)
   apply (rule emits_collectA, simp)
  apply (rule emits2_bind_pre)
   apply (rule emits_collectA, simp)
  apply (rule emits2_post)
  apply (rule emits_writes; simp)
  done

lemma opencode_writes_last:
  "emits2 (\<lambda>ev. \<forall>p. ev \<noteq> Wrote p) (\<lambda>ev. \<forall>p. ev \<noteq> Removed p) (opencode_setup e projectDir beatDir ms)"
  unfolding opencode_setup_def Let_def
  apply (rule emits2_bind_pre)
   apply (rule emits_fs_ensureDir, simp)
  apply (rule emits2_bind_pre)
   apply (rule emits_fs_ensureDir, simp)
  apply (rule emits2_bind_pre)
   apply (rule emits_opencode_cleanup, simp)
  apply (rule emits2_bind_pre)
   apply (rule emits_collectA, simp)
  apply (rule emits2_post)
  apply (intro emits_all emits_writes emits_opencode_generate; simp)
  done

lemma windsurf_writes_last:
  "emits2 (\<lambda>ev. \<forall>p. ev \<noteq> Wrote p) (\<lambda>ev. \<forall>p. ev \<noteq> Removed p) (windsurf_setup e projectDir beatDir ms)"
  unfolding windsurf_setup_def Let_def
  apply (rule emits2_bind_pre)
   apply (rule emits_fs_ensureDir, simp)
  apply (rule emits2_bind_pre)
   apply (rule emits_windsurf_cleanup, simp)
  apply (rule emits2_bind_pre)
   apply (rule emits_collectA, simp)
  apply (rule emits2_bind_pre)
   apply (rule emits_collectA, simp)
  apply (rule emits2_bind_pre)
   apply (rule emits_collectA, simp)
  apply (rule emits2_bind_pre)
   apply (rule emits_collectA, simp)
  apply (rule emits2_post)
  apply (rule emits_writes; simp)
  done

lemma auggie_writes_last:
  "emits2 (\<lambda>ev. \<forall>p. ev \<noteq> Wrote p) (\<lambda>ev. \<forall>p. ev \<noteq> Removed p) (auggie_setup e projectDir beatDir ms)"
  unfolding auggie_setup_def Let_def
  apply (rule emits2_bind_pre)
   apply (rule emits_auggie_cleanup, simp)
  apply (rule emits2_bind_pre)
   apply (rule emits_collectA, simp)
  apply (rule emits2_bind_pre)
   apply (rule emits_collectA, simp)
  apply (rule emits2_bind_pre)
   apply (rule emits_collectA, simp)
  apply (rule emits2_bind_pre)
   apply (rule emits_collectA, simp)
  apply (rule emits2_post)
  apply (rule emits_writes; simp)
  done

lemma iflow_never_deletes:
  "emits (\<lambda>ev. \<forall>p. ev \<noteq> Removed p) (iflow_setup e projectDir beatDir ms)"
  unfolding iflow_setup_def Let_def
  by (intro emits_all emits_writes; simp)

lemma qwen_writes_last:
  "emits2 (\<lambda>ev. \<forall>p. ev = Wrote p \<longrightarrow> p = path_join [path_join [projectDir, ''.qwen''], ''settings.json'']) (\<lambda>ev. \<forall>p. ev \<noteq> Removed p) (qwen_setup e js projectDir beatDir ms)"
  unfolding qwen_setup_def Let_def
  apply (rule emits2_bind_pre)
   apply (rule emits_fs_ensureDir, simp)
  apply (rule emits2_bind_pre)
   apply (rule emits_qwen_updateSettings, simp)
  apply (rule emits2_bind_pre)
   apply (rule emits_qwen_cleanupOldConfig; simp)
  apply (rule emits2_bind_pre)
   apply (rule emits_collectA, simp)
  apply (rule emits2_bind_pre)
   apply (rule emits_collectA, simp)
  apply (rule emits2_bind_pre)
   apply (rule emits_collectA, simp)
  apply (rule emits2_bind_pre)
   apply (rule emits_collectA, simp)
  apply (rule emits2_post)
  apply (rule emits_writes; simp)
  done

lemma qwen_deletes_spare_settings:
  "emits (\<lambda>ev. \<forall>d. ev = Removed d \<longrightarrow> \<not> under d (path_join [path_join [projectDir, ''.qwen''], ''settings.json''])) (qwen_setup e js projectDir beatDir ms)"
proof -
  have ne: "path_join [projectDir, ''.qwen''] \<noteq> []" by (rule path_join_nonempty)
  have apart: "\<not> under (path_join [path_join [projectDir, ''.qwen''], n])
                  (path_join [path_join [projectDir, ''.qwen''], ''settings.json''])"
    if "n \<in> {''agents'', ''beat-method'', ''beatDir''}" for n
    using that ne by (auto simp: under_def path_join_pair)
  show ?thesis
    unfolding qwen_setup_def Let_def
    by (intro emits_all emits_writes emits_qwen_updateSettings emits_qwen_cleanupOldConfig)
       (simp_all add: apart)
qed

text \<open>Collection and cleanup: Codex collects first, the others clean up first.\<close>

lemma codex_collects_first:
  "emits2 (\<lambda>ev. \<forall>p. ev \<noteq> Removed p) (\<lambda>ev. \<forall>l. ev \<noteq> Collected l) (codex_setup e projectDir beatDir ms)"
  unfolding codex_setup_def
  apply (rule emits2_bind_pre)
   apply (rule emits_collectA, simp)
  apply (rule emits2_case_prod)
  apply (rule emits2_bind_pre)
   apply (rule emits_fs_ensureDir, simp)
  apply (rule emits2_post)
  apply (intro emits_all emits_clearOld emits_writes; simp)
  done

lemma cline_cleans_first:
  "emits2 (\<lambda>ev. \<forall>l. ev \<noteq> Collected l) (\<lambda>ev. \<forall>p. ev \<noteq> Removed p) (cline_setup e projectDir beatDir ms)"
  unfolding cline_setup_def Let_def
  apply (rule emits2_bind_pre)
   apply (rule emits_fs_ensureDir, simp)
  apply (rule emits2_bind_pre)
   apply (rule emits_clearOld, simp)
  apply (rule emits2_post)
  apply (intro emits_all emits_writes; simp)
  done

lemma cursor_cleans_first:
  "emits2 (\<lambda>ev. \<forall>l. ev \<noteq> Collected l) (\<lambda>ev. \<forall>p. ev \<noteq> Removed p) (cursor_setup e projectDir beatDir ms)"
  unfolding cursor_setup_def Let_def
  apply (rule emits2_bind_pre)
   apply (rule emits_cursor_cleanup, simp)
  apply (rule emits2_post)
  apply (intro emits_all emits_writes; simp)
  done

lemma trae_cleans_first:
  "emits2 (\<lambda>ev. \<forall>l. ev \<noteq> Collected l) (\<lambda>ev. \<forall>p. ev \<noteq> Removed p) (trae_setup e projectDir beatDir ms)"
  unfolding trae_setup_def Let_def
  apply (rule emits2_bind_pre)
   apply (rule emits_fs_ensureDir, simp)
  apply (rule emits2_bind_pre)
   apply (rule emits_trae_cleanup, simp)
  apply (rule emits2_post)
  apply (intro emits_all emits_writes; simp)
  done

lemma opencode_cleans_first:
  "emits2 (\<lambda>ev. \<forall>l. ev \<noteq> Collected l) (\<lambda>ev. \<forall>p. ev \<noteq> Removed p) (opencode_setup e projectDir beatDir ms)"
  unfolding opencode_setup_def Let_def
  apply (rule emits2_bind_pre)
   apply (rule emits_fs_ensureDir, simp)
  apply (rule emits2_bind_pre)
   apply (rule emits_fs_ensureDir, simp)
  apply (rule emits2_bind_pre)
   apply (rule emits_opencode_cleanup, simp)
  apply (rule emits2_post)
  apply (intro emits_all emits_writes emits_opencode_generate; simp)
  done

lemma windsurf_cleans_first:
  "emits2 (\<lambda>ev. \<forall>l. ev \<noteq> Collected l) (\<lambda>ev. \<forall>p. ev \<noteq> Removed p) (windsurf_setup e projectDir beatDir ms)"
  unfolding windsurf_setup_def Let_def
  apply (rule emits2_bind_pre)
   apply (rule emits_fs_ensureDir, simp)
  apply (rule emits2_bind_pre)
   apply (rule emits_windsurf_cleanup, simp)
  apply (rule emits2_post)
  apply (intro emits_all emits_writes; simp)
  done

lemma auggie_cleans_first:
  "emits2 (\<lambda>ev. \<forall>l. ev \<noteq> Collected l) (\<lambda>ev. \<forall>p. ev \<noteq> Removed p) (auggie_setup e projectDir beatDir ms)"
  unfolding auggie_setup_def Let_def
  apply (rule emits2_bind_pre)
   apply (rule emits_auggie_cleanup, simp)
  apply (rule emits2_post)
  apply (intro emits_all emits_writes; simp)
  done

lemma qwen_cleans_first:
  "emits2 (\<lambda>ev. \<forall>l. ev \<noteq> Collected l) (\<lambda>ev. \<forall>p. ev \<noteq> Removed p) (qwen_setup e js projectDir beatDir ms)"
  unfolding qwen_setup_def Let_def
  apply (rule emits2_bind_pre)
   apply (rule emits_fs_ensureDir, simp)
  apply (rule emits2_bind_pre)
   apply (rule emits_qwen_updateSettings, simp)
  apply (rule emits2_bind_pre)
   apply (rule emits_qwen_cleanupOldConfig; simp)
  apply (rule emits2_post)
  apply (intro emits_all emits_writes; simp)
  done


text \<open>
  Claim C9, as the code has it, for the install sequences of all nine adapters. Of the
  events a run adds to the record (\<open>Collected\<close>, \<open>Removed\<close>, \<open>Wrote\<close>, \<open>MadeDir\<close>), whether the
  run returns or throws:

  \<^item> Cleanup before the writes. In Codex, Cline, Cursor, Trae, OpenCode, Windsurf and Auggie
    the events fall into a part with no write followed by a part with no delete: every
    delete is over before the first write, and no delete follows any write. iFlow's
    sequence never calls its cleanup: it deletes nothing at all.
  \<^item> Qwen writes before it deletes, but only one file: \<^verbatim>\<open>updateSettings\<close> may rewrite
    \<^verbatim>\<open>.qwen/settings.json\<close> before \<^verbatim>\<open>cleanupOldConfig\<close> runs. Every write that comes before a
    delete is a write of that file, and no delete of the whole run removes that file or a
    directory above it; so in Qwen too no path is deleted after it was written.
  \<^item> Collection and cleanup. Codex alone collects first: a part with no delete, then a part
    with no collection. In Cline, Cursor, Trae, OpenCode, Windsurf, Auggie and Qwen it is
    the other way round: every delete is over before the first collection.
\<close>

theorem cleanup_precedes_writes:
  "emits2 (\<lambda>ev. \<forall>p. ev \<noteq> Wrote p) (\<lambda>ev. \<forall>p. ev \<noteq> Removed p) (codex_setup e projectDir beatDir ms) \<and>
   emits2 (\<lambda>ev. \<forall>p. ev \<noteq> Wrote p) (\<lambda>ev. \<forall>p. ev \<noteq> Removed p) (cline_setup e projectDir beatDir ms) \<and>
   emits2 (\<lambda>ev. \<forall>p. ev \<noteq> Wrote p) (\<lambda>ev. \<forall>p. ev \<noteq> Removed p) (cursor_setup e projectDir beatDir ms) \<and>
   emits2 (\<lambda>ev. \<forall>p. ev \<noteq> Wrote p) (\<lambda>ev. \<forall>p. ev \<noteq> Removed p) (trae_setup e projectDir beatDir ms) \<and>
   emits2 (\<lambda>ev. \<forall>p. ev \<noteq> Wrote p) (\<lambda>ev. \<forall>p. ev \<noteq> Removed p) (opencode_setup e projectDir beatDir ms) \<and>
   emits2 (\<lambda>ev. \<forall>p. ev \<noteq> Wrote p) (\<lambda>ev. \<forall>p. ev \<noteq> Removed p) (windsurf_setup e projectDir beatDir ms) \<and>
   emits2 (\<lambda>ev. \<forall>p. ev \<noteq> Wrote p) (\<lambda>ev. \<forall>p. ev \<noteq> Removed p) (auggie_setup e projectDir beatDir ms) \<and>
   emits (\<lambda>ev. \<forall>p. ev \<noteq> Removed p) (iflow_setup e projectDir beatDir ms) \<and>
   emits2 (\<lambda>ev. \<forall>p. ev = Wrote p \<longrightarrow> p = path_join [path_join [projectDir, ''.qwen''], ''settings.json''])
          (\<lambda>ev. \<forall>p. ev \<noteq> Removed p) (qwen_setup e js projectDir beatDir ms) \<and>
   emits (\<lambda>ev. \<forall>d. ev = Removed d \<longrightarrow> \<not> under d (path_join [path_join [projectDir, ''.qwen''], ''settings.json'']))
         (qwen_setup e js projectDir beatDir ms) \<and>
   emits2 (\<lambda>ev. \<forall>p. ev \<noteq> Removed p) (\<lambda>ev. \<forall>l. ev \<noteq> Collected l) (codex_setup e projectDir beatDir ms) \<and>
   emits2 (\<lambda>ev. \<forall>l. ev \<noteq> Collected l) (\<lambda>ev. \<forall>p. ev \<noteq> Removed p) (cline_setup e projectDir beatDir ms) \<and>
   emits2 (\<lambda>ev. \<forall>l. ev \<noteq> Collected l) (\<lambda>ev. \<forall>p. ev \<noteq> Removed p) (cursor_setup e projectDir beatDir ms) \<and>
   emits2 (\<lambda>ev. \<forall>l. ev \<noteq> Collected l) (\<lambda>ev. \<forall>p. ev \<noteq> Removed p) (trae_setup e projectDir beatDir ms) \<and>
   emits2 (\<lambda>ev. \<forall>l. ev \<noteq> Collected l) (\<lambda>ev. \<forall>p. ev \<noteq> Removed p) (opencode_setup e projectDir beatDir ms) \<and>
   emits2 (\<lambda>ev. \<forall>l. ev \<noteq> Collected l) (\<lambda>ev. \<forall>p. ev \<noteq> Removed p) (windsurf_setup e projectDir beatDir ms) \<and>
   emits2 (\<lambda>ev. \<forall>l. ev \<noteq> Collected l) (\<lambda>ev. \<forall>p. ev \<noteq> Removed p) (auggie_setup e projectDir beatDir ms) \<and>
   emits2 (\<lambda>ev. \<forall>l. ev \<noteq> Collected l) (\<lambda>ev. \<forall>p. ev \<noteq> Removed p) (qwen_setup e js projectDir beatDir ms)"
  by (intro conjI codex_writes_last cline_writes_last cursor_writes_last trae_writes_last
      opencode_writes_last windsurf_writes_last auggie_writes_last iflow_never_deletes
      qwen_writes_last qwen_deletes_spare_settings codex_collects_first cline_cleans_first
      cursor_cleans_first trae_cleans_first opencode_cleans_first windsurf_cleans_first
      auggie_cleans_first qwen_cleans_first)

lemmas cursor_eval =
  cursor_setup_def cursor_cleanup_def cursor_writeRules_def cursor_writeProcessed_def
  base_writeFile_def cursor_targetPath_def insertionOrder_def

lemma cursor_reinstall_events:
  "events (snd (cursor_setup example_env ''/p'' ''/p/beat'' [] example_reinstall)) =
     [Removed ''/p/.cursor/rules/beat'', MadeDir ''/p/.cursor/rules/beat'',
      Collected ''agents'', Collected ''tasks'', Collected ''tools'', Collected ''workflows'',
      MadeDir ''/p/.cursor/rules/beat/core'', MadeDir ''/p/.cursor/rules/beat/core/agents'',
      MadeDir ''/p/.cursor/rules/beat/core/tasks'', MadeDir ''/p/.cursor/rules/beat/core/tools'',
      MadeDir ''/p/.cursor/rules/beat/core/workflows'',
      MadeDir ''/p/.cursor/rules/beat/core/agents'',
      Wrote ''/p/.cursor/rules/beat/core/agents/dev.mdc'',
      MadeDir ''/p/.cursor/rules/beat'', Wrote ''/p/.cursor/rules/beat/index.mdc'']"
  by (simp add: example_env_def example_reinstall_def example_install_def cursor_eval Let_def
      setup_eval fs_eval action_eval str_eval)

lemmas qwen_eval =
  qwen_setup_def qwen_updateSettings_def qwen_updatedSettings_def qwen_cleanupOldConfig_def
  qwen_writeCommands_def qwen_writeProcessed_def qwen_processContent_def catchA_def
  base_writeFile_def insertionOrder_def

lemma qwen_reinstall_events:
  "events (snd (qwen_setup example_env example_json ''/p'' ''/p/beat'' [] example_qwen)) =
     [MadeDir ''/p/.qwen/commands/beat'', Wrote ''/p/.qwen/settings.json'',
      Removed ''/p/.qwen/agents'', Collected ''agents'', Collected ''tasks'',
      Collected ''tools'', Collected ''workflows'']"
  by (simp add: example_env_def example_qwen_def example_json_def qwen_eval Let_def
      setup_eval fs_eval action_eval str_eval)

theorem cleanup_precedes_writes_witness:
  "(\<exists>pre post.
      [Removed ''/p/.cursor/rules/beat'', MadeDir ''/p/.cursor/rules/beat'',
       Collected ''agents'', Collected ''tasks'', Collected ''tools'', Collected ''workflows'',
       MadeDir ''/p/.cursor/rules/beat/core'', MadeDir ''/p/.cursor/rules/beat/core/agents'',
       MadeDir ''/p/.cursor/rules/beat/core/tasks'', MadeDir ''/p/.cursor/rules/beat/core/tools'',
       MadeDir ''/p/.cursor/rules/beat/core/workflows'',
       MadeDir ''/p/.cursor/rules/beat/core/agents'',
       Wrote ''/p/.cursor/rules/beat/core/agents/dev.mdc'',
       MadeDir ''/p/.cursor/rules/beat'', Wrote ''/p/.cursor/rules/beat/index.mdc''] = pre @ post \<and>
      list_all (\<lambda>ev. \<forall>p. ev \<noteq> Wrote p) pre \<and> list_all (\<lambda>ev. \<forall>p. ev \<noteq> Removed p) post) \<and>
   (\<exists>pre post.
      [MadeDir ''/p/.qwen/commands/beat'', Wrote ''/p/.qwen/settings.json'',
       Removed ''/p/.qwen/agents'', Collected ''agents'', Collected ''tasks'',
       Collected ''tools'', Collected ''workflows''] = pre @ post \<and>
      list_all (\<lambda>ev. \<forall>p. ev = Wrote p \<longrightarrow> p = ''/p/.qwen/settings.json'') pre \<and>
      list_all (\<lambda>ev. \<forall>p. ev \<noteq> Removed p) post) \<and>
   \<not> under ''/p/.qwen/agents'' ''/p/.qwen/settings.json''"
proof -
  note t = cleanup_precedes_writes [of example_env "''/p''" "''/p/beat''" "[]" example_json]
  have ev: "events example_reinstall = []" "events example_qwen = []"
    by (simp_all add: example_reinstall_def example_qwen_def)
  have sp: "path_join [path_join [''/p'', ''.qwen''], ''settings.json''] = ''/p/.qwen/settings.json''"
    by (simp add: fs_eval)
  have c: "emits2 (\<lambda>ev. \<forall>p. ev \<noteq> Wrote p) (\<lambda>ev. \<forall>p. ev \<noteq> Removed p) (cursor_setup example_env ''/p'' ''/p/beat'' [])"
    using t by blast
  have q: "emits2 (\<lambda>ev. \<forall>p. ev = Wrote p \<longrightarrow> p = ''/p/.qwen/settings.json'') (\<lambda>ev. \<forall>p. ev \<noteq> Removed p)
             (qwen_setup example_env example_json ''/p'' ''/p/beat'' [])"
    using t unfolding sp by blast
  have r: "emits (\<lambda>ev. \<forall>d. ev = Removed d \<longrightarrow> \<not> under d ''/p/.qwen/settings.json'')
             (qwen_setup example_env example_json ''/p'' ''/p/beat'' [])"
    using t unfolding sp by blast
  have c': "\<exists>pre post. events (snd (cursor_setup example_env ''/p'' ''/p/beat'' [] example_reinstall)) = pre @ post \<and>
      list_all (\<lambda>ev. \<forall>p. ev \<noteq> Wrote p) pre \<and> list_all (\<lambda>ev. \<forall>p. ev \<noteq> Removed p) post"
    using c [unfolded emits2_def, rule_format, of example_reinstall] unfolding ev by simp
  have q': "\<exists>pre post. events (snd (qwen_setup example_env example_json ''/p'' ''/p/beat'' [] example_qwen)) = pre @ post \<and>
      list_all (\<lambda>ev. \<forall>p. ev = Wrote p \<longrightarrow> p = ''/p/.qwen/settings.json'') pre \<and> list_all (\<lambda>ev. \<forall>p. ev \<noteq> Removed p) post"
    using q [unfolded emits2_def, rule_format, of example_qwen] unfolding ev by simp
  obtain es where es: "events (snd (qwen_setup example_env example_json ''/p'' ''/p/beat'' [] example_qwen)) = es"
      "list_all (\<lambda>ev. \<forall>d. ev = Removed d \<longrightarrow> \<not> under d ''/p/.qwen/settings.json'') es"
    using r [unfolded emits_def, rule_format, of example_qwen] unfolding ev by auto
  have "Removed ''/p/.qwen/agents'' \<in> set es"
    using es(1) unfolding qwen_reinstall_events by auto
  with es(2) have r': "\<not> under ''/p/.qwen/agents'' ''/p/.qwen/settings.json''"
    unfolding list_all_iff by blast
  show ?thesis
    using c' q' r' unfolding cursor_reinstall_events qwen_reinstall_events by blast
qed

text \<open>
  Claim C9 as stated fails in Cursor: on a project that already has \<^verbatim>\<open>.cursor/rules/beat\<close>,
  the run deletes that directory first and only then collects the agents.
\<close>

theorem cursor_deletes_before_collecting:
  "take 4 (events (snd (cursor_setup example_env ''/p'' ''/p/beat'' [] example_reinstall))) =
     [Removed ''/p/.cursor/rules/beat'', MadeDir ''/p/.cursor/rules/beat'',
      Collected ''agents'', Collected ''tasks'']"
  by (simp add: example_env_def example_reinstall_def example_install_def cursor_eval Let_def
      setup_eval fs_eval action_eval str_eval)

section \<open>Cleanup followed by the writes, run twice\<close>

lemma clear_loop_disk:
  "forEachA (\<lambda>entry.
              if \<not> startsWith entry ''beat-'' then returnA ()
              else
                bindA (readA (\<lambda>fs. stat fs (path_join [d, entry]))) (\<lambda>st.
                  case st of
                    File c \<Rightarrow> fs_remove (path_join [d, entry])
                  | Directory \<Rightarrow> fs_remove (path_join [d, entry]))) es w = (Inr u, w') \<Longrightarrow>
   disk w' = filter (\<lambda>(q, nd). \<not> (\<exists>n \<in> set es. startsWith n ''beat-'' \<and> under (path_join [d, n]) q)) (disk w)"
proof (induction es arbitrary: w)
  case Nil
  then show ?case by (auto simp: returnA_def)
next
  case (Cons e es)
  show ?case
  proof (cases "startsWith e ''beat-''")
    case False
    with Cons.prems have "forEachA (\<lambda>entry.
              if \<not> startsWith entry ''beat-'' then returnA ()
              else
                bindA (readA (\<lambda>fs. stat fs (path_join [d, entry]))) (\<lambda>st.
                  case st of
                    File c \<Rightarrow> fs_remove (path_join [d, entry])
                  | Directory \<Rightarrow> fs_remove (path_join [d, entry]))) es w = (Inr u, w')"
      by (simp add: bindA_def returnA_def)
    from Cons.IH [OF this] False show ?thesis by (auto intro: filter_cong)
  next
    case True
    let ?w1 = "w\<lparr>disk := filter (\<lambda>(q, nd). \<not> under (path_join [d, e]) q) (disk w),
                  events := events w @ [Removed (path_join [d, e])]\<rparr>"
    from Cons.prems True have "forEachA (\<lambda>entry.
              if \<not> startsWith entry ''beat-'' then returnA ()
              else
                bindA (readA (\<lambda>fs. stat fs (path_join [d, entry]))) (\<lambda>st.
                  case st of
                    File c \<Rightarrow> fs_remove (path_join [d, entry])
                  | Directory \<Rightarrow> fs_remove (path_join [d, entry]))) es ?w1 = (Inr u, w')"
      by (auto simp: bindA_def readA_def fs_remove_def split: sum.splits node.splits)
    from Cons.IH [OF this] True show ?thesis by (auto intro: filter_cong)
  qed
qed

lemma map_of_filter_key:
  "map_of (filter (\<lambda>(q, nd). P q) al) k = (if P k then map_of al k else None)"
  by (induction al) auto

lemma clear_loop_succeeds:
  assumes "d \<noteq> []" and "distinct es"
    and "\<forall>n \<in> set es. CHR ''/'' \<notin> set n \<and> map_of (disk w) (path_join [d, n]) \<noteq> None"
  shows "fst (forEachA (\<lambda>entry.
              if \<not> startsWith entry ''beat-'' then returnA ()
              else
                bindA (readA (\<lambda>fs. stat fs (path_join [d, entry]))) (\<lambda>st.
                  case st of
                    File c \<Rightarrow> fs_remove (path_join [d, entry])
                  | Directory \<Rightarrow> fs_remove (path_join [d, entry]))) es w) = Inr ()"
  using assms(2,3)
proof (induction es arbitrary: w)
  case Nil
  then show ?case by (simp add: returnA_def)
next
  case (Cons e es)
  show ?case
  proof (cases "startsWith e ''beat-''")
    case False
    with Cons show ?thesis by (simp add: bindA_def returnA_def)
  next
    case True
    then have ene: "e \<noteq> []" by (auto simp: startsWith_def)
    let ?w1 = "w\<lparr>disk := filter (\<lambda>(q, nd). \<not> under (path_join [d, e]) q) (disk w),
                  events := events w @ [Removed (path_join [d, e])]\<rparr>"
    have keep: "\<forall>n \<in> set es. CHR ''/'' \<notin> set n \<and> map_of (disk ?w1) (path_join [d, n]) \<noteq> None"
    proof
      fix n assume n: "n \<in> set es"
      with Cons.prems have ne: "n \<noteq> e" and sl: "CHR ''/'' \<notin> set n"
        and ex: "map_of (disk w) (path_join [d, n]) \<noteq> None" by auto
      have "\<not> under (path_join [d, e]) (path_join [d, n])"
        using under_sibling_plain [OF assms(1) ene sl] ne by blast
      then show "CHR ''/'' \<notin> set n \<and> map_of (disk ?w1) (path_join [d, n]) \<noteq> None"
        using sl ex by (simp add: map_of_filter_key)
    qed
    from Cons.prems have "distinct es" by simp
    from Cons.IH [OF this keep] have rest: "fst (forEachA (\<lambda>entry.
              if \<not> startsWith entry ''beat-'' then returnA ()
              else
                bindA (readA (\<lambda>fs. stat fs (path_join [d, entry]))) (\<lambda>st.
                  case st of
                    File c \<Rightarrow> fs_remove (path_join [d, entry])
                  | Directory \<Rightarrow> fs_remove (path_join [d, entry]))) es ?w1) = Inr ()" .
    from Cons.prems obtain nd where "map_of (disk w) (path_join [d, e]) = Some nd" by auto
    with True rest show ?thesis
      by (cases nd) (simp_all add: bindA_def readA_def stat_def fs_remove_def split: prod.splits)
  qed
qed

lemma child_name_Some:
  "child_name d q = Some n \<longleftrightarrow> q = d @ CHR ''/'' # n \<and> n \<noteq> [] \<and> CHR ''/'' \<notin> set n"
  by (auto simp: child_name_def Let_def prefix_def)

lemma child_name_join:
  "n \<noteq> [] \<Longrightarrow> CHR ''/'' \<notin> set n \<Longrightarrow> child_name d (d @ CHR ''/'' # n) = Some n"
  by (simp add: child_name_Some)

lemma children_Cons:
  "children ((q, nd) # fs) d =
     (case child_name d q of None \<Rightarrow> children fs d | Some n \<Rightarrow> (n, nd) # children fs d)"
  by (simp add: children_def List.map_filter_simps split: option.splits)

lemma children_mem:
  "(n, nd) \<in> set (children fs d) \<longleftrightarrow> (d @ CHR ''/'' # n, nd) \<in> set fs \<and> n \<noteq> [] \<and> CHR ''/'' \<notin> set n"
proof (induction fs)
  case Nil
  then show ?case by (simp add: children_def List.map_filter_simps)
next
  case (Cons a fs)
  obtain q nd' where a: "a = (q, nd')" by (cases a)
  show ?case
  proof (cases "child_name d q")
    case None
    have "\<not> (q = d @ CHR ''/'' # n \<and> n \<noteq> [] \<and> CHR ''/'' \<notin> set n)"
    proof
      assume "q = d @ CHR ''/'' # n \<and> n \<noteq> [] \<and> CHR ''/'' \<notin> set n"
      then have "child_name d q = Some n" using child_name_join by blast
      with None show False by simp
    qed
    with None Cons show ?thesis unfolding a children_Cons by auto
  next
    case (Some m)
    then have "q = d @ CHR ''/'' # m" "m \<noteq> []" "CHR ''/'' \<notin> set m"
      by (simp_all add: child_name_Some)
    with Some Cons show ?thesis unfolding a children_Cons by auto
  qed
qed

lemma children_names:
  "n \<in> set (map fst (children fs d)) \<longleftrightarrow>
     (\<exists>nd. (d @ CHR ''/'' # n, nd) \<in> set fs) \<and> n \<noteq> [] \<and> CHR ''/'' \<notin> set n"
proof -
  have "n \<in> set (map fst (children fs d)) \<longleftrightarrow> (\<exists>nd. (n, nd) \<in> set (children fs d))"
    by (metis (no_types) in_set_zipE zip_map_fst_snd fst_conv image_eqI list.set_map prod.collapse imageE)
  then show ?thesis unfolding children_mem by blast
qed

lemma children_distinct:
  "distinct (map fst fs) \<Longrightarrow> distinct (map fst (children fs d))"
proof (induction fs)
  case Nil
  then show ?case by (simp add: children_def List.map_filter_simps)
next
  case (Cons a fs)
  obtain q nd where a: "a = (q, nd)" by (cases a)
  from Cons have IH: "distinct (map fst (children fs d))" and nq: "q \<notin> fst ` set fs" by (auto simp: a)
  show ?case
  proof (cases "child_name d q")
    case None
    then show ?thesis using IH by (simp add: children_def List.map_filter_simps a)
  next
    case (Some n)
    then have q: "q = d @ ''/'' @ n" by (simp add: child_name_Some)
    have "n \<notin> set (map fst (children fs d))"
    proof
      assume "n \<in> set (map fst (children fs d))"
      then obtain nd' where "(d @ CHR ''/'' # n, nd') \<in> set fs" unfolding children_names by blast
      with nq q show False by (metis append_Cons append_Nil fst_conv image_eqI)
    qed
    with IH Some show ?thesis
      using children_def by (simp add: children_def List.map_filter_simps a)
  qed
qed

lemma under_marked_prefix:
  assumes "d \<noteq> []" and "startsWith n ''beat-''" and "under (path_join [d, n]) q"
  shows "prefix (d @ ''/beat-'') q"
proof -
  from assms(2) obtain r where n: "n = ''beat-'' @ r" by (auto simp: startsWith_def prefix_def)
  then have "path_join [d, n] = (d @ ''/beat-'') @ r" using assms(1) by (simp add: path_join_def)
  with assms(3) show ?thesis by (auto simp: under_def prefix_def)
qed

lemma prefix_marked_under:
  assumes "d \<noteq> []" and "n \<noteq> []" and "CHR ''/'' \<notin> set n"
    and "under (path_join [d, n]) q" and "prefix (d @ ''/beat-'') q"
  shows "startsWith n ''beat-''"
proof -
  have pj: "path_join [d, n] = d @ ''/'' @ n" using assms(1,2) by (simp add: path_join_def)
  from assms(4) obtain t where q: "q = d @ ''/'' @ n @ t" "t = [] \<or> hd t = CHR ''/''"
    unfolding under_def pj by (auto simp: prefix_def)
  from assms(5) obtain s where "q = d @ ''/beat-'' @ s" by (auto simp: prefix_def)
  with q have eq: "n @ t = ''beat-'' @ s" by simp
  show ?thesis
  proof (cases t)
    case Nil
    with eq show ?thesis by (simp add: startsWith_def)
  next
    case (Cons c t')
    with q(2) have t: "t = CHR ''/'' # t'" by simp
    have "takeWhile (\<lambda>x. x \<noteq> CHR ''/'') (n @ CHR ''/'' # t') = n"
      using assms(3) by (induction n) auto
    moreover have "takeWhile (\<lambda>x. x \<noteq> CHR ''/'') (''beat-'' @ s) = ''beat-'' @ takeWhile (\<lambda>x. x \<noteq> CHR ''/'') s"
      by simp
    ultimately have "n = ''beat-'' @ takeWhile (\<lambda>x. x \<noteq> CHR ''/'') s"
      using eq t by simp
    then show ?thesis unfolding startsWith_def prefix_def by blast
  qed
qed

lemma clearOldBeatFiles_result:
  assumes "d \<noteq> []" and "distinct (map fst (disk w))" and "map_of (disk w) d = Some Directory"
    and "\<forall>(q, nd) \<in> set (disk w). prefix (d @ ''/beat-'') q \<longrightarrow>
           (\<exists>n \<in> set (map fst (children (disk w) d)). under (path_join [d, n]) q)"
  shows "fst (clearOldBeatFiles d w) = Inr () \<and>
         disk (snd (clearOldBeatFiles d w)) = filter (\<lambda>(q, nd). \<not> prefix (d @ ''/beat-'') q) (disk w)"
proof -
  let ?es = "map fst (children (disk w) d)"
  let ?loop = "forEachA (\<lambda>entry.
              if \<not> startsWith entry ''beat-'' then returnA ()
              else
                bindA (readA (\<lambda>fs. stat fs (path_join [d, entry]))) (\<lambda>st.
                  case st of
                    File c \<Rightarrow> fs_remove (path_join [d, entry])
                  | Directory \<Rightarrow> fs_remove (path_join [d, entry]))) ?es"
  have run: "clearOldBeatFiles d w = ?loop w"
    using assms(3)
    by (simp add: clearOldBeatFiles_def bindA_def readA_def pathExists_def readdir_def
        readdirTypes_def bindE_def)
  have names: "\<forall>n \<in> set ?es. CHR ''/'' \<notin> set n \<and> map_of (disk w) (path_join [d, n]) \<noteq> None"
  proof
    fix n assume "n \<in> set ?es"
    then obtain nd where m: "(d @ CHR ''/'' # n, nd) \<in> set (disk w)" "n \<noteq> []" "CHR ''/'' \<notin> set n"
      unfolding children_names by blast
    then have "map_of (disk w) (d @ CHR ''/'' # n) \<noteq> None"
      by (metis map_of_eq_None_iff fst_conv image_eqI)
    with m assms(1) show "CHR ''/'' \<notin> set n \<and> map_of (disk w) (path_join [d, n]) \<noteq> None"
      by (simp add: path_join_def)
  qed
  have ok: "fst (?loop w) = Inr ()"
    by (rule clear_loop_succeeds [OF assms(1) children_distinct [OF assms(2)] names])
  then obtain w' where lw: "?loop w = (Inr (), w')" by (cases "?loop w") auto
  from clear_loop_disk [OF lw]
  have "disk w' = filter (\<lambda>(q, nd). \<not> (\<exists>n \<in> set ?es. startsWith n ''beat-'' \<and> under (path_join [d, n]) q)) (disk w)" .
  also have "\<dots> = filter (\<lambda>(q, nd). \<not> prefix (d @ ''/beat-'') q) (disk w)"
  proof (rule filter_cong [OF refl])
    fix x assume x: "x \<in> set (disk w)"
    obtain q nd where xq: "x = (q, nd)" by (cases x)
    have "(\<exists>n \<in> set ?es. startsWith n ''beat-'' \<and> under (path_join [d, n]) q) \<longleftrightarrow> prefix (d @ ''/beat-'') q"
    proof
      assume "\<exists>n \<in> set ?es. startsWith n ''beat-'' \<and> under (path_join [d, n]) q"
      then show "prefix (d @ ''/beat-'') q" using under_marked_prefix [OF assms(1)] by blast
    next
      assume p: "prefix (d @ ''/beat-'') q"
      with assms(4) x xq obtain n where n: "n \<in> set ?es" "under (path_join [d, n]) q" by blast
      then have "n \<noteq> []" "CHR ''/'' \<notin> set n" unfolding children_names by blast+
      from prefix_marked_under [OF assms(1) this n(2) p] n
      show "\<exists>n \<in> set ?es. startsWith n ''beat-'' \<and> under (path_join [d, n]) q" by blast
    qed
    then show "(case x of (q, nd) \<Rightarrow> \<not> (\<exists>n \<in> set ?es. startsWith n ''beat-'' \<and> under (path_join [d, n]) q)) =
               (case x of (q, nd) \<Rightarrow> \<not> prefix (d @ ''/beat-'') q)"
      unfolding xq by (simp only: prod.case)
  qed
  finally show ?thesis using run lw by simp
qed

lemma parent_of_child: "CHR ''/'' \<notin> set n \<Longrightarrow> parent_of (d @ CHR ''/'' # n) = d"
proof -
  assume "CHR ''/'' \<notin> set n"
  then have "dropWhile (\<lambda>c. c \<noteq> CHR ''/'') (rev n @ CHR ''/'' # rev d) = CHR ''/'' # rev d"
    by (induction n rule: rev_induct) auto
  then show ?thesis by (simp add: parent_of_def)
qed

lemma flattenFilename_shape:
  "flattenFilename r \<noteq> [] \<and> CHR ''/'' \<notin> set (flattenFilename r) \<and> startsWith (flattenFilename r) ''beat-''"
  by (auto simp: flattenFilename_def startsWith_def)

lemma flat_target:
  assumes "d \<noteq> []"
  shows "path_join [d, flattenFilename r] = d @ CHR ''/'' # flattenFilename r"
    and "prefix (d @ ''/beat-'') (path_join [d, flattenFilename r])"
    and "parent_of (path_join [d, flattenFilename r]) = d"
    and "path_join [d, flattenFilename r] \<noteq> d"
proof -
  show pj: "path_join [d, flattenFilename r] = d @ CHR ''/'' # flattenFilename r"
    using assms flattenFilename_shape [of r] by (simp add: path_join_def)
  show "prefix (d @ ''/beat-'') (path_join [d, flattenFilename r])"
    unfolding pj by (simp add: flattenFilename_def)
  show "parent_of (path_join [d, flattenFilename r]) = d"
    unfolding pj using flattenFilename_shape [of r] by (simp add: parent_of_child)
  show "path_join [d, flattenFilename r] \<noteq> d" unfolding pj by simp
qed

lemma writes_result:
  assumes "d \<noteq> []"
  shows "map_of (disk w) d = Some Directory \<Longrightarrow>
         (\<forall>q. prefix (d @ ''/beat-'') q \<longrightarrow> map_of (disk w) q \<noteq> Some Directory) \<Longrightarrow>
         fst (flattenAndWriteArtifacts xs d w) = Inr (length xs) \<and>
         disk (snd (flattenAndWriteArtifacts xs d w)) =
           foldl (\<lambda>fs a. AList.update (path_join [d, flattenFilename (ex_relativePath a)])
                            (File (ex_content a)) fs) (disk w) xs"
proof (induction xs arbitrary: w)
  case Nil
  then show ?case by (simp add: returnA_def)
next
  case (Cons a xs)
  let ?p = "path_join [d, flattenFilename (ex_relativePath a)]"
  let ?fs = "AList.update ?p (File (ex_content a)) (disk w)"
  let ?w1 = "w\<lparr>disk := ?fs, events := events w @ [Wrote ?p]\<rparr>"
  note t = flat_target [OF assms, of "ex_relativePath a"]
  have nd: "map_of (disk w) ?p \<noteq> Some Directory" using Cons.prems(2) t(2) by blast
  have wf: "writeFile (disk w) ?p (ex_content a) = Inr ?fs"
    using nd Cons.prems(1) assms t(3)
    by (auto simp: writeFile_def split: option.splits node.splits)
  have step: "fs_writeFile ?p (ex_content a) w = (Inr (), ?w1)"
    by (simp add: fs_writeFile_def wf)
  have i1: "map_of (disk ?w1) d = Some Directory"
    using Cons.prems(1) t(4) by (simp add: update_conv')
  have i2: "\<forall>q. prefix (d @ ''/beat-'') q \<longrightarrow> map_of (disk ?w1) q \<noteq> Some Directory"
    using Cons.prems(2) by (simp add: update_conv')
  obtain r2 w2 where rest: "flattenAndWriteArtifacts xs d ?w1 = (r2, w2)"
    by (cases "flattenAndWriteArtifacts xs d ?w1")
  from Cons.IH [OF i1 i2] rest have r2: "r2 = Inr (length xs)"
    and d2: "disk w2 = foldl (\<lambda>fs a. AList.update (path_join [d, flattenFilename (ex_relativePath a)])
                            (File (ex_content a)) fs) ?fs xs"
    by simp_all
  have "flattenAndWriteArtifacts (a # xs) d w = (Inr (Suc (length xs)), w2)"
    by (simp add: bindA_def returnA_def step rest r2)
  then show ?case using d2 by simp
qed

lemma filter_update_outside:
  "P k \<Longrightarrow> filter (\<lambda>(q, nd). \<not> P q) (AList.update k v al) = filter (\<lambda>(q, nd). \<not> P q) al"
  by (induction al) auto

lemma filter_writes_outside:
  "d \<noteq> [] \<Longrightarrow>
   filter (\<lambda>(q, nd). \<not> prefix (d @ ''/beat-'') q)
     (foldl (\<lambda>fs a. AList.update (path_join [d, flattenFilename (ex_relativePath a)])
                            (File (ex_content a)) fs) fs xs) =
   filter (\<lambda>(q, nd). \<not> prefix (d @ ''/beat-'') q) fs"
  by (induction xs arbitrary: fs) (simp_all add: filter_update_outside flat_target(2))

lemma writes_keys:
  "(q, nd) \<in> set (foldl (\<lambda>fs a. AList.update (path_join [d, flattenFilename (ex_relativePath a)])
                            (File (ex_content a)) fs) fs xs) \<Longrightarrow>
   (q, nd) \<in> set fs \<or> (\<exists>a \<in> set xs. q = path_join [d, flattenFilename (ex_relativePath a)])"
proof (induction xs arbitrary: fs)
  case Nil
  then show ?case by simp
next
  case (Cons a xs)
  have key: "(q, nd) \<in> set (AList.update k v al) \<Longrightarrow> (q, nd) \<in> set al \<or> q = k"
    for k v and al :: "(string \<times> node) list"
    by (induction al) (auto split: if_splits)
  from Cons.IH [OF Cons.prems [simplified]] show ?case
    using key by fastforce
qed

lemma writes_distinct:
  "distinct (map fst fs) \<Longrightarrow>
   distinct (map fst (foldl (\<lambda>fs a. AList.update (path_join [d, flattenFilename (ex_relativePath a)])
                            (File (ex_content a)) fs) fs xs))"
  by (induction xs arbitrary: fs) (simp_all add: distinct_update)

lemma install_result:
  assumes "d \<noteq> []" and "distinct (map fst (disk w))" and "map_of (disk w) d = Some Directory"
    and "\<forall>(q, nd) \<in> set (disk w). prefix (d @ ''/beat-'') q \<longrightarrow>
           (\<exists>n \<in> set (map fst (children (disk w) d)). under (path_join [d, n]) q)"
  shows "fst (bindA (clearOldBeatFiles d) (\<lambda>u. flattenAndWriteArtifacts xs d) w) = Inr (length xs) \<and>
         disk (snd (bindA (clearOldBeatFiles d) (\<lambda>u. flattenAndWriteArtifacts xs d) w)) =
           foldl (\<lambda>fs a. AList.update (path_join [d, flattenFilename (ex_relativePath a)])
                            (File (ex_content a)) fs)
             (filter (\<lambda>(q, nd). \<not> prefix (d @ ''/beat-'') q) (disk w)) xs"
proof -
  obtain r w1 where c: "clearOldBeatFiles d w = (r, w1)" by (cases "clearOldBeatFiles d w")
  from clearOldBeatFiles_result [OF assms] c
  have r: "r = Inr ()" and d1: "disk w1 = filter (\<lambda>(q, nd). \<not> prefix (d @ ''/beat-'') q) (disk w)"
    by simp_all
  have "\<not> prefix (d @ ''/beat-'') d" by (simp add: prefix_def)
  then have i1: "map_of (disk w1) d = Some Directory"
    using assms(3) by (simp add: d1 map_of_filter_key)
  have i2: "\<forall>q. prefix (d @ ''/beat-'') q \<longrightarrow> map_of (disk w1) q \<noteq> Some Directory"
    by (simp add: d1 map_of_filter_key)
  from writes_result [OF assms(1) i1 i2, of xs] c r d1 show ?thesis
    by (simp add: bindA_def)
qed

lemma writes_map_of_other:
  "\<forall>a \<in> set xs. q \<noteq> path_join [d, flattenFilename (ex_relativePath a)] \<Longrightarrow>
   map_of (foldl (\<lambda>fs a. AList.update (path_join [d, flattenFilename (ex_relativePath a)])
                            (File (ex_content a)) fs) fs xs) q = map_of fs q"
  by (induction xs arbitrary: fs) (simp_all add: update_conv')

lemma distinct_keys_filter: "distinct (map fst al) \<Longrightarrow> distinct (map fst (filter P al))"
  by (induction al) force+

lemma writes_fail_without_directory:
  assumes "d \<noteq> []" and "map_of (disk w) d = None"
  shows "disk (snd (flattenAndWriteArtifacts xs d w)) = disk w"
proof (cases xs)
  case Nil
  then show ?thesis by (simp add: returnA_def)
next
  case (Cons a xs')
  let ?p = "path_join [d, flattenFilename (ex_relativePath a)]"
  have "\<exists>err. writeFile (disk w) ?p (ex_content a) = Inl err"
    using assms flat_target(3) [OF assms(1), of "ex_relativePath a"]
    by (auto simp: writeFile_def split: option.splits node.splits)
  then show ?thesis
    by (auto simp: Cons bindA_def fs_writeFile_def)
qed

lemma install_without_directory:
  assumes "d \<noteq> []" and "map_of (disk w) d \<noteq> Some Directory"
  shows "disk (snd (bindA (clearOldBeatFiles d) (\<lambda>u. flattenAndWriteArtifacts xs d) w)) = disk w"
proof (cases "map_of (disk w) d")
  case None
  then have "clearOldBeatFiles d w = (Inr (), w)"
    by (simp add: clearOldBeatFiles_def bindA_def readA_def returnA_def pathExists_def)
  then show ?thesis
    using writes_fail_without_directory [OF assms(1) None] by (simp add: bindA_def)
next
  case (Some nd)
  with assms(2) obtain c where "nd = File c" by (cases nd) auto
  with Some have "clearOldBeatFiles d w = (Inl ENOTDIR, w)"
    by (simp add: clearOldBeatFiles_def bindA_def readA_def returnA_def pathExists_def
        readdir_def readdirTypes_def bindE_def)
  then show ?thesis by (simp add: bindA_def)
qed

lemma idempotent_on_directory:
  assumes "d \<noteq> []" and "distinct (map fst (disk w))" and "map_of (disk w) d = Some Directory"
    and "\<forall>(q, nd) \<in> set (disk w). prefix (d @ ''/beat-'') q \<longrightarrow>
           (\<exists>n \<in> set (map fst (children (disk w) d)). under (path_join [d, n]) q)"
  shows "fst (bindA (clearOldBeatFiles d) (\<lambda>u. flattenAndWriteArtifacts xs d) w) = Inr (length xs) \<and>
         fst (bindA (clearOldBeatFiles d) (\<lambda>u. flattenAndWriteArtifacts xs d)
               (snd (bindA (clearOldBeatFiles d) (\<lambda>u. flattenAndWriteArtifacts xs d) w))) =
           Inr (length xs) \<and>
         disk (snd (bindA (clearOldBeatFiles d) (\<lambda>u. flattenAndWriteArtifacts xs d)
               (snd (bindA (clearOldBeatFiles d) (\<lambda>u. flattenAndWriteArtifacts xs d) w)))) =
           disk (snd (bindA (clearOldBeatFiles d) (\<lambda>u. flattenAndWriteArtifacts xs d) w))"
proof -
  let ?install = "bindA (clearOldBeatFiles d) (\<lambda>u. flattenAndWriteArtifacts xs d)"
  let ?kept = "filter (\<lambda>(q, nd). \<not> prefix (d @ ''/beat-'') q) (disk w)"
  let ?upd = "\<lambda>fs a. AList.update (path_join [d, flattenFilename (ex_relativePath a)])
                            (File (ex_content a)) fs"
  let ?w1 = "snd (?install w)"
  from install_result [OF assms, of xs]
  have ok1: "fst (?install w) = Inr (length xs)" and d1: "disk ?w1 = foldl ?upd ?kept xs"
    by simp_all
  have dist1: "distinct (map fst (disk ?w1))"
    unfolding d1 by (intro writes_distinct distinct_keys_filter assms(2))
  have "\<not> prefix (d @ ''/beat-'') d" by (simp add: prefix_def)
  then have "map_of ?kept d = Some Directory" using assms(3) by (simp add: map_of_filter_key)
  moreover have "\<forall>a \<in> set xs. d \<noteq> path_join [d, flattenFilename (ex_relativePath a)]"
    using flat_target(4) [OF assms(1)] by metis
  ultimately have dir1: "map_of (disk ?w1) d = Some Directory"
    unfolding d1 by (simp only: writes_map_of_other)
  have listed1: "\<forall>(q, nd) \<in> set (disk ?w1). prefix (d @ ''/beat-'') q \<longrightarrow>
           (\<exists>n \<in> set (map fst (children (disk ?w1) d)). under (path_join [d, n]) q)"
  proof (intro ballI, clarify)
    fix q nd assume m: "(q, nd) \<in> set (disk ?w1)" and p: "prefix (d @ ''/beat-'') q"
    from m have "(q, nd) \<in> set ?kept \<or>
        (\<exists>a \<in> set xs. q = path_join [d, flattenFilename (ex_relativePath a)])"
      unfolding d1 by (rule writes_keys)
    moreover have "(q, nd) \<notin> set ?kept" using p by simp
    ultimately obtain a :: export_artifact
      where a: "q = path_join [d, flattenFilename (ex_relativePath a)]" by blast
    let ?n = "flattenFilename (ex_relativePath a)"
    have q: "q = d @ CHR ''/'' # ?n" using a flat_target(1) [OF assms(1)] by simp
    have "?n \<in> set (map fst (children (disk ?w1) d))"
      unfolding children_names using m q flattenFilename_shape [of "ex_relativePath a"] by blast
    moreover have "under (path_join [d, ?n]) q" using a by (simp add: under_def)
    ultimately show "\<exists>n \<in> set (map fst (children (disk ?w1) d)). under (path_join [d, n]) q"
      by blast
  qed
  from install_result [OF assms(1) dist1 dir1 listed1, of xs]
  have ok2: "fst (?install ?w1) = Inr (length xs)"
    and d2: "disk (snd (?install ?w1)) =
       foldl ?upd (filter (\<lambda>(q, nd). \<not> prefix (d @ ''/beat-'') q) (disk ?w1)) xs"
    by simp_all
  have "filter (\<lambda>(q, nd). \<not> prefix (d @ ''/beat-'') q) (disk ?w1) = ?kept"
    unfolding d1 filter_writes_outside [OF assms(1)] by (simp add: case_prod_unfold)
  with d2 d1 have "disk (snd (?install ?w1)) = disk ?w1" by simp
  with ok1 ok2 show ?thesis by simp
qed

text \<open>
  Claim C8. On a file system whose paths are distinct and in which every path below
  \<^verbatim>\<open>destDir/beat-...\<close> lies under an entry that \<^verbatim>\<open>readdir\<close> of \<^verbatim>\<open>destDir\<close> lists, running
  \<^verbatim>\<open>clearOldBeatFiles\<close> and then \<^verbatim>\<open>flattenAndWriteArtifacts\<close> a second time leaves the disk
  exactly as the first run left it; and when \<^verbatim>\<open>destDir\<close> is a directory (which
  \<^verbatim>\<open>CodexSetup.setup\<close> ensures just before) both runs return, with one file written per
  artifact.
\<close>

theorem cleanup_then_write_idempotent:
  assumes "d \<noteq> []" and "distinct (map fst (disk w))"
    and "\<forall>(q, nd) \<in> set (disk w). prefix (d @ ''/beat-'') q \<longrightarrow>
           (\<exists>n \<in> set (map fst (children (disk w) d)). under (path_join [d, n]) q)"
  shows "disk (snd (bindA (clearOldBeatFiles d) (\<lambda>u. flattenAndWriteArtifacts xs d)
               (snd (bindA (clearOldBeatFiles d) (\<lambda>u. flattenAndWriteArtifacts xs d) w)))) =
           disk (snd (bindA (clearOldBeatFiles d) (\<lambda>u. flattenAndWriteArtifacts xs d) w)) \<and>
         (map_of (disk w) d = Some Directory \<longrightarrow>
            fst (bindA (clearOldBeatFiles d) (\<lambda>u. flattenAndWriteArtifacts xs d) w) = Inr (length xs) \<and>
            fst (bindA (clearOldBeatFiles d) (\<lambda>u. flattenAndWriteArtifacts xs d)
                  (snd (bindA (clearOldBeatFiles d) (\<lambda>u. flattenAndWriteArtifacts xs d) w))) =
              Inr (length xs))"
proof (cases "map_of (disk w) d = Some Directory")
  case True
  from idempotent_on_directory [OF assms(1,2) True assms(3), of xs] True show ?thesis by simp
next
  case False
  let ?install = "bindA (clearOldBeatFiles d) (\<lambda>u. flattenAndWriteArtifacts xs d)"
  have once: "disk (snd (?install w)) = disk w"
    by (rule install_without_directory [OF assms(1) False])
  then have "map_of (disk (snd (?install w))) d \<noteq> Some Directory" using False by simp
  from install_without_directory [OF assms(1) this, of xs] once False show ?thesis by simp
qed

theorem cleanup_then_write_idempotent_witness:
  "disk (snd (bindA (clearOldBeatFiles ''/home/u/.codex/prompts'')
           (\<lambda>u. flattenAndWriteArtifacts example_export ''/home/u/.codex/prompts'')
           (snd (bindA (clearOldBeatFiles ''/home/u/.codex/prompts'')
                  (\<lambda>u. flattenAndWriteArtifacts example_export ''/home/u/.codex/prompts'')
                  example_codex_home)))) =
     [(''/home/u'', Directory), (''/home/u/.codex'', Directory),
      (''/home/u/.codex/prompts'', Directory),
      (''/home/u/.codex/prompts/notes.md'', File ''mine''),
      (''/home/u/.codex/prompts/beat-core-agents-dev.md'', File ''LOAD'')]"
proof -
  have h1: "''/home/u/.codex/prompts'' \<noteq> []" by simp
  have h2: "distinct (map fst (disk example_codex_home))"
    by (simp add: example_codex_home_def)
  have h3: "map_of (disk example_codex_home) ''/home/u/.codex/prompts'' = Some Directory"
    by (simp add: example_codex_home_def)
  have h4: "\<forall>(q, nd) \<in> set (disk example_codex_home).
           prefix (''/home/u/.codex/prompts'' @ ''/beat-'') q \<longrightarrow>
           (\<exists>n \<in> set (map fst (children (disk example_codex_home) ''/home/u/.codex/prompts'')).
               under (path_join [''/home/u/.codex/prompts'', n]) q)"
    by (simp add: example_codex_home_def fs_eval)
  have once: "disk (snd (bindA (clearOldBeatFiles ''/home/u/.codex/prompts'')
                  (\<lambda>u. flattenAndWriteArtifacts example_export ''/home/u/.codex/prompts'')
                  example_codex_home)) =
     [(''/home/u'', Directory), (''/home/u/.codex'', Directory),
      (''/home/u/.codex/prompts'', Directory),
      (''/home/u/.codex/prompts/notes.md'', File ''mine''),
      (''/home/u/.codex/prompts/beat-core-agents-dev.md'', File ''LOAD'')]"
    by (simp add: example_codex_home_def example_export_def clearOldBeatFiles_def
        flattenFilename_def fs_eval action_eval str_eval)
  from cleanup_then_write_idempotent [OF h1 h2 h4, of example_export] once
  show ?thesis by simp
qed

section \<open>Saving an IDE configuration again\<close>

lemma mkdirs_keeps:
  "mkdirs ds fs = Inr fs' \<Longrightarrow> map_of fs k = Some v \<Longrightarrow> map_of fs' k = Some v"
proof (induction ds arbitrary: fs)
  case Nil
  then show ?case by simp
next
  case (Cons d ds)
  then show ?case
    by (auto split: if_splits option.splits node.splits simp: map_of_append dest!: Cons.IH)
qed

lemma configuredDate_kept:
  assumes "map_of fs (getIdeConfigPath beatDir ideName) = Some (File content)"
    and "yaml_load lib content = Inr existing"
    and "getProp existing ''configured_date'' = Some d" and "truthy d"
  shows "configuredDate lib fs now beatDir ideName = d"
proof -
  from assms(3) obtain kvs where "existing = YMap kvs"
    by (cases existing) (simp_all add: getProp_def)
  then have "truthy existing" by simp
  then show ?thesis
    using assms by (simp add: configuredDate_def loadIdeConfig_def pathExists_def readFile_def)
qed

text \<open>
  Claim C10. When a config file for the IDE exists, can be read and parsed, and carries a
  \<^verbatim>\<open>configured_date\<close> (one that counts as set: the code's test is truthiness), a save that
  returns leaves a file whose content is the dump of the object with the same
  \<^verbatim>\<open>configured_date\<close>, \<^verbatim>\<open>last_updated\<close> set to the time of the save, and \<^verbatim>\<open>configuration\<close>
  set to the new value, or to the empty object when none is passed; a final newline is
  added when the dump lacks one.
\<close>

theorem saveIdeConfig_keeps_configured_date:
  assumes "readFile (disk w) (getIdeConfigPath beatDir ideName) = Inr content"
    and "yaml_load lib content = Inr existing"
    and "getProp existing ''configured_date'' = Some d" and "truthy d"
    and "fst (saveIdeConfig lib now beatDir ideName configuration w) = Inr ()"
  shows "readFile (disk (snd (saveIdeConfig lib now beatDir ideName configuration w)))
           (getIdeConfigPath beatDir ideName) =
         Inr (let yamlContent = yaml_dump lib
                   (YMap [(''ide'', YStr ideName),
                          (''configured_date'', d),
                          (''last_updated'', YStr now),
                          (''configuration'', (case configuration of None \<Rightarrow> YMap [] | Some c \<Rightarrow> YMap c))])
              in if endsWith yamlContent [CHR 0x0A] then yamlContent else yamlContent @ [CHR 0x0A])"
proof -
  let ?p = "getIdeConfigPath beatDir ideName"
  from assms(1) have f0: "map_of (disk w) ?p = Some (File content)"
    by (auto simp: readFile_def split: option.splits node.splits)
  from assms(5) obtain fs1 where e: "ensureDir (disk w) (getIdeConfigDir beatDir) = Inr fs1"
    by (cases "ensureDir (disk w) (getIdeConfigDir beatDir)")
       (auto simp: saveIdeConfig_def bindA_def fs_ensureDir_def)
  then have f1: "map_of fs1 ?p = Some (File content)"
    using f0 mkdirs_keeps unfolding ensureDir_def by blast
  have date: "configuredDate lib fs1 now beatDir ideName = d"
    by (rule configuredDate_kept [OF f1 assms(2,3,4)])
  let ?c = "let yamlContent = yaml_dump lib
                   (YMap [(''ide'', YStr ideName),
                          (''configured_date'', d),
                          (''last_updated'', YStr now),
                          (''configuration'', (case configuration of None \<Rightarrow> YMap [] | Some c \<Rightarrow> YMap c))])
              in if endsWith yamlContent [CHR 0x0A] then yamlContent else yamlContent @ [CHR 0x0A]"
  let ?w1 = "w\<lparr>disk := fs1, events := events w @ [MadeDir (getIdeConfigDir beatDir)]\<rparr>"
  have run: "saveIdeConfig lib now beatDir ideName configuration w = fs_writeFile ?p ?c ?w1"
    by (simp add: saveIdeConfig_def bindA_def fs_ensureDir_def readA_def e date Let_def)
  with assms(5) obtain fs2 where wr: "writeFile fs1 ?p ?c = Inr fs2"
    by (cases "writeFile fs1 ?p ?c") (auto simp: fs_writeFile_def)
  then have "fs2 = AList.update ?p (File ?c) fs1"
    by (auto simp: writeFile_def split: option.splits node.splits if_splits)
  then have "readFile fs2 ?p = Inr ?c" by (simp add: readFile_def update_conv')
  moreover have "disk (snd (saveIdeConfig lib now beatDir ideName configuration w)) = fs2"
    unfolding run by (simp add: fs_writeFile_def wr)
  ultimately show ?thesis by simp
qed

theorem saveIdeConfig_keeps_configured_date_witness:
  "readFile (disk example_configured) (getIdeConfigPath ''/p/beat'' ''cursor'') =
     Inr ''ide: cursor; configured_date: 2024-01-01'' \<and>
   truthy (YStr ''2024-01-01'') \<and>
   fst (saveIdeConfig example_yaml ''2025-06-01'' ''/p/beat'' ''cursor'' None example_configured) = Inr () \<and>
   readFile (disk (snd (saveIdeConfig example_yaml ''2025-06-01'' ''/p/beat'' ''cursor'' None
                          example_configured)))
     (getIdeConfigPath ''/p/beat'' ''cursor'') =
     Inr (''ide: cursor; configured_date: 2024-01-01; last_updated: 2025-06-01'' @ [CHR 0x0A])"
proof -
  have h1: "readFile (disk example_configured) (getIdeConfigPath ''/p/beat'' ''cursor'') =
     Inr ''ide: cursor; configured_date: 2024-01-01''"
    by (simp add: example_configured_def getIdeConfigPath_def getIdeConfigDir_def fs_eval)
  have h2: "yaml_load example_yaml ''ide: cursor; configured_date: 2024-01-01'' =
     Inr (YMap [(''ide'', YStr ''cursor''), (''configured_date'', YStr ''2024-01-01'')])"
    by (simp add: example_yaml_def)
  have h3: "getProp (YMap [(''ide'', YStr ''cursor''), (''configured_date'', YStr ''2024-01-01'')])
              ''configured_date'' = Some (YStr ''2024-01-01'')"
    by (simp add: getProp_def)
  have h4: "truthy (YStr ''2024-01-01'')" by simp
  have h5: "fst (saveIdeConfig example_yaml ''2025-06-01'' ''/p/beat'' ''cursor'' None example_configured) = Inr ()"
    by (simp add: example_configured_def example_yaml_def saveIdeConfig_def configuredDate_def
        loadIdeConfig_def getProp_def getIdeConfigPath_def getIdeConfigDir_def Let_def
        fs_eval action_eval str_eval)
  from saveIdeConfig_keeps_configured_date [OF h1 h2 h3 h4 h5]
  have "readFile (disk (snd (saveIdeConfig example_yaml ''2025-06-01'' ''/p/beat'' ''cursor'' None
                          example_configured)))
     (getIdeConfigPath ''/p/beat'' ''cursor'') =
     Inr (''ide: cursor; configured_date: 2024-01-01; last_updated: 2025-06-01'' @ [CHR 0x0A])"
    by (simp add: example_yaml_def str_eval)
  with h1 h4 h5 show ?thesis by blast
qed

section \<open>Rendering twice\<close>

text \<open>
  Two runs of a write step are compared through \<open>rerun_same\<close>. The rules below build it up
  along the structure of an action: the file operations have it, and sequencing, loops and
  branches keep it.
\<close>

lemma rerun_sameI:
  assumes "\<And>w1 w2 r1 r2 w1' w2'.
     m w1 = (Inr r1, w1') \<Longrightarrow> m w2 = (Inr r2, w2') \<Longrightarrow>
     (\<forall>p \<in> S. readFile (disk w1) p = readFile (disk w2) p) \<Longrightarrow>
     r1 = r2 \<and>
     (\<exists>es. events w1' = events w1 @ es \<and> events w2' = events w2 @ es \<and>
           (\<forall>p. Wrote p \<in> set es \<longrightarrow>
                (\<exists>c. readFile (disk w1') p = Inr c \<and> readFile (disk w2') p = Inr c))) \<and>
     (\<forall>p. readFile (disk w1) p = readFile (disk w2) p \<longrightarrow>
          readFile (disk w1') p = readFile (disk w2') p) \<and>
     (\<forall>p c. readFile (disk w1) p = Inr c \<longrightarrow> (\<exists>c'. readFile (disk w1') p = Inr c'))"
  shows "rerun_same S m"
  unfolding rerun_same_def using assms by blast

lemma rerun_sameD:
  assumes "rerun_same S m" and "m w1 = (Inr r1, w1')" and "m w2 = (Inr r2, w2')"
    and "\<forall>p \<in> S. readFile (disk w1) p = readFile (disk w2) p"
  shows "r1 = r2"
    and "\<exists>es. events w1' = events w1 @ es \<and> events w2' = events w2 @ es \<and>
           (\<forall>p. Wrote p \<in> set es \<longrightarrow>
                (\<exists>c. readFile (disk w1') p = Inr c \<and> readFile (disk w2') p = Inr c))"
    and "\<And>p. readFile (disk w1) p = readFile (disk w2) p \<Longrightarrow>
           readFile (disk w1') p = readFile (disk w2') p"
    and "\<And>p c. readFile (disk w1) p = Inr c \<Longrightarrow> \<exists>c'. readFile (disk w1') p = Inr c'"
proof -
  from assms(1) [unfolded rerun_same_def, rule_format, of w1 r1 w1' w2 r2 w2'] assms(2-4)
  have *: "r1 = r2 \<and>
     (\<exists>es. events w1' = events w1 @ es \<and> events w2' = events w2 @ es \<and>
           (\<forall>p. Wrote p \<in> set es \<longrightarrow>
                (\<exists>c. readFile (disk w1') p = Inr c \<and> readFile (disk w2') p = Inr c))) \<and>
     (\<forall>p. readFile (disk w1) p = readFile (disk w2) p \<longrightarrow>
          readFile (disk w1') p = readFile (disk w2') p) \<and>
     (\<forall>p c. readFile (disk w1) p = Inr c \<longrightarrow> (\<exists>c'. readFile (disk w1') p = Inr c'))"
    by blast
  from * show "r1 = r2" by blast
  from * show "\<exists>es. events w1' = events w1 @ es \<and> events w2' = events w2 @ es \<and>
           (\<forall>p. Wrote p \<in> set es \<longrightarrow>
                (\<exists>c. readFile (disk w1') p = Inr c \<and> readFile (disk w2') p = Inr c))" by blast
  from * show "\<And>p. readFile (disk w1) p = readFile (disk w2) p \<Longrightarrow>
           readFile (disk w1') p = readFile (disk w2') p" by blast
  from * show "\<And>p c. readFile (disk w1) p = Inr c \<Longrightarrow> \<exists>c'. readFile (disk w1') p = Inr c'" by blast
qed

lemma rerun_same_returnA: "rerun_same S (returnA x)"
  by (rule rerun_sameI) (auto simp: returnA_def)

lemma rerun_same_read: "p \<in> S \<Longrightarrow> rerun_same S (readA (\<lambda>fs. readFile fs p))"
  by (rule rerun_sameI) (auto simp: readA_def)

lemma rerun_same_bindA:
  assumes m: "rerun_same S m" and f: "\<And>x. rerun_same S (f x)"
  shows "rerun_same S (bindA m f)"
proof (rule rerun_sameI)
  fix w1 w2 r1 r2 w1'' w2''
  assume a1: "bindA m f w1 = (Inr r1, w1'')" and a2: "bindA m f w2 = (Inr r2, w2'')"
    and ag: "\<forall>p \<in> S. readFile (disk w1) p = readFile (disk w2) p"
  from a1 obtain x1 w1' where m1: "m w1 = (Inr x1, w1')" and f1: "f x1 w1' = (Inr r1, w1'')"
    by (auto simp: bindA_def split: prod.splits sum.splits)
  from a2 obtain x2 w2' where m2: "m w2 = (Inr x2, w2')" and f2: "f x2 w2' = (Inr r2, w2'')"
    by (auto simp: bindA_def split: prod.splits sum.splits)
  note M = rerun_sameD [OF m m1 m2 ag]
  from M(1) f2 have f2': "f x1 w2' = (Inr r2, w2'')" by simp
  from M(3) ag have ag': "\<forall>p \<in> S. readFile (disk w1') p = readFile (disk w2') p" by blast
  note F = rerun_sameD [OF f f1 f2' ag']
  from M(2) obtain es1 where es1: "events w1' = events w1 @ es1" "events w2' = events w2 @ es1"
    "\<And>p. Wrote p \<in> set es1 \<Longrightarrow> \<exists>c. readFile (disk w1') p = Inr c \<and> readFile (disk w2') p = Inr c"
    by blast
  from F(2) obtain es2 where es2: "events w1'' = events w1' @ es2" "events w2'' = events w2' @ es2"
    "\<And>p. Wrote p \<in> set es2 \<Longrightarrow> \<exists>c. readFile (disk w1'') p = Inr c \<and> readFile (disk w2'') p = Inr c"
    by blast
  have wr: "\<exists>c. readFile (disk w1'') p = Inr c \<and> readFile (disk w2'') p = Inr c"
    if "Wrote p \<in> set (es1 @ es2)" for p
  proof (cases "Wrote p \<in> set es2")
    case True
    then show ?thesis by (rule es2(3))
  next
    case False
    with that have "Wrote p \<in> set es1" by simp
    from es1(3) [OF this] obtain c where c: "readFile (disk w1') p = Inr c" "readFile (disk w2') p = Inr c"
      by blast
    from F(4) [OF c(1)] obtain c' where "readFile (disk w1'') p = Inr c'" by blast
    moreover from F(3) [of p] c have "readFile (disk w1'') p = readFile (disk w2'') p" by simp
    ultimately show ?thesis by simp
  qed
  have ev: "events w1'' = events w1 @ (es1 @ es2)" "events w2'' = events w2 @ (es1 @ es2)"
    using es1(1,2) es2(1,2) by simp_all
  have keep: "readFile (disk w1'') p = readFile (disk w2'') p"
    if "readFile (disk w1) p = readFile (disk w2) p" for p
    using F(3) [OF M(3) [OF that]] .
  have stays: "\<exists>c'. readFile (disk w1'') p = Inr c'" if "readFile (disk w1) p = Inr c" for p c
  proof -
    from M(4) [OF that] obtain c1 where "readFile (disk w1') p = Inr c1" by blast
    from F(4) [OF this] show ?thesis .
  qed
  show "r1 = r2 \<and>
     (\<exists>es. events w1'' = events w1 @ es \<and> events w2'' = events w2 @ es \<and>
           (\<forall>p. Wrote p \<in> set es \<longrightarrow>
                (\<exists>c. readFile (disk w1'') p = Inr c \<and> readFile (disk w2'') p = Inr c))) \<and>
     (\<forall>p. readFile (disk w1) p = readFile (disk w2) p \<longrightarrow>
          readFile (disk w1'') p = readFile (disk w2'') p) \<and>
     (\<forall>p c. readFile (disk w1) p = Inr c \<longrightarrow> (\<exists>c'. readFile (disk w1'') p = Inr c'))"
    using F(1) ev wr keep stays by blast
qed

lemma rerun_same_forEachA:
  "(\<And>x. x \<in> set xs \<Longrightarrow> rerun_same S (f x)) \<Longrightarrow> rerun_same S (forEachA f xs)"
  by (induction xs) (auto intro!: rerun_same_returnA rerun_same_bindA)

lemma rerun_same_if:
  "rerun_same S a \<Longrightarrow> rerun_same S b \<Longrightarrow> rerun_same S (if c then a else b)"
  by simp

lemma readFile_update:
  "readFile (AList.update p (File c) fs) q = (if q = p then Inr c else readFile fs q)"
  by (simp add: readFile_def update_conv')

lemma rerun_same_fs_writeFile: "rerun_same S (fs_writeFile p c)"
proof (rule rerun_sameI)
  fix w1 w2 :: world and r1 r2 :: unit and w1' w2'
  assume a1: "fs_writeFile p c w1 = (Inr r1, w1')" and a2: "fs_writeFile p c w2 = (Inr r2, w2')"
  from a1 obtain fs1 where f1: "writeFile (disk w1) p c = Inr fs1"
    and w1': "w1' = w1\<lparr>disk := fs1, events := events w1 @ [Wrote p]\<rparr>"
    by (cases "writeFile (disk w1) p c") (auto simp: fs_writeFile_def)
  from a2 obtain fs2 where f2: "writeFile (disk w2) p c = Inr fs2"
    and w2': "w2' = w2\<lparr>disk := fs2, events := events w2 @ [Wrote p]\<rparr>"
    by (cases "writeFile (disk w2) p c") (auto simp: fs_writeFile_def)
  have d: "disk w1' = AList.update p (File c) (disk w1)" "disk w2' = AList.update p (File c) (disk w2)"
    "events w1' = events w1 @ [Wrote p]" "events w2' = events w2 @ [Wrote p]"
    using writeFile_Inr [OF f1] writeFile_Inr [OF f2] w1' w2' by simp_all
  show "r1 = r2 \<and>
     (\<exists>es. events w1' = events w1 @ es \<and> events w2' = events w2 @ es \<and>
           (\<forall>p. Wrote p \<in> set es \<longrightarrow>
                (\<exists>c. readFile (disk w1') p = Inr c \<and> readFile (disk w2') p = Inr c))) \<and>
     (\<forall>p. readFile (disk w1) p = readFile (disk w2) p \<longrightarrow>
          readFile (disk w1') p = readFile (disk w2') p) \<and>
     (\<forall>p c. readFile (disk w1) p = Inr c \<longrightarrow> (\<exists>c'. readFile (disk w1') p = Inr c'))"
    unfolding d by (simp add: readFile_update)
qed

lemma mkdirs_map_of:
  "mkdirs ds fs = Inr fs' \<Longrightarrow>
   map_of fs' q = (if q \<in> set ds \<and> q \<noteq> [] then Some Directory else map_of fs q)"
proof (induction ds arbitrary: fs)
  case Nil
  then show ?case by simp
next
  case (Cons d ds)
  show ?case
  proof (cases "d = []")
    case True
    with Cons.prems have "mkdirs ds fs = Inr fs'" by simp
    from Cons.IH [OF this] True show ?thesis by auto
  next
    case False
    show ?thesis
    proof (cases "map_of fs d")
      case None
      with Cons.prems False have "mkdirs ds (fs @ [(d, Directory)]) = Inr fs'" by simp
      from Cons.IH [OF this] None False show ?thesis
        by (auto simp: map_add_def split: option.splits)
    next
      case (Some nd)
      with Cons.prems False have nd: "nd = Directory" and r: "mkdirs ds fs = Inr fs'"
        by (cases nd; simp)+
      from Cons.IH [OF r] Some nd False show ?thesis by auto
    qed
  qed
qed

lemma mkdirs_keeps_file:
  "mkdirs ds fs = Inr fs' \<Longrightarrow> map_of fs q = Some (File c) \<Longrightarrow> map_of fs' q = Some (File c)"
proof (induction ds arbitrary: fs)
  case Nil
  then show ?case by simp
next
  case (Cons d ds)
  show ?case
  proof (cases "d = []")
    case True
    with Cons.prems have "mkdirs ds fs = Inr fs'" by simp
    from Cons.IH [OF this Cons.prems(2)] show ?thesis .
  next
    case False
    show ?thesis
    proof (cases "map_of fs d")
      case None
      with Cons.prems False have r: "mkdirs ds (fs @ [(d, Directory)]) = Inr fs'" by simp
      from Cons.prems(2) have "map_of (fs @ [(d, Directory)]) q = Some (File c)"
        by (simp add: map_add_def)
      from Cons.IH [OF r this] show ?thesis .
    next
      case (Some nd)
      with Cons.prems False have r: "mkdirs ds fs = Inr fs'"
        by (cases nd; simp)
      from Cons.IH [OF r Cons.prems(2)] show ?thesis .
    qed
  qed
qed

lemma readFile_mkdirs:
  assumes "mkdirs ds fs = Inr fs'"
  shows "readFile fs' q = (if q \<in> set ds \<and> q \<noteq> [] then Inl EISDIR else readFile fs q)"
  using mkdirs_map_of [OF assms, of q] by (simp add: readFile_def)

lemma readFile_mkdirs_file:
  assumes "mkdirs ds fs = Inr fs'" and "readFile fs q = Inr c"
  shows "readFile fs' q = Inr c"
proof -
  from assms(2) have "map_of fs q = Some (File c)"
    by (auto simp: readFile_def split: option.splits node.splits)
  from mkdirs_keeps_file [OF assms(1) this] show ?thesis by (simp add: readFile_def)
qed

lemma rerun_same_fs_ensureDir: "rerun_same S (fs_ensureDir p)"
proof (rule rerun_sameI)
  fix w1 w2 :: world and r1 r2 :: unit and w1' w2'
  assume a1: "fs_ensureDir p w1 = (Inr r1, w1')" and a2: "fs_ensureDir p w2 = (Inr r2, w2')"
  from a1 obtain fs1 where f1: "mkdirs (dir_chain p) (disk w1) = Inr fs1"
    and w1': "w1' = w1\<lparr>disk := fs1, events := events w1 @ [MadeDir p]\<rparr>"
    by (cases "ensureDir (disk w1) p") (auto simp: fs_ensureDir_def ensureDir_def)
  from a2 obtain fs2 where f2: "mkdirs (dir_chain p) (disk w2) = Inr fs2"
    and w2': "w2' = w2\<lparr>disk := fs2, events := events w2 @ [MadeDir p]\<rparr>"
    by (cases "ensureDir (disk w2) p") (auto simp: fs_ensureDir_def ensureDir_def)
  have d: "disk w1' = fs1" "disk w2' = fs2"
    "events w1' = events w1 @ [MadeDir p]" "events w2' = events w2 @ [MadeDir p]"
    using w1' w2' by simp_all
  show "r1 = r2 \<and>
     (\<exists>es. events w1' = events w1 @ es \<and> events w2' = events w2 @ es \<and>
           (\<forall>p. Wrote p \<in> set es \<longrightarrow>
                (\<exists>c. readFile (disk w1') p = Inr c \<and> readFile (disk w2') p = Inr c))) \<and>
     (\<forall>p. readFile (disk w1) p = readFile (disk w2) p \<longrightarrow>
          readFile (disk w1') p = readFile (disk w2') p) \<and>
     (\<forall>p c. readFile (disk w1) p = Inr c \<longrightarrow> (\<exists>c'. readFile (disk w1') p = Inr c'))"
    unfolding d using readFile_mkdirs_file [OF f1]
    by (simp add: readFile_mkdirs [OF f1] readFile_mkdirs [OF f2])
qed

lemma rerun_same_base_writeFile: "rerun_same S (base_writeFile p c)"
  unfolding base_writeFile_def
  by (intro rerun_same_bindA rerun_same_fs_ensureDir rerun_same_fs_writeFile)

lemma rerun_same_read_write:
  "p \<in> S \<Longrightarrow> rerun_same S (bindA (readA (\<lambda>fs. readFile fs p)) (\<lambda>content. base_writeFile (q content) (c content)))"
  by (intro rerun_same_bindA rerun_same_read rerun_same_base_writeFile)

lemmas rerun_same_intros =
  rerun_same_returnA rerun_same_bindA rerun_same_forEachA rerun_same_if
  rerun_same_fs_ensureDir rerun_same_fs_writeFile rerun_same_base_writeFile rerun_same_read

lemma rerun_same_flattenAndWriteArtifacts:
  "rerun_same S (flattenAndWriteArtifacts xs d)"
  by (induction xs) (auto intro!: rerun_same_intros)


lemma rerun_same_cursor_writeProcessed:
  "agent_path item \<in> S \<Longrightarrow> rerun_same S (cursor_writeProcessed e d k item)"
  unfolding cursor_writeProcessed_def by (intro rerun_same_intros)

lemma rerun_same_qwen_writeProcessed:
  "agent_path item \<in> S \<Longrightarrow> rerun_same S (qwen_writeProcessed e d k item)"
  unfolding qwen_writeProcessed_def by (intro rerun_same_intros)

lemma rerun_same_cursor_writeRules:
  assumes "agent_path ` set tasks \<subseteq> S" and "agent_path ` set tools \<subseteq> S"
    and "agent_path ` set workflows \<subseteq> S"
  shows "rerun_same S (cursor_writeRules e d arts tasks tools workflows)"
  unfolding cursor_writeRules_def Let_def
  by (intro rerun_same_intros rerun_same_cursor_writeProcessed) (use assms in auto)

lemma rerun_same_trae_writeRules:
  assumes "agent_path ` set tasks \<subseteq> S" and "agent_path ` set tools \<subseteq> S"
    and "agent_path ` set workflows \<subseteq> S"
  shows "rerun_same S (trae_writeRules e projectDir d arts tasks tools workflows)"
  unfolding trae_writeRules_def Let_def
  by (intro rerun_same_intros) (use assms in auto)

lemma rerun_same_windsurf_writeWorkflows:
  assumes "agent_path ` set tasks \<subseteq> S" and "agent_path ` set tools \<subseteq> S"
    and "agent_path ` set workflows \<subseteq> S"
  shows "rerun_same S (windsurf_writeWorkflows d arts tasks tools workflows)"
  unfolding windsurf_writeWorkflows_def Let_def
  by (intro rerun_same_intros) (use assms in auto)

lemma rerun_same_auggie_writeCommands:
  assumes "agent_path ` set tasks \<subseteq> S" and "agent_path ` set tools \<subseteq> S"
    and "agent_path ` set workflows \<subseteq> S"
  shows "rerun_same S (auggie_writeCommands e d arts tasks tools workflows)"
  unfolding auggie_writeCommands_def Let_def
  by (intro rerun_same_intros) (use assms in auto)

lemma rerun_same_qwen_writeCommands:
  assumes "agent_path ` set tasks \<subseteq> S" and "agent_path ` set tools \<subseteq> S"
    and "agent_path ` set workflows \<subseteq> S"
  shows "rerun_same S (qwen_writeCommands e d arts tasks tools workflows)"
  unfolding qwen_writeCommands_def Let_def
  by (intro rerun_same_intros rerun_same_qwen_writeProcessed) (use assms in auto)

lemma rerun_same_opencode:
  "rerun_same S (opencode_writeAgents d arts)"
  "rerun_same S (opencode_writeWorkflows e d wfs)"
  "rerun_same S (opencode_writeTaskTools e d ts tls)"
  unfolding opencode_writeAgents_def opencode_writeWorkflows_def opencode_writeTaskTools_def
  by (intro rerun_same_intros)+

lemma rerun_same_iflow:
  "rerun_same S (iflow_writeAgents d arts)"
  "agent_path ` set tasks \<subseteq> S \<Longrightarrow> rerun_same S (iflow_writeTasks e d tasks)"
  unfolding iflow_writeAgents_def iflow_writeTasks_def
  by (intro rerun_same_intros; auto)+

text \<open>The launchers and the processed tasks depend on the files they read only.\<close>

lemma launchAll_same:
  "readFile fs1 (templatePath e) = readFile fs2 (templatePath e) \<Longrightarrow>
   launchAll e fs1 agents = launchAll e fs2 agents"
  by (induction agents) (simp_all add: generateLauncherContent_def cong: sum.case_cong)

lemma processTasks_same:
  "\<forall>t \<in> set tasks. readFile fs1 (agent_path t) = readFile fs2 (agent_path t) \<Longrightarrow>
   processTasks e fs1 projectDir tasks = processTasks e fs2 projectDir tasks"
  by (induction tasks) (simp_all cong: sum.case_cong)


text \<open>
  Claim C7. What the render-and-write step of a target does is a function of the artifacts
  it is given and of the source files it reads, and of nothing else: not of a clock, not of
  what an earlier run left on disk. For the step of every target (the flat export of Codex
  and Cline, and the write steps of Cursor with its launcher envelope and its index, Trae,
  Windsurf, Auggie, Qwen, OpenCode and iFlow), take two runs on the same artifacts, started
  in any two worlds in which the source files of the tasks, tools and workflows read the
  same, and let both return. Then they return the same value, they create the same
  directories and write the same destination paths in the same order, and every path
  written holds a file with the same bytes after both runs. The launcher content generated
  for a list of agents is the same in two file systems in which the template file reads
  the same, and the task artifacts of the flat export are the same in two file systems in
  which the task files read the same. (OpenCode's \<^verbatim>\<open>createAgentContent\<close> is called by no
  install sequence and is not part of any step.)
\<close>

theorem render_deterministic:
  "rerun_same {} (flattenAndWriteArtifacts artifacts destDir) \<and>
   rerun_same (sourcePaths tasks tools workflows)
     (cursor_writeRules e d arts tasks tools workflows) \<and>
   rerun_same (sourcePaths tasks tools workflows)
     (trae_writeRules e projectDir d arts tasks tools workflows) \<and>
   rerun_same (sourcePaths tasks tools workflows)
     (windsurf_writeWorkflows d arts tasks tools workflows) \<and>
   rerun_same (sourcePaths tasks tools workflows)
     (auggie_writeCommands e d arts tasks tools workflows) \<and>
   rerun_same (sourcePaths tasks tools workflows)
     (qwen_writeCommands e d arts tasks tools workflows) \<and>
   rerun_same {} (opencode_writeAgents d arts) \<and>
   rerun_same {} (opencode_writeWorkflows e d workflowArtifacts) \<and>
   rerun_same {} (opencode_writeTaskTools e d standaloneTasks standaloneTools) \<and>
   rerun_same {} (iflow_writeAgents d arts) \<and>
   rerun_same (agent_path ` set tasks) (iflow_writeTasks e d tasks) \<and>
   (readFile fs1 (templatePath e) = readFile fs2 (templatePath e) \<longrightarrow>
      launchAll e fs1 agents = launchAll e fs2 agents) \<and>
   ((\<forall>t \<in> set tasks. readFile fs1 (agent_path t) = readFile fs2 (agent_path t)) \<longrightarrow>
      processTasks e fs1 projectDir tasks = processTasks e fs2 projectDir tasks)"
proof -
  have s: "agent_path ` set tasks \<subseteq> sourcePaths tasks tools workflows"
    "agent_path ` set tools \<subseteq> sourcePaths tasks tools workflows"
    "agent_path ` set workflows \<subseteq> sourcePaths tasks tools workflows"
    by (auto simp: sourcePaths_def)
  show ?thesis
    by (intro conjI impI rerun_same_flattenAndWriteArtifacts rerun_same_cursor_writeRules
        rerun_same_trae_writeRules rerun_same_windsurf_writeWorkflows
        rerun_same_auggie_writeCommands rerun_same_qwen_writeCommands rerun_same_opencode
        rerun_same_iflow launchAll_same processTasks_same s subset_refl)
qed

lemmas cursor_write_eval =
  cursor_writeRules_def cursor_writeProcessed_def base_writeFile_def cursor_targetPath_def
  insertionOrder_def example_launcher_def example_task_def example_env_def
  example_task_install_def example_task_reinstall_def example_install_def Let_def

lemma cursor_write_first:
  "fst (cursor_writeRules example_env ''/p/.cursor/rules/beat'' [example_launcher] [example_task] [] []
          example_task_install) = Inr ()"
  "events (snd (cursor_writeRules example_env ''/p/.cursor/rules/beat'' [example_launcher]
                  [example_task] [] [] example_task_install)) =
     [MadeDir ''/p/.cursor/rules/beat/core'', MadeDir ''/p/.cursor/rules/beat/core/agents'',
      MadeDir ''/p/.cursor/rules/beat/core/tasks'', MadeDir ''/p/.cursor/rules/beat/core/tools'',
      MadeDir ''/p/.cursor/rules/beat/core/workflows'',
      MadeDir ''/p/.cursor/rules/beat/core/agents'',
      Wrote ''/p/.cursor/rules/beat/core/agents/dev.mdc'',
      MadeDir ''/p/.cursor/rules/beat/core/tasks'',
      Wrote ''/p/.cursor/rules/beat/core/tasks/build.mdc'',
      MadeDir ''/p/.cursor/rules/beat'', Wrote ''/p/.cursor/rules/beat/index.mdc'']"
  by (simp_all add: cursor_write_eval fs_eval action_eval str_eval)

lemma cursor_write_second:
  "fst (cursor_writeRules example_env ''/p/.cursor/rules/beat'' [example_launcher] [example_task] [] []
          example_task_reinstall) = Inr ()"
  by (simp add: cursor_write_eval fs_eval action_eval str_eval)

theorem render_deterministic_witness:
  "readFile (disk example_task_install) ''/p/.cursor/rules/beat/index.mdc'' = Inl ENOENT \<and>
   readFile (disk example_task_reinstall) ''/p/.cursor/rules/beat/index.mdc'' = Inr ''old index'' \<and>
   fst (cursor_writeRules example_env ''/p/.cursor/rules/beat'' [example_launcher] [example_task] [] []
          example_task_install) = Inr () \<and>
   fst (cursor_writeRules example_env ''/p/.cursor/rules/beat'' [example_launcher] [example_task] [] []
          example_task_reinstall) = Inr () \<and>
   events (snd (cursor_writeRules example_env ''/p/.cursor/rules/beat'' [example_launcher]
                  [example_task] [] [] example_task_reinstall)) =
   events (snd (cursor_writeRules example_env ''/p/.cursor/rules/beat'' [example_launcher]
                  [example_task] [] [] example_task_install)) \<and>
   (\<exists>c. readFile (disk (snd (cursor_writeRules example_env ''/p/.cursor/rules/beat''
                  [example_launcher] [example_task] [] [] example_task_install)))
           ''/p/.cursor/rules/beat/core/agents/dev.mdc'' = Inr c \<and>
         readFile (disk (snd (cursor_writeRules example_env ''/p/.cursor/rules/beat''
                  [example_launcher] [example_task] [] [] example_task_reinstall)))
           ''/p/.cursor/rules/beat/core/agents/dev.mdc'' = Inr c) \<and>
   (\<exists>c. readFile (disk (snd (cursor_writeRules example_env ''/p/.cursor/rules/beat''
                  [example_launcher] [example_task] [] [] example_task_install)))
           ''/p/.cursor/rules/beat/core/tasks/build.mdc'' = Inr c \<and>
         readFile (disk (snd (cursor_writeRules example_env ''/p/.cursor/rules/beat''
                  [example_launcher] [example_task] [] [] example_task_reinstall)))
           ''/p/.cursor/rules/beat/core/tasks/build.mdc'' = Inr c) \<and>
   (\<exists>c. readFile (disk (snd (cursor_writeRules example_env ''/p/.cursor/rules/beat''
                  [example_launcher] [example_task] [] [] example_task_install)))
           ''/p/.cursor/rules/beat/index.mdc'' = Inr c \<and>
         readFile (disk (snd (cursor_writeRules example_env ''/p/.cursor/rules/beat''
                  [example_launcher] [example_task] [] [] example_task_reinstall)))
           ''/p/.cursor/rules/beat/index.mdc'' = Inr c) \<and>
   launchAll example_env (disk example_task_install)
     [\<lparr>agent_path = ''/p/beat/core/agents/dev.md'', agent_name = ''dev'', agent_module = ''core''\<rparr>] =
   launchAll example_env (disk example_task_reinstall)
     [\<lparr>agent_path = ''/p/beat/core/agents/dev.md'', agent_name = ''dev'', agent_module = ''core''\<rparr>]"
proof -
  let ?m = "cursor_writeRules example_env ''/p/.cursor/rules/beat'' [example_launcher]
              [example_task] [] []"
  note t = render_deterministic [of _ _ "[example_task]" "[]" "[]" example_env
      "''/p/.cursor/rules/beat''" "[example_launcher]" _ _ _ _
      "disk example_task_install" "disk example_task_reinstall"
      "[\<lparr>agent_path = ''/p/beat/core/agents/dev.md'', agent_name = ''dev'', agent_module = ''core''\<rparr>]"]
  from t have r: "rerun_same (sourcePaths [example_task] [] []) ?m" by blast
  have m1: "?m example_task_install = (Inr (), snd (?m example_task_install))"
    using cursor_write_first(1) by (metis prod.collapse)
  have m2: "?m example_task_reinstall = (Inr (), snd (?m example_task_reinstall))"
    using cursor_write_second by (metis prod.collapse)
  have ag: "\<forall>p \<in> sourcePaths [example_task] [] [].
      readFile (disk example_task_install) p = readFile (disk example_task_reinstall) p"
    by (simp add: sourcePaths_def example_task_def example_task_install_def
        example_task_reinstall_def example_install_def readFile_def)
  have ev0: "events example_task_install = []" "events example_task_reinstall = []"
    by (simp_all add: example_task_install_def example_task_reinstall_def)
  from r [unfolded rerun_same_def, rule_format, OF conjI [OF m1 conjI [OF m2 ag]]]
  obtain es where es: "events (snd (?m example_task_install)) = es"
    "events (snd (?m example_task_reinstall)) = es"
    "\<And>p. Wrote p \<in> set es \<Longrightarrow>
       \<exists>c. readFile (disk (snd (?m example_task_install))) p = Inr c \<and>
           readFile (disk (snd (?m example_task_reinstall))) p = Inr c"
    unfolding ev0 by auto
  from es(1) have mem: "Wrote ''/p/.cursor/rules/beat/core/agents/dev.mdc'' \<in> set es"
    "Wrote ''/p/.cursor/rules/beat/core/tasks/build.mdc'' \<in> set es"
    "Wrote ''/p/.cursor/rules/beat/index.mdc'' \<in> set es"
    unfolding cursor_write_first(2) by auto
  have before: "readFile (disk example_task_install) ''/p/.cursor/rules/beat/index.mdc'' = Inl ENOENT"
    "readFile (disk example_task_reinstall) ''/p/.cursor/rules/beat/index.mdc'' = Inr ''old index''"
    by (simp_all add: example_task_install_def example_task_reinstall_def example_install_def
        readFile_def)
  have tpl: "readFile (disk example_task_install) (templatePath example_env) =
             readFile (disk example_task_reinstall) (templatePath example_env)"
    by (simp add: example_env_def example_task_install_def example_task_reinstall_def
        example_install_def readFile_def)
  from t tpl have la: "launchAll example_env (disk example_task_install)
     [\<lparr>agent_path = ''/p/beat/core/agents/dev.md'', agent_name = ''dev'', agent_module = ''core''\<rparr>] =
     launchAll example_env (disk example_task_reinstall)
     [\<lparr>agent_path = ''/p/beat/core/agents/dev.md'', agent_name = ''dev'', agent_module = ''core''\<rparr>]" by blast
  show ?thesis
    using before cursor_write_first(1) cursor_write_second es(1,2) es(3) [OF mem(1)]
      es(3) [OF mem(2)] es(3) [OF mem(3)] la
    by simp
qed

end
